theory Spec2Isabelle
  imports Complex_Main "HOL-Library.Multiset"
begin

text \<open>
  A shallow embedding of the incentive engine \<^verbatim>\<open>src/runtime/schemes/runScheme.js\<close>:
  its helper functions, \<open>evaluateCondition\<close>, \<open>findManager\<close>,
  \<open>calculateMarginalTieredPayout\<close> and \<open>runScheme\<close>, with the properties the
  specification claims of them.
\<close>

section \<open>Strings\<close>

text \<open>
  Strings are lists of 8-bit characters. \<open>trim\<close>, \<open>toLowerCase\<close> and
  \<open>toUpperCase\<close> are modelled on ASCII: white space is space, tab, line feed, vertical
  tab, form feed and carriage return, and only the letters a-z and A-Z change case.
\<close>

definition isDigit :: "char \<Rightarrow> bool" where
  "isDigit c = (c \<in> set ''0123456789'')"

definition digitVal :: "char \<Rightarrow> nat" where
  "digitVal c = (of_char c :: nat) - 48"

definition parseDigits :: "string \<Rightarrow> nat" where
  "parseDigits s = foldl (\<lambda>n c. 10 * n + digitVal c) 0 s"

definition digitsToInt :: "string \<Rightarrow> int" where
  "digitsToInt s = foldl (\<lambda>n c. 10 * n + int (digitVal c)) 0 s"

definition showDigit :: "nat \<Rightarrow> char" where
  "showDigit n = ''0123456789'' ! (n mod 10)"

fun showNat :: "nat \<Rightarrow> string" where
  "showNat n = (if n < 10 then [showDigit n] else showNat (n div 10) @ [showDigit n])"

declare showNat.simps [simp del]

fun showInt :: "int \<Rightarrow> string" where
  "showInt n =
     (if n < 10 then [showDigit (nat n)]
      else showInt (n div 10) @ [showDigit (nat (n mod 10))])"

declare showInt.simps [simp del]

definition isSpace :: "char \<Rightarrow> bool" where
  "isSpace c = (c \<in> set [CHR '' '', CHR 0x09, CHR 0x0A, CHR 0x0B, CHR 0x0C, CHR 0x0D])"

definition trim :: "string \<Rightarrow> string" where
  "trim s = rev (dropWhile isSpace (rev (dropWhile isSpace s)))"

definition toLowerChar :: "char \<Rightarrow> char" where
  "toLowerChar c =
     (case map_of (zip ''ABCDEFGHIJKLMNOPQRSTUVWXYZ'' ''abcdefghijklmnopqrstuvwxyz'') c of
        Some l \<Rightarrow> l | None \<Rightarrow> c)"

definition toUpperChar :: "char \<Rightarrow> char" where
  "toUpperChar c =
     (case map_of (zip ''abcdefghijklmnopqrstuvwxyz'' ''ABCDEFGHIJKLMNOPQRSTUVWXYZ'') c of
        Some u \<Rightarrow> u | None \<Rightarrow> c)"

definition toLowerCase :: "string \<Rightarrow> string" where
  "toLowerCase s = map toLowerChar s"

definition toUpperCase :: "string \<Rightarrow> string" where
  "toUpperCase s = map toUpperChar s"

fun startsWith :: "string \<Rightarrow> string \<Rightarrow> bool" where
  "startsWith s [] = True"
| "startsWith [] (p # ps) = False"
| "startsWith (c # cs) (p # ps) = (c = p \<and> startsWith cs ps)"

definition endsWith :: "string \<Rightarrow> string \<Rightarrow> bool" where
  "endsWith s t = startsWith (rev s) (rev t)"

fun includesStr :: "string \<Rightarrow> string \<Rightarrow> bool" where
  "includesStr [] t = (t = [])"
| "includesStr (c # cs) t = (startsWith (c # cs) t \<or> includesStr cs t)"

text \<open>\<open>path.split('.')\<close>: the pieces between the dots, empty pieces included.\<close>

fun splitDot :: "string \<Rightarrow> string list" where
  "splitDot [] = [[]]"
| "splitDot (c # cs) =
     (if c = CHR ''.'' then [] # splitDot cs
      else (case splitDot cs of [] \<Rightarrow> [[c]] | w # ws \<Rightarrow> (c # w) # ws))"

section \<open>Decimals\<close>

text \<open>
  The \<^verbatim>\<open>decimal.js\<close> library is not part of the sources. The model follows the
  behaviour of its version 10 under the configuration \<open>runScheme\<close> sets (precision 20,
  rounding mode ROUND_HALF_UP). A Decimal is \<open>NaN\<close>, an infinity or a finite value. The
  constructor keeps every digit of its argument. \<open>plus\<close>, \<open>minus\<close>, \<open>times\<close> and
  \<open>dividedBy\<close> round the exact result to 20 significant digits, a tie going away from
  zero. A value whose decimal exponent is above \<open>9e15\<close> is an infinity, one whose
  exponent is below \<open>-9e15\<close> is zero. The sign of a zero is not modelled: the engine
  never divides by a zero, comparisons ignore the sign, and \<open>toFixed\<close> prints none.
\<close>

datatype decimal = DNaN | DPosInf | DNegInf | DFin rat

fun digitCount :: "int \<Rightarrow> nat" where
  "digitCount n = (if n < 10 then 1 else Suc (digitCount (n div 10)))"

declare digitCount.simps [simp del]

definition pow10 :: "int \<Rightarrow> rat" where
  "pow10 k = (if 0 \<le> k then 10 ^ nat k else 1 / 10 ^ nat (- k))"

text \<open>
  The decimal exponent of a non-zero value: the \<open>e\<close> with \<open>10^e \<le> |x| < 10^(e+1)\<close>. The
  quotient of a numerator of \<open>m\<close> digits by a denominator of \<open>n\<close> digits lies strictly
  between \<open>10^(m-n-1)\<close> and \<open>10^(m-n+1)\<close>.
\<close>

definition exponent10 :: "rat \<Rightarrow> int" where
  "exponent10 x =
     (let c = int (digitCount (fst (quotient_of \<bar>x\<bar>)))
              - int (digitCount (snd (quotient_of \<bar>x\<bar>)))
      in if pow10 c \<le> \<bar>x\<bar> then c else c - 1)"

definition roundSignificant :: "nat \<Rightarrow> rat \<Rightarrow> rat" where
  "roundSignificant sd x =
     (if x = 0 then 0
      else (let unit = pow10 (exponent10 x - int sd + 1);
                n = \<lfloor>\<bar>x\<bar> / unit + 1 / 2\<rfloor>
            in (if x < 0 then - 1 else 1) * of_int n * unit))"

definition maxE :: int where
  "maxE = 9000000000000000"

definition limitExponent :: "rat \<Rightarrow> decimal" where
  "limitExponent x =
     (if x = 0 then DFin 0
      else if exponent10 x > maxE then (if x < 0 then DNegInf else DPosInf)
      else if exponent10 x < - maxE then DFin 0
      else DFin x)"

text \<open>\<open>finalise(x, Ctor.precision, Ctor.rounding)\<close> on an exact finite result.\<close>

definition finalise :: "rat \<Rightarrow> decimal" where
  "finalise x = limitExponent (roundSignificant 20 x)"

definition isZero :: "decimal \<Rightarrow> bool" where
  "isZero x = (x = DFin 0)"

definition isNegative :: "decimal \<Rightarrow> bool" where
  "isNegative x = (case x of DFin a \<Rightarrow> a < 0 | DNegInf \<Rightarrow> True | _ \<Rightarrow> False)"

fun decimalPlus :: "decimal \<Rightarrow> decimal \<Rightarrow> decimal" where
  "decimalPlus DNaN y = DNaN"
| "decimalPlus x DNaN = DNaN"
| "decimalPlus DPosInf DNegInf = DNaN"
| "decimalPlus DNegInf DPosInf = DNaN"
| "decimalPlus DPosInf y = DPosInf"
| "decimalPlus DNegInf y = DNegInf"
| "decimalPlus (DFin a) DPosInf = DPosInf"
| "decimalPlus (DFin a) DNegInf = DNegInf"
| "decimalPlus (DFin a) (DFin b) = finalise (a + b)"

fun decimalMinus :: "decimal \<Rightarrow> decimal \<Rightarrow> decimal" where
  "decimalMinus DNaN y = DNaN"
| "decimalMinus x DNaN = DNaN"
| "decimalMinus DPosInf DPosInf = DNaN"
| "decimalMinus DNegInf DNegInf = DNaN"
| "decimalMinus DPosInf y = DPosInf"
| "decimalMinus DNegInf y = DNegInf"
| "decimalMinus (DFin a) DPosInf = DNegInf"
| "decimalMinus (DFin a) DNegInf = DPosInf"
| "decimalMinus (DFin a) (DFin b) = finalise (a - b)"

definition signedInfinity :: "bool \<Rightarrow> decimal" where
  "signedInfinity negative = (if negative then DNegInf else DPosInf)"

definition decimalTimes :: "decimal \<Rightarrow> decimal \<Rightarrow> decimal" where
  "decimalTimes x y =
     (case (x, y) of
        (DFin a, DFin b) \<Rightarrow> finalise (a * b)
      | _ \<Rightarrow>
          if x = DNaN \<or> y = DNaN \<or> isZero x \<or> isZero y then DNaN
          else signedInfinity (isNegative x \<noteq> isNegative y))"

definition decimalDividedBy :: "decimal \<Rightarrow> decimal \<Rightarrow> decimal" where
  "decimalDividedBy x y =
     (case (x, y) of
        (DFin a, DFin b) \<Rightarrow>
          if b = 0 then (if a = 0 then DNaN else signedInfinity (a < 0))
          else finalise (a / b)
      | (DFin a, _) \<Rightarrow> if y = DNaN then DNaN else DFin 0
      | (_, DFin b) \<Rightarrow> if x = DNaN then DNaN else signedInfinity (isNegative x \<noteq> (b < 0))
      | _ \<Rightarrow> DNaN)"

text \<open>\<open>x.cmp(y)\<close>: \<open>None\<close> is the answer \<open>NaN\<close>.\<close>

fun decimalCmp :: "decimal \<Rightarrow> decimal \<Rightarrow> int option" where
  "decimalCmp DNaN y = None"
| "decimalCmp x DNaN = None"
| "decimalCmp (DFin a) (DFin b) = Some (if a < b then - 1 else if a > b then 1 else 0)"
| "decimalCmp DPosInf DPosInf = Some 0"
| "decimalCmp DNegInf DNegInf = Some 0"
| "decimalCmp DPosInf y = Some 1"
| "decimalCmp DNegInf y = Some (- 1)"
| "decimalCmp x DPosInf = Some (- 1)"
| "decimalCmp x DNegInf = Some 1"

definition decimalEquals :: "decimal \<Rightarrow> decimal \<Rightarrow> bool" where
  "decimalEquals x y = (decimalCmp x y = Some 0)"

definition decimalGt :: "decimal \<Rightarrow> decimal \<Rightarrow> bool" where
  "decimalGt x y = (decimalCmp x y = Some 1)"

definition decimalGte :: "decimal \<Rightarrow> decimal \<Rightarrow> bool" where
  "decimalGte x y = (decimalCmp x y = Some 1 \<or> decimalCmp x y = Some 0)"

definition decimalLt :: "decimal \<Rightarrow> decimal \<Rightarrow> bool" where
  "decimalLt x y = (decimalCmp x y = Some (- 1))"

definition decimalLte :: "decimal \<Rightarrow> decimal \<Rightarrow> bool" where
  "decimalLte x y = (decimalCmp x y = Some (- 1) \<or> decimalCmp x y = Some 0)"

text \<open>
  \<open>Decimal.max(x, y)\<close> and \<open>Decimal.min(x, y)\<close> on two Decimals: \<open>NaN\<close> when either is,
  else the first argument unless the second is strictly beyond it.
\<close>

definition decimalMax :: "decimal \<Rightarrow> decimal \<Rightarrow> decimal" where
  "decimalMax x y = (if y = DNaN then DNaN else if decimalCmp x y = Some (- 1) then y else x)"

definition decimalMin :: "decimal \<Rightarrow> decimal \<Rightarrow> decimal" where
  "decimalMin x y = (if y = DNaN then DNaN else if decimalCmp x y = Some 1 then y else x)"

subsection \<open>The constructor on strings\<close>

text \<open>
  The library takes off one leading sign and then accepts: the decimal notation
  \<^verbatim>\<open>(\d+(\.\d*)?|\.\d+)(e[+-]?\d+)?\<close>; the words \<open>Infinity\<close> and \<open>NaN\<close>; the same
  notations with an underscore between two digits; and the prefixed binary, octal and
  hexadecimal notations with an optional binary exponent \<^verbatim>\<open>p[+-]?\d+\<close>. Every other
  string raises "Invalid argument", which is \<open>None\<close> here. For a prefixed notation the
  value here is the exact one (the library goes through a floating-point power of two
  for a binary exponent).
\<close>

definition parseMantissa :: "string \<Rightarrow> rat option" where
  "parseMantissa s =
     (let ip = takeWhile (\<lambda>c. c \<noteq> CHR ''.'') s;
          rest = dropWhile (\<lambda>c. c \<noteq> CHR ''.'') s
      in if \<not> list_all isDigit ip then None
         else if rest = [] then (if ip = [] then None else Some (of_int (digitsToInt ip)))
         else (let fp = tl rest
               in if \<not> list_all isDigit fp \<or> (ip = [] \<and> fp = []) then None
                  else Some (of_int (digitsToInt ip)
                             + of_int (digitsToInt fp) / 10 ^ length fp)))"

definition parseExponent :: "string \<Rightarrow> int option" where
  "parseExponent s =
     (let neg = (s \<noteq> [] \<and> hd s = CHR ''-'');
          ds = (if s \<noteq> [] \<and> (hd s = CHR ''-'' \<or> hd s = CHR ''+'') then tl s else s)
      in if ds = [] \<or> \<not> list_all isDigit ds then None
         else Some (if neg then - digitsToInt ds else digitsToInt ds))"

text \<open>
  \<open>parseDecimal\<close>: the value \<open>m * 10^e\<close>, an infinity or zero when its decimal exponent
  is out of range.
\<close>

definition scaleDecimal :: "rat \<Rightarrow> int \<Rightarrow> decimal" where
  "scaleDecimal m e =
     (if m = 0 then DFin 0
      else if exponent10 m + e > maxE then DPosInf
      else if exponent10 m + e < - maxE then DFin 0
      else DFin (m * pow10 e))"

definition parseDecimal :: "string \<Rightarrow> decimal option" where
  "parseDecimal s =
     (let isE = (\<lambda>c. c = CHR ''e'' \<or> c = CHR ''E'');
          ms = takeWhile (\<lambda>c. \<not> isE c) s;
          rest = dropWhile (\<lambda>c. \<not> isE c) s
      in case parseMantissa ms of
           None \<Rightarrow> None
         | Some m \<Rightarrow>
             (if rest = [] then Some (scaleDecimal m 0)
              else (case parseExponent (tl rest) of
                      None \<Rightarrow> None
                    | Some e \<Rightarrow> Some (scaleDecimal m e))))"

text \<open>\<open>str.replace(/(\d)_(?=\d)/g, '$1')\<close>\<close>

fun removeSeparators :: "string \<Rightarrow> string" where
  "removeSeparators (a # b # c # rest) =
     (if isDigit a \<and> b = CHR ''_'' \<and> isDigit c then a # removeSeparators (c # rest)
      else a # removeSeparators (b # c # rest))"
| "removeSeparators s = s"

definition baseDigit :: "char \<Rightarrow> nat option" where
  "baseDigit c =
     map_of (zip ''0123456789abcdefABCDEF''
               [0, 1, 2, 3, 4, 5, 6, 7, 8, 9, 10, 11, 12, 13, 14, 15, 10, 11, 12, 13, 14, 15]) c"

definition isBaseDigit :: "nat \<Rightarrow> char \<Rightarrow> bool" where
  "isBaseDigit base c = (case baseDigit c of None \<Rightarrow> False | Some d \<Rightarrow> d < base)"

definition baseDigitsToInt :: "nat \<Rightarrow> string \<Rightarrow> int" where
  "baseDigitsToInt base s =
     foldl (\<lambda>n c. int base * n + int (case baseDigit c of None \<Rightarrow> 0 | Some d \<Rightarrow> d)) 0 s"

definition parseBasedMantissa :: "nat \<Rightarrow> string \<Rightarrow> rat option" where
  "parseBasedMantissa base s =
     (let ip = takeWhile (\<lambda>c. c \<noteq> CHR ''.'') s;
          rest = dropWhile (\<lambda>c. c \<noteq> CHR ''.'') s
      in if \<not> list_all (isBaseDigit base) ip then None
         else if rest = [] then
           (if ip = [] then None else Some (of_int (baseDigitsToInt base ip)))
         else (let fp = tl rest
               in if \<not> list_all (isBaseDigit base) fp \<or> (ip = [] \<and> fp = []) then None
                  else Some (of_int (baseDigitsToInt base ip)
                             + of_int (baseDigitsToInt base fp) / of_nat base ^ length fp)))"

definition pow2 :: "int \<Rightarrow> rat" where
  "pow2 k = (if 0 \<le> k then 2 ^ nat k else 1 / 2 ^ nat (- k))"

definition basePrefix :: "string \<Rightarrow> nat option" where
  "basePrefix s =
     (if startsWith s ''0x'' \<or> startsWith s ''0X'' then Some 16
      else if startsWith s ''0b'' \<or> startsWith s ''0B'' then Some 2
      else if startsWith s ''0o'' \<or> startsWith s ''0O'' then Some 8
      else None)"

definition parseBased :: "string \<Rightarrow> decimal option" where
  "parseBased s =
     (case basePrefix s of
        None \<Rightarrow> None
      | Some base \<Rightarrow>
          (let isP = (\<lambda>c. c = CHR ''p'' \<or> c = CHR ''P'');
               body = drop 2 s;
               ms = takeWhile (\<lambda>c. \<not> isP c) body;
               rest = dropWhile (\<lambda>c. \<not> isP c) body
           in case parseBasedMantissa base ms of
                None \<Rightarrow> None
              | Some m \<Rightarrow>
                  (if rest = [] then Some (DFin m)
                   else (case parseExponent (tl rest) of
                           None \<Rightarrow> None
                         | Some p \<Rightarrow> Some (DFin (m * pow2 p))))))"

definition parseOther :: "string \<Rightarrow> decimal option" where
  "parseOther s =
     (if CHR ''_'' \<in> set s then
        (case parseDecimal (removeSeparators s) of
           Some d \<Rightarrow> Some d
         | None \<Rightarrow> parseBased (removeSeparators s))
      else if s = ''Infinity'' then Some DPosInf
      else if s = ''NaN'' then Some DNaN
      else parseBased s)"

definition decimalNegate :: "decimal \<Rightarrow> decimal" where
  "decimalNegate x =
     (case x of DNaN \<Rightarrow> DNaN | DPosInf \<Rightarrow> DNegInf | DNegInf \<Rightarrow> DPosInf | DFin a \<Rightarrow> DFin (- a))"

definition newDecimalFromString :: "string \<Rightarrow> decimal option" where
  "newDecimalFromString v =
     (let negative = (v \<noteq> [] \<and> hd v = CHR ''-'');
          str = (if v \<noteq> [] \<and> (hd v = CHR ''-'' \<or> hd v = CHR ''+'') then tl v else v);
          parsed = (case parseDecimal str of Some d \<Rightarrow> Some d | None \<Rightarrow> parseOther str)
      in if negative then map_option decimalNegate parsed else parsed)"

subsection \<open>toFixed\<close>

text \<open>
  \<open>x.toFixed(dp)\<close> under ROUND_HALF_UP: a finite value is rounded to \<open>dp\<close> decimal
  places, a tie going away from zero, and printed in plain notation with the sign of the
  unrounded value; the other values print as \<open>NaN\<close>, \<open>Infinity\<close> and \<open>-Infinity\<close>.
\<close>

definition padZeros :: "nat \<Rightarrow> string \<Rightarrow> string" where
  "padZeros n s = replicate (n - length s) (CHR ''0'') @ s"

definition toFixedRat :: "rat \<Rightarrow> nat \<Rightarrow> string" where
  "toFixedRat d dp =
     (let n = \<lfloor>\<bar>d\<bar> * 10 ^ dp + 1 / 2\<rfloor>;
          ip = n div 10 ^ dp;
          fp = n mod 10 ^ dp
      in (if d < 0 then ''-'' else '''') @ showInt ip
         @ (if dp = 0 then '''' else ''.'' @ padZeros dp (showInt fp)))"

definition toFixed :: "decimal \<Rightarrow> nat \<Rightarrow> string" where
  "toFixed x dp =
     (case x of
        DNaN \<Rightarrow> ''NaN''
      | DPosInf \<Rightarrow> ''Infinity''
      | DNegInf \<Rightarrow> ''-Infinity''
      | DFin d \<Rightarrow> toFixedRat d dp)"

text \<open>\<open>formatDecimal(decimalValue, precision)\<close>; every call site passes a Decimal.\<close>

definition formatDecimal :: "decimal \<Rightarrow> nat \<Rightarrow> string" where
  "formatDecimal decimalValue precision = toFixed decimalValue precision"

section \<open>Errors\<close>

text \<open>What \<open>runScheme\<close> throws: its own validation errors and the errors of the host.\<close>

datatype error =
    InvalidScheme
  | InvalidUploadedFiles
  | InvalidRunAsOfDate
  | InvalidRunAsOfDateFormat
  | InvalidEffectiveFrom
  | BaseMappingMissingFields
  | BaseDataNotFound
  | ReferenceError
  | TypeError
  | DecimalError

section \<open>JavaScript values\<close>

text \<open>
  The engine reads untyped rows. A value read from a row or from the uploaded files is a
  \<open>jsval\<close>. An object is an association list (the first binding of a key is the one a
  lookup sees). A number \<open>JNum r\<close> stands for the JavaScript number whose shortest
  decimal notation is \<open>r\<close>; the numbers \<open>NaN\<close> and \<open>Infinity\<close>, which no JSON or CSV text
  denotes, are not values of the model, and neither are functions (inherited methods).
  \<open>JDec d\<close> is a Decimal instance: the engine hands one to \<open>evaluateCondition\<close> in the
  agent-level check; rows hold none.
\<close>

datatype jsval =
    JUndefined
  | JNull
  | JBool bool
  | JNum rat
  | JStr string
  | JArr "jsval list"
  | JObj "(string \<times> jsval) list"
  | JDec decimal

fun truthy :: "jsval \<Rightarrow> bool" where
  "truthy JUndefined = False"
| "truthy JNull = False"
| "truthy (JBool b) = b"
| "truthy (JNum r) = (r \<noteq> 0)"
| "truthy (JStr s) = (s \<noteq> [])"
| "truthy (JArr xs) = True"
| "truthy (JObj kvs) = True"
| "truthy (JDec d) = True"

text \<open>
  \<open>String(v)\<close>. A number prints in plain notation when its decimal exponent is from -6
  to 20, else in exponent notation; a Decimal prints the same way.
\<close>

fun fracDigits :: "nat \<Rightarrow> rat \<Rightarrow> string" where
  "fracDigits 0 f = []"
| "fracDigits (Suc k) f =
     (if f = 0 then []
      else showDigit (nat \<lfloor>f * 10\<rfloor>) # fracDigits k (f * 10 - of_int \<lfloor>f * 10\<rfloor>))"

definition plainDigits :: "rat \<Rightarrow> string" where
  "plainDigits a =
     showInt \<lfloor>a\<rfloor>
     @ (if a - of_int \<lfloor>a\<rfloor> = 0 then '''' else ''.'' @ fracDigits 40 (a - of_int \<lfloor>a\<rfloor>))"

definition numToString :: "rat \<Rightarrow> string" where
  "numToString r =
     (if r = 0 then ''0''
      else (if r < 0 then ''-'' else '''')
           @ (if - 6 \<le> exponent10 r \<and> exponent10 r \<le> 20 then plainDigits \<bar>r\<bar>
              else plainDigits (\<bar>r\<bar> / pow10 (exponent10 r))
                   @ ''e'' @ (if exponent10 r < 0 then ''-'' else ''+'')
                   @ showInt \<bar>exponent10 r\<bar>))"

definition decimalToString :: "decimal \<Rightarrow> string" where
  "decimalToString x =
     (case x of
        DNaN \<Rightarrow> ''NaN''
      | DPosInf \<Rightarrow> ''Infinity''
      | DNegInf \<Rightarrow> ''-Infinity''
      | DFin d \<Rightarrow> numToString d)"

fun joinComma :: "string list \<Rightarrow> string" where
  "joinComma [] = []"
| "joinComma [s] = s"
| "joinComma (s # t # ss) = s @ '','' @ joinComma (t # ss)"

fun jsToString :: "jsval \<Rightarrow> string" where
  "jsToString JUndefined = ''undefined''"
| "jsToString JNull = ''null''"
| "jsToString (JBool b) = (if b then ''true'' else ''false'')"
| "jsToString (JNum r) = numToString r"
| "jsToString (JStr s) = s"
| "jsToString (JArr xs) =
     joinComma (map (\<lambda>x. if x = JUndefined \<or> x = JNull then [] else jsToString x) xs)"
| "jsToString (JObj kvs) = ''[object Object]''"
| "jsToString (JDec d) = decimalToString d"

subsection \<open>Property access and safeGet\<close>

text \<open>
  \<open>acc[key]\<close> on a value that is neither \<open>null\<close> nor \<open>undefined\<close>: the own data
  properties of objects, arrays and strings. Inherited members (methods) are functions
  and are read as \<open>undefined\<close> here, and so are the internal fields of a Decimal.
\<close>

definition isArrayIndex :: "string \<Rightarrow> bool" where
  "isArrayIndex s =
     (s \<noteq> [] \<and> list_all isDigit s \<and> (s = ''0'' \<or> hd s \<noteq> CHR ''0'')
      \<and> digitsToInt s \<le> 4294967294)"

fun jsGetProp :: "jsval \<Rightarrow> string \<Rightarrow> jsval" where
  "jsGetProp (JObj kvs) key = (case map_of kvs key of Some v \<Rightarrow> v | None \<Rightarrow> JUndefined)"
| "jsGetProp (JArr xs) key =
     (if isArrayIndex key \<and> parseDigits key < length xs then xs ! parseDigits key
      else if key = ''length'' then JNum (of_nat (length xs))
      else JUndefined)"
| "jsGetProp (JStr s) key =
     (if isArrayIndex key \<and> parseDigits key < length s then JStr [s ! parseDigits key]
      else if key = ''length'' then JNum (of_nat (length s))
      else JUndefined)"
| "jsGetProp v key = JUndefined"

text \<open>
  \<open>safeGet(obj, path, defaultValue)\<close>. The path is always a string at the call sites.
  After a missing key the reduction goes on from the default value.
\<close>

definition safeGet :: "jsval \<Rightarrow> string \<Rightarrow> jsval \<Rightarrow> jsval" where
  "safeGet obj path defaultValue =
     (if \<not> truthy obj then defaultValue
      else if path = [] then (if obj \<noteq> JUndefined then obj else defaultValue)
      else foldl (\<lambda>acc key. if truthy acc \<and> jsGetProp acc key \<noteq> JUndefined
                             then jsGetProp acc key else defaultValue)
             obj (splitDot path))"

text \<open>
  \<open>new Decimal(v)\<close>: a number as it is, a Decimal as it is, a string through the
  parser; every other value raises "Invalid argument", which is \<open>None\<close>.
\<close>

fun newDecimal :: "jsval \<Rightarrow> decimal option" where
  "newDecimal (JNum r) = Some (DFin r)"
| "newDecimal (JDec d) = Some d"
| "newDecimal (JStr s) = newDecimalFromString s"
| "newDecimal v = None"

section \<open>Dates\<close>

text \<open>
  \<open>parseDate\<close> accepts a string of the form \<^verbatim>\<open>dddd-dd-dd\<close> and hands it, with
  \<^verbatim>\<open>T00:00:00Z\<close> appended, to the host's \<open>Date\<close> constructor. The constructor is not part
  of the sources; \<open>mkUTCDate\<close> models the one of Node (V8): a month 1..12 and a day 1..31
  are accepted, and a day past the end of its month rolls over into the next month. A
  parsed date is kept as what \<open>getUTCFullYear\<close>, \<open>getUTCMonth\<close> (0-based) and
  \<open>getUTCDate\<close> return.
\<close>

record jsdate =
  utcFullYear :: nat
  utcMonth :: nat
  utcDate :: nat

definition isLeapYear :: "nat \<Rightarrow> bool" where
  "isLeapYear y = (y mod 4 = 0 \<and> (y mod 100 \<noteq> 0 \<or> y mod 400 = 0))"

definition daysInMonth :: "nat \<Rightarrow> nat \<Rightarrow> nat" where
  "daysInMonth y m =
     (if m = 2 then (if isLeapYear y then 29 else 28)
      else if m = 4 \<or> m = 6 \<or> m = 9 \<or> m = 11 then 30 else 31)"

definition mkUTCDate :: "nat \<Rightarrow> nat \<Rightarrow> nat \<Rightarrow> jsdate option" where
  "mkUTCDate y m d =
     (if m < 1 \<or> 12 < m \<or> d < 1 \<or> 31 < d then None
      else if daysInMonth y m < d
        then Some \<lparr>utcFullYear = y, utcMonth = m, utcDate = d - daysInMonth y m\<rparr>
        else Some \<lparr>utcFullYear = y, utcMonth = m - 1, utcDate = d\<rparr>)"

definition matchesYMD :: "string \<Rightarrow> bool" where
  "matchesYMD s =
     (length s = 10 \<and> list_all isDigit (take 4 s) \<and> s ! 4 = CHR ''-''
      \<and> list_all isDigit (take 2 (drop 5 s)) \<and> s ! 7 = CHR ''-''
      \<and> list_all isDigit (drop 8 s))"

fun parseDate :: "jsval \<Rightarrow> jsdate option" where
  "parseDate (JStr s) =
     (if s = [] then None
      else if \<not> matchesYMD s then None
      else mkUTCDate (parseDigits (take 4 s)) (parseDigits (take 2 (drop 5 s)))
             (parseDigits (drop 8 s)))"
| "parseDate v = None"

text \<open>
  \<open>compareDates\<close> on two valid dates (the model has no invalid \<open>Date\<close> object, so the
  \<open>NaN\<close> answer of the source does not arise).
\<close>

definition compareDates :: "jsdate \<Rightarrow> jsdate \<Rightarrow> int" where
  "compareDates date1 date2 =
     (if utcFullYear date1 < utcFullYear date2 then - 1
      else if utcFullYear date1 > utcFullYear date2 then 1
      else if utcMonth date1 < utcMonth date2 then - 1
      else if utcMonth date1 > utcMonth date2 then 1
      else if utcDate date1 < utcDate date2 then - 1
      else if utcDate date1 > utcDate date2 then 1
      else 0)"

section \<open>Condition evaluation\<close>

definition isEmptyVal :: "jsval \<Rightarrow> bool" where
  "isEmptyVal v = (v = JNull \<or> v = JUndefined \<or> v = JStr [])"

text \<open>
  \<open>evaluateCondition(recordValue, operator, ruleValue, dataType)\<close>. The \<open>try\<close> block
  catches the error of the Decimal constructor and answers \<open>false\<close>.
\<close>

definition evaluateCondition :: "jsval \<Rightarrow> string \<Rightarrow> jsval \<Rightarrow> string \<Rightarrow> bool" where
  "evaluateCondition recordValue operator ruleValue dataType =
     (if isEmptyVal recordValue then
        (if operator = ''='' \<and> isEmptyVal ruleValue then True else False)
      else if isEmptyVal ruleValue then
        (if operator = ''='' \<and> isEmptyVal recordValue then True
         else if operator = ''!='' \<and> \<not> isEmptyVal recordValue then True
         else False)
      else if dataType = ''Number'' then
        (case newDecimal recordValue of
           None \<Rightarrow> False
         | Some rv \<Rightarrow>
             (case newDecimal ruleValue of
                None \<Rightarrow> False
              | Some val \<Rightarrow>
                  (if operator = ''='' then decimalEquals rv val
                   else if operator = ''!='' then \<not> decimalEquals rv val
                   else if operator = ''>'' then decimalGt rv val
                   else if operator = ''>='' then decimalGte rv val
                   else if operator = ''<'' then decimalLt rv val
                   else if operator = ''<='' then decimalLte rv val
                   else False)))
      else if dataType = ''Date'' then
        (case parseDate (JStr (jsToString recordValue)) of
           None \<Rightarrow> False
         | Some rv \<Rightarrow>
             (case parseDate (JStr (jsToString ruleValue)) of
                None \<Rightarrow> False
              | Some val \<Rightarrow>
                  (let comparison = compareDates rv val
                   in if operator = ''='' then comparison = 0
                      else if operator = ''!='' then comparison \<noteq> 0
                      else if operator = ''>'' then comparison = 1
                      else if operator = ''>='' then comparison \<ge> 0
                      else if operator = ''<'' then comparison = - 1
                      else if operator = ''<='' then comparison \<le> 0
                      else False)))
      else
        (let rv = toLowerCase (trim (jsToString recordValue));
             val = toLowerCase (trim (jsToString ruleValue))
         in if operator = ''='' then rv = val
            else if operator = ''!='' then rv \<noteq> val
            else if operator = ''CONTAINS'' then includesStr rv val
            else if operator = ''STARTSWITH'' then startsWith rv val
            else if operator = ''ENDSWITH'' then endsWith rv val
            else if operator = ''NOT CONTAINS'' then \<not> includesStr rv val
            else False))"

section \<open>Tiered payout\<close>

text \<open>
  A payout tier of the scheme. The bounds and the rate are JSON numbers; an absent or
  \<open>null\<close> field is \<open>None\<close>. \<open>tier.from || 0\<close> and \<open>tier.rate || 0\<close> read an absent
  field as zero and \<open>tier.isPercentage !== false\<close> reads an absent flag as true.
\<close>

record tier =
  tier_from :: "rat option"
  tier_to :: "rat option"
  tier_rate :: "rat option"
  tier_isPercentage :: "bool option"

definition tierFrom :: "tier \<Rightarrow> rat" where
  "tierFrom t = (case tier_from t of None \<Rightarrow> 0 | Some r \<Rightarrow> r)"

definition tierRate :: "tier \<Rightarrow> rat" where
  "tierRate t = (case tier_rate t of None \<Rightarrow> 0 | Some r \<Rightarrow> r)"

text \<open>
  The \<open>for\<close> loop of \<open>calculateMarginalTieredPayout\<close> over the sorted tiers, with its
  two \<open>break\<close>s. The state is \<open>totalPayout\<close> and \<open>amountProcessed\<close>. For a tier without
  \<open>to\<close> the source takes \<open>Decimal.Infinity\<close> as the end of the tier. The library has no
  such property, so the end is \<open>undefined\<close>, and \<open>Decimal.min(undefined, amount)\<close>
  raises "Invalid argument" as soon as the loop gets to that line for the tier.
\<close>

fun tierLoop :: "decimal \<Rightarrow> tier list \<Rightarrow> decimal \<Rightarrow> decimal \<Rightarrow> error + decimal" where
  "tierLoop amount [] totalPayout amountProcessed = Inr totalPayout"
| "tierLoop amount (t # rest) totalPayout amountProcessed =
     (let isPercentage = (tier_isPercentage t \<noteq> Some False)
      in if decimalLte amount (DFin (tierFrom t)) \<or> decimalLte amount amountProcessed
         then Inr totalPayout
         else
           (let effectiveTierStart = decimalMax (DFin (tierFrom t)) amountProcessed
            in case tier_to t of
                 None \<Rightarrow> Inl DecimalError
               | Some tierTo \<Rightarrow>
                   (let effectiveTierEnd = decimalMin (DFin tierTo) amount;
                        amountInTier = decimalMinus effectiveTierEnd effectiveTierStart
                    in if decimalGt amountInTier (DFin 0) then
                         (let tierPayout =
                                (if isPercentage
                                 then decimalDividedBy
                                        (decimalTimes amountInTier (DFin (tierRate t)))
                                        (DFin 100)
                                 else decimalTimes amountInTier (DFin (tierRate t)))
                          in if decimalGte effectiveTierEnd amount
                             then Inr (decimalPlus totalPayout tierPayout)
                             else tierLoop amount rest (decimalPlus totalPayout tierPayout)
                                    effectiveTierEnd)
                       else if decimalGte amountProcessed amount then Inr totalPayout
                       else tierLoop amount rest totalPayout amountProcessed)))"

text \<open>
  \<open>Array.prototype.sort\<close> is stable; with the comparator of the source it is the stable
  sort by the key \<open>Number(from) || 0\<close>, which is \<open>tierFrom\<close> on numbers.
\<close>

definition calculateMarginalTieredPayout :: "decimal \<Rightarrow> tier list \<Rightarrow> error + decimal" where
  "calculateMarginalTieredPayout amount tiers =
     (if tiers = [] then Inr (DFin 0)
      else tierLoop amount (sort_key tierFrom tiers) (DFin 0) (DFin 0))"

text \<open>
  The contract of the spec, in its words: for each tier in ascending order of \<open>from\<close>,
  the slice from \<open>max(from, amountAlreadyProcessed)\<close> to \<open>min(to or infinity, amount)\<close>
  is credited at the tier's rate when it is positive, and \<open>amountAlreadyProcessed\<close>
  advances to the end of the slice. The arithmetic is the library's.
\<close>

definition tierEnd_spec :: "tier \<Rightarrow> decimal" where
  "tierEnd_spec t = (case tier_to t of None \<Rightarrow> DPosInf | Some e \<Rightarrow> DFin e)"

definition slicePayout_spec :: "tier \<Rightarrow> decimal \<Rightarrow> decimal" where
  "slicePayout_spec t slice =
     (if tier_isPercentage t = Some False then decimalTimes slice (DFin (tierRate t))
      else decimalDividedBy (decimalTimes slice (DFin (tierRate t))) (DFin 100))"

fun creditSlices :: "decimal \<Rightarrow> tier list \<Rightarrow> decimal \<Rightarrow> decimal \<Rightarrow> decimal" where
  "creditSlices amount [] totalPayout amountAlreadyProcessed = totalPayout"
| "creditSlices amount (t # ts) totalPayout amountAlreadyProcessed =
     (let effectiveStart = decimalMax (DFin (tierFrom t)) amountAlreadyProcessed;
          effectiveEnd = decimalMin (tierEnd_spec t) amount
      in if decimalGt (decimalMinus effectiveEnd effectiveStart) (DFin 0)
         then creditSlices amount ts
                (decimalPlus totalPayout
                   (slicePayout_spec t (decimalMinus effectiveEnd effectiveStart)))
                effectiveEnd
         else creditSlices amount ts totalPayout amountAlreadyProcessed)"

definition computeMarginalPayout_spec :: "decimal \<Rightarrow> tier list \<Rightarrow> decimal" where
  "computeMarginalPayout_spec amount tiers =
     creditSlices amount (sort_key tierFrom tiers) (DFin 0) (DFin 0)"

text \<open>
  The tier table of the spec's example, and the same table with a bound on its last tier.
\<close>

definition exampleTiers :: "tier list" where
  "exampleTiers =
     [\<lparr>tier_from = Some 0, tier_to = Some 25000, tier_rate = Some 3,
       tier_isPercentage = Some True\<rparr>,
      \<lparr>tier_from = Some 25000, tier_to = Some 125000, tier_rate = Some 7,
       tier_isPercentage = None\<rparr>,
      \<lparr>tier_from = Some 125000, tier_to = None, tier_rate = Some 10,
       tier_isPercentage = Some True\<rparr>]"

definition boundedExampleTiers :: "tier list" where
  "boundedExampleTiers =
     [\<lparr>tier_from = Some 0, tier_to = Some 25000, tier_rate = Some 3,
       tier_isPercentage = Some True\<rparr>,
      \<lparr>tier_from = Some 25000, tier_to = Some 125000, tier_rate = Some 7,
       tier_isPercentage = None\<rparr>,
      \<lparr>tier_from = Some 125000, tier_to = Some 1000000000, tier_rate = Some 10,
       tier_isPercentage = Some True\<rparr>]"

section \<open>Hierarchy lookup\<close>

text \<open>
  \<open>findManager(agentId, level, hierarchyData, schemeEffectiveFrom, runAsDate)\<close>. The agent
  id and the level are strings (the empty string is falsy), the hierarchy data is an
  array (always truthy) and a date argument is \<open>None\<close> when it is \<open>null\<close>.
\<close>

fun findManagerLoop :: "string \<Rightarrow> string \<Rightarrow> jsval list \<Rightarrow> jsdate \<Rightarrow> jsdate \<Rightarrow> string option" where
  "findManagerLoop targetAgentId targetLevelUpper [] schemeEffectiveFrom runAsDate = None"
| "findManagerLoop targetAgentId targetLevelUpper (row # rows) schemeEffectiveFrom runAsDate =
     (let rowAgentId = trim (jsToString (safeGet row ''AgentID'' (JStr '''')));
          rowLevel = toUpperCase (trim (jsToString (safeGet row ''Level'' (JStr ''''))))
      in if rowAgentId = targetAgentId \<and> rowLevel = targetLevelUpper then
           (case parseDate (safeGet row ''ReportsFrom'' JUndefined) of
              None \<Rightarrow>
                findManagerLoop targetAgentId targetLevelUpper rows schemeEffectiveFrom runAsDate
            | Some reportsFrom \<Rightarrow>
                (case parseDate (safeGet row ''ReportsToEnd'' JUndefined) of
                   None \<Rightarrow>
                     findManagerLoop targetAgentId targetLevelUpper rows schemeEffectiveFrom
                       runAsDate
                 | Some reportsToEnd \<Rightarrow>
                     (if compareDates reportsFrom runAsDate \<le> 0
                         \<and> compareDates reportsToEnd schemeEffectiveFrom \<ge> 0
                      then (let managerId = safeGet row ''ManagerID'' JNull
                            in if managerId \<noteq> JNull \<and> trim (jsToString managerId) \<noteq> ''''
                               then Some (trim (jsToString managerId))
                               else findManagerLoop targetAgentId targetLevelUpper rows
                                      schemeEffectiveFrom runAsDate)
                      else findManagerLoop targetAgentId targetLevelUpper rows
                             schemeEffectiveFrom runAsDate)))
         else findManagerLoop targetAgentId targetLevelUpper rows schemeEffectiveFrom runAsDate)"

definition findManager ::
  "string \<Rightarrow> string \<Rightarrow> jsval list \<Rightarrow> jsdate option \<Rightarrow> jsdate option \<Rightarrow> string option" where
  "findManager agentId level hierarchyData schemeEffectiveFrom runAsDate =
     (if agentId = '''' \<or> level = '''' then None
      else (case schemeEffectiveFrom of
              None \<Rightarrow> None
            | Some schemeStart \<Rightarrow>
                (case runAsDate of
                   None \<Rightarrow> None
                 | Some runDate \<Rightarrow>
                     findManagerLoop agentId (toUpperCase level) hierarchyData schemeStart
                       runDate)))"

text \<open>
  The words of the contract: a date is on or before another when its (year, month, day)
  is; a hierarchy row matches an agent and a role; its validity window overlaps the run
  window; it names a manager.
\<close>

definition dateLe :: "jsdate \<Rightarrow> jsdate \<Rightarrow> bool" where
  "dateLe a b =
     (utcFullYear a < utcFullYear b
      \<or> (utcFullYear a = utcFullYear b
          \<and> (utcMonth a < utcMonth b \<or> (utcMonth a = utcMonth b \<and> utcDate a \<le> utcDate b))))"

definition rowMatches :: "string \<Rightarrow> string \<Rightarrow> jsval \<Rightarrow> bool" where
  "rowMatches agentId role row =
     (trim (jsToString (safeGet row ''AgentID'' (JStr ''''))) = agentId
      \<and> toUpperCase (trim (jsToString (safeGet row ''Level'' (JStr '''')))) = toUpperCase role)"

definition windowOverlaps :: "jsdate \<Rightarrow> jsdate \<Rightarrow> jsval \<Rightarrow> bool" where
  "windowOverlaps schemeStart runAsOf row =
     (case parseDate (safeGet row ''ReportsFrom'' JUndefined) of
        None \<Rightarrow> False
      | Some reportsFrom \<Rightarrow>
          (case parseDate (safeGet row ''ReportsToEnd'' JUndefined) of
             None \<Rightarrow> False
           | Some reportsToEnd \<Rightarrow> dateLe reportsFrom runAsOf \<and> dateLe schemeStart reportsToEnd))"

definition rowManager :: "jsval \<Rightarrow> string option" where
  "rowManager row =
     (let managerId = safeGet row ''ManagerID'' JNull
      in if managerId = JNull \<or> trim (jsToString managerId) = '''' then None
         else Some (trim (jsToString managerId)))"

definition validCandidate :: "string \<Rightarrow> string \<Rightarrow> jsdate \<Rightarrow> jsdate \<Rightarrow> jsval \<Rightarrow> bool" where
  "validCandidate agentId role schemeStart runAsOf row =
     (rowMatches agentId role row \<and> windowOverlaps schemeStart runAsOf row
      \<and> rowManager row \<noteq> None)"

definition hierarchyRow :: "string \<Rightarrow> string \<Rightarrow> string \<Rightarrow> string \<Rightarrow> string \<Rightarrow> jsval" where
  "hierarchyRow agentId level managerId reportsFrom reportsToEnd =
     JObj [(''AgentID'', JStr agentId), (''Level'', JStr level), (''ManagerID'', JStr managerId),
           (''ReportsFrom'', JStr reportsFrom), (''ReportsToEnd'', JStr reportsToEnd)]"

text \<open>The run window and the hierarchy rows of the example in the source file.\<close>

definition exSchemeStart :: jsdate where
  "exSchemeStart = \<lparr>utcFullYear = 2024, utcMonth = 11, utcDate = 1\<rparr>"

definition exRunDate :: jsdate where
  "exRunDate = \<lparr>utcFullYear = 2024, utcMonth = 11, utcDate = 31\<rparr>"

definition exRowA :: jsval where
  "exRowA = hierarchyRow ''101'' ''L1'' ''MGR_A'' ''2024-01-01'' ''2024-12-31''"

definition exRowOld :: jsval where
  "exRowOld = hierarchyRow ''101'' ''L1'' ''MGR_OLD'' ''2023-01-01'' ''2023-12-31''"

definition exRowNoManager :: jsval where
  "exRowNoManager = hierarchyRow ''101'' ''L1'' '''' ''2024-01-01'' ''2024-12-31''"

definition exRowNoAgent :: jsval where
  "exRowNoAgent = hierarchyRow '''' ''L1'' ''MGR_A'' ''2024-01-01'' ''2024-12-31''"

section \<open>Scheme definition\<close>

text \<open>
  The scheme is structured configuration. A string field that is absent is the empty
  string (both are falsy, and neither equals a non-empty string); a list that is absent
  is the empty list (the source reads \<open>scheme.rules || []\<close>); a number that is absent is
  \<open>None\<close>. \<open>payoutTiers\<close> is \<open>None\<close> when absent, since the run assigns it. Rule values are
  compared with row values and stay untyped.
\<close>

record schemeRule =
  rule_id :: string
  rule_field :: string
  rule_operator :: string
  rule_value :: jsval

record condition =
  cond_field :: string
  cond_operator :: string
  cond_value :: jsval

record adjustment =
  adj_target :: string
  adj_type :: string
  adj_value :: "rat option"

record adjustmentRule =
  arule_id :: string
  arule_condition :: condition
  arule_adjustment :: adjustment

record creditSplit =
  split_id :: string
  split_role :: string
  split_percentage :: "rat option"

record kpiField =
  kpi_name :: string
  kpi_sourceField :: string
  kpi_dataType :: string
  kpi_evaluationLevel :: string
  kpi_aggregation :: string
  kpi_sourceFile :: string

record kpiConfig =
  kpi_baseData :: "kpiField list"
  kpi_qualificationFields :: "kpiField list"
  kpi_adjustmentFields :: "kpiField list"
  kpi_exclusionFields :: "kpiField list"
  kpi_creditFields :: "kpiField list"

record baseMapping =
  bm_sourceFile :: string
  bm_agentField :: string
  bm_amountField :: string
  bm_transactionDateField :: string

record schemeDefinition =
  scheme_name :: string
  effectiveFrom :: jsval
  baseMapping :: "baseMapping option"
  qualificationRules :: "schemeRule list"
  exclusionRules :: "schemeRule list"
  adjustmentRules :: "adjustmentRule list"
  customRules :: "jsval list"
  creditSplits :: "creditSplit list"
  creditHierarchyFile :: string
  payoutTiers :: "tier list option"
  kpiConfig :: kpiConfig

section \<open>Field map\<close>

record fieldInfo =
  fi_sourceField :: string
  fi_dataType :: string
  fi_evaluationLevel :: string
  fi_aggregation :: string
  fi_sourceFile :: string

definition orDefault :: "string \<Rightarrow> string \<Rightarrow> string" where
  "orDefault s d = (if s = '''' then d else s)"

definition addKpiField :: "(string \<rightharpoonup> fieldInfo) \<Rightarrow> kpiField \<Rightarrow> (string \<rightharpoonup> fieldInfo)" where
  "addKpiField fieldMap f =
     (if kpi_name f \<noteq> '''' \<and> kpi_sourceField f \<noteq> '''' then
        fieldMap(kpi_name f \<mapsto>
          \<lparr>fi_sourceField = kpi_sourceField f,
           fi_dataType = orDefault (kpi_dataType f) ''String'',
           fi_evaluationLevel = orDefault (kpi_evaluationLevel f) ''Per Record'',
           fi_aggregation = orDefault (kpi_aggregation f) ''NotApplicable'',
           fi_sourceFile = kpi_sourceFile f\<rparr>)
      else fieldMap)"

definition allKpiFields :: "kpiConfig \<Rightarrow> kpiField list" where
  "allKpiFields k =
     kpi_baseData k @ kpi_qualificationFields k @ kpi_adjustmentFields k
     @ kpi_exclusionFields k @ kpi_creditFields k"

definition defaultField :: "string \<Rightarrow> string \<Rightarrow> string \<Rightarrow> fieldInfo" where
  "defaultField sourceField dataType baseDataFile =
     \<lparr>fi_sourceField = sourceField, fi_dataType = dataType,
      fi_evaluationLevel = ''Per Record'', fi_aggregation = '''',
      fi_sourceFile = baseDataFile\<rparr>"

definition withDefault :: "string \<Rightarrow> fieldInfo \<Rightarrow> (string \<rightharpoonup> fieldInfo) \<Rightarrow> (string \<rightharpoonup> fieldInfo)" where
  "withDefault name info fieldMap =
     (if fieldMap name = None then fieldMap(name \<mapsto> info) else fieldMap)"

definition buildFieldMap :: "schemeDefinition \<Rightarrow> baseMapping \<Rightarrow> (string \<rightharpoonup> fieldInfo)" where
  "buildFieldMap scheme bm =
     withDefault ''TransactionDate''
       (defaultField (bm_transactionDateField bm) ''Date'' (bm_sourceFile bm))
       (withDefault ''Amount'' (defaultField (bm_amountField bm) ''Number'' (bm_sourceFile bm))
          (withDefault ''Agent'' (defaultField (bm_agentField bm) ''String'' (bm_sourceFile bm))
             (foldl addKpiField Map.empty (allKpiFields (kpiConfig scheme)))))"

section \<open>The run\<close>

text \<open>The constants that the body of \<open>runScheme\<close> closes over once validation is done.\<close>

record env =
  env_scheme :: schemeDefinition
  env_fieldMap :: "string \<rightharpoonup> fieldInfo"
  env_baseDataFile :: string
  env_agentIdField :: string
  env_amountField :: string
  env_transactionDateField :: string
  env_hierarchyData :: jsval
  env_schemeStart :: jsdate
  env_runDate :: jsdate

datatype ruleType = Exclusion | Adjustment | Qualification | CreditSplit

text \<open>
  A rule log entry. The message text, the timestamp and the details are presentation and
  are left out, but for the manager a successful split names in its details.
\<close>

record ruleLogEntry =
  log_ruleType :: ruleType
  log_ruleId :: string
  log_recordId :: jsval
  log_agentId :: string
  log_managerId :: "string option"

text \<open>
  \<open>_processingStatus\<close>. In place of the text of \<open>exclusionReason\<close> and
  \<open>adjustmentApplied\<close> the status holds the id of the rule the text names.
\<close>

record processingStatus =
  ps_originalAmount :: string
  ps_rateMultiplier :: string
  ps_adjustedAmount :: string
  ps_isExcluded :: bool
  ps_exclusionReason :: "string option"
  ps_adjustmentApplied :: "string option"
  ps_customRuleApplied :: bool

record processedRecord =
  pr_record :: jsval
  pr_status :: processingStatus

record creditDistributionEntry =
  cd_fromAgent :: string
  cd_role :: string
  cd_amount :: string
  cd_splitRuleId :: string
  cd_basePayoutFromAgent :: string
  cd_percentageApplied :: string

record runResult =
  agentPayouts :: "string \<rightharpoonup> string"
  ruleHitLogs :: "string \<rightharpoonup> ruleLogEntry list"
  creditDistributions :: "string \<rightharpoonup> creditDistributionEntry list"
  rawRecordLevelData :: "processedRecord list"

subsection \<open>Record selection\<close>

text \<open>\<open>{...record, _originalIndex: index, _recordId: `${baseDataFile}-${index}`}\<close>\<close>

fun spreadProps :: "jsval \<Rightarrow> (string \<times> jsval) list" where
  "spreadProps (JObj kvs) = kvs"
| "spreadProps (JArr xs) = zip (map showNat [0 ..< length xs]) xs"
| "spreadProps (JStr s) = zip (map showNat [0 ..< length s]) (map (\<lambda>c. JStr [c]) s)"
| "spreadProps v = []"

fun objSet :: "(string \<times> jsval) list \<Rightarrow> string \<Rightarrow> jsval \<Rightarrow> (string \<times> jsval) list" where
  "objSet [] k v = [(k, v)]"
| "objSet ((k', v') # kvs) k v = (if k' = k then (k, v) # kvs else (k', v') # objSet kvs k v)"

definition recordIdOf :: "string \<Rightarrow> nat \<Rightarrow> string" where
  "recordIdOf baseDataFile index = baseDataFile @ ''-'' @ showNat index"

definition augmentRecord :: "string \<Rightarrow> nat \<Rightarrow> jsval \<Rightarrow> jsval" where
  "augmentRecord baseDataFile index record =
     JObj (objSet (objSet (spreadProps record) ''_originalIndex'' (JNum (of_nat index)))
             ''_recordId'' (JStr (recordIdOf baseDataFile index)))"

definition indexedRecords :: "string \<Rightarrow> jsval list \<Rightarrow> jsval list" where
  "indexedRecords baseDataFile baseData =
     map (\<lambda>(index, record). augmentRecord baseDataFile index record) (enumerate 0 baseData)"

definition inDateRange :: "env \<Rightarrow> jsval \<Rightarrow> bool" where
  "inDateRange e record =
     (let recordDateStr = safeGet record (env_transactionDateField e) JUndefined
      in if recordDateStr = JUndefined \<or> recordDateStr = JNull \<or> recordDateStr = JStr ''''
         then False
         else (case parseDate (JStr (jsToString recordDateStr)) of
                 None \<Rightarrow> False
               | Some recordDate \<Rightarrow>
                   compareDates recordDate (env_schemeStart e) \<ge> 0
                   \<and> compareDates recordDate (env_runDate e) \<le> 0))"

definition dateFilteredRecords :: "env \<Rightarrow> jsval list \<Rightarrow> jsval list" where
  "dateFilteredRecords e baseData =
     filter (inDateRange e) (indexedRecords (env_baseDataFile e) baseData)"

definition isRecordLevelRule :: "env \<Rightarrow> schemeRule \<Rightarrow> bool" where
  "isRecordLevelRule e rule =
     (case env_fieldMap e (rule_field rule) of
        None \<Rightarrow> False
      | Some fieldInfo \<Rightarrow>
          fi_evaluationLevel fieldInfo = ''Per Record''
          \<and> fi_sourceFile fieldInfo = env_baseDataFile e)"

definition recordLevelQualRules :: "env \<Rightarrow> schemeRule list" where
  "recordLevelQualRules e = filter (isRecordLevelRule e) (qualificationRules (env_scheme e))"

text \<open>
  The loop inside the second filter. A rule whose field is not in the map cannot reach
  the loop (the rules were filtered on it); the model passes over it.
\<close>

fun passesRules :: "env \<Rightarrow> schemeRule list \<Rightarrow> jsval \<Rightarrow> bool" where
  "passesRules e [] record = True"
| "passesRules e (rule # rules) record =
     (case env_fieldMap e (rule_field rule) of
        None \<Rightarrow> passesRules e rules record
      | Some fieldInfo \<Rightarrow>
          if fi_sourceField fieldInfo = '''' then passesRules e rules record
          else if \<not> evaluateCondition (safeGet record (fi_sourceField fieldInfo) JUndefined)
                     (rule_operator rule) (rule_value rule) (fi_dataType fieldInfo)
               then False
               else passesRules e rules record)"

definition qualifiedRecords :: "env \<Rightarrow> jsval list \<Rightarrow> jsval list" where
  "qualifiedRecords e baseData =
     filter (passesRules e (recordLevelQualRules e)) (dateFilteredRecords e baseData)"

subsection \<open>Grouping by agent\<close>

text \<open>
  The accumulator of the \<open>reduce\<close> is a plain object: a key that names a member of
  \<open>Object.prototype\<close> finds that member instead of a list, and \<open>push\<close> on it raises a
  \<open>TypeError\<close>. The warning for a missing agent reads the variable \<open>_recordId\<close>, which
  is not declared in that scope: evaluating it raises a \<open>ReferenceError\<close>.
\<close>

definition objectPrototypeMembers :: "string list" where
  "objectPrototypeMembers =
     [''constructor'', ''__defineGetter__'', ''__defineSetter__'', ''hasOwnProperty'',
      ''__lookupGetter__'', ''__lookupSetter__'', ''isPrototypeOf'',
      ''propertyIsEnumerable'', ''toString'', ''valueOf'', ''__proto__'',
      ''toLocaleString'']"

fun pushRecord :: "(string \<times> jsval list) list \<Rightarrow> string \<Rightarrow> jsval \<Rightarrow> (string \<times> jsval list) list" where
  "pushRecord [] agentId record = [(agentId, [record])]"
| "pushRecord ((k, rs) # acc) agentId record =
     (if k = agentId then (k, rs @ [record]) # acc else (k, rs) # pushRecord acc agentId record)"

definition recordAgentId :: "env \<Rightarrow> jsval \<Rightarrow> string" where
  "recordAgentId e record =
     trim (jsToString (safeGet record (env_agentIdField e) (JStr ''UNKNOWN_AGENT'')))"

fun groupByAgent ::
  "env \<Rightarrow> jsval list \<Rightarrow> (string \<times> jsval list) list \<Rightarrow> error + (string \<times> jsval list) list" where
  "groupByAgent e [] acc = Inr acc"
| "groupByAgent e (record # records) acc =
     (let agentId = recordAgentId e record
      in if agentId = ''UNKNOWN_AGENT'' \<or> agentId = '''' then Inl ReferenceError
         else if agentId \<in> set objectPrototypeMembers then Inl TypeError
         else groupByAgent e records (pushRecord acc agentId record))"

text \<open>
  \<open>for (const agentId in recordsByAgent)\<close>: the keys that are array indices in ascending
  numeric order, then the other keys in insertion order.
\<close>

definition forInKeys :: "(string \<times> 'a) list \<Rightarrow> string list" where
  "forInKeys obj =
     sort_key digitsToInt (filter isArrayIndex (map fst obj))
     @ filter (\<lambda>k. \<not> isArrayIndex k) (map fst obj)"

subsection \<open>Record processing: exclusion and adjustment\<close>

text \<open>
  The exclusion loop: the rule that excluded the record, if any. A rule whose field is
  not mapped, or is mapped to another file, is passed over.
\<close>

fun applyExclusionRules :: "env \<Rightarrow> schemeRule list \<Rightarrow> jsval \<Rightarrow> schemeRule option" where
  "applyExclusionRules e [] record = None"
| "applyExclusionRules e (rule # rules) record =
     (case env_fieldMap e (rule_field rule) of
        None \<Rightarrow> applyExclusionRules e rules record
      | Some fieldInfo \<Rightarrow>
          if fi_sourceFile fieldInfo \<noteq> env_baseDataFile e
          then applyExclusionRules e rules record
          else if evaluateCondition (safeGet record (fi_sourceField fieldInfo) JUndefined)
                    (rule_operator rule) (rule_value rule) (fi_dataType fieldInfo)
               then Some rule
               else applyExclusionRules e rules record)"

record adjState =
  as_currentAmount :: decimal
  as_rateMultiplier :: decimal
  as_adjustmentApplied :: "string option"
  as_logs :: "ruleLogEntry list"

definition adjValue :: "adjustment \<Rightarrow> decimal" where
  "adjValue adj = DFin (case adj_value adj of None \<Rightarrow> 0 | Some v \<Rightarrow> v)"

text \<open>The body of the adjustment loop once the condition of the rule is met.\<close>

definition applyAdjustment :: "string \<Rightarrow> jsval \<Rightarrow> adjustmentRule \<Rightarrow> adjState \<Rightarrow> adjState" where
  "applyAdjustment agentId record rule st =
     (let adj = arule_adjustment rule;
          adjTarget = adj_target adj;
          adjType = adj_type adj;
          logEntry = \<lparr>log_ruleType = Adjustment, log_ruleId = arule_id rule,
                      log_recordId = jsGetProp record ''_recordId'', log_agentId = agentId,
                      log_managerId = None\<rparr>;
          st1 = st\<lparr>as_adjustmentApplied := Some (arule_id rule)\<rparr>;
          st2 =
            (if adjTarget = ''Rate'' \<and> adjType = ''percentage'' then
               st1\<lparr>as_rateMultiplier :=
                     decimalTimes (as_rateMultiplier st1)
                       (decimalDividedBy (adjValue adj) (DFin 100))\<rparr>
             else if adjTarget = ''Amount'' \<and> adjType = ''percentage'' then
               st1\<lparr>as_currentAmount :=
                     decimalPlus (as_currentAmount st1)
                       (decimalDividedBy (decimalTimes (as_currentAmount st1) (adjValue adj))
                          (DFin 100))\<rparr>
             else if adjTarget = ''Amount'' \<and> adjType = ''fixed'' then
               st1\<lparr>as_currentAmount := decimalPlus (as_currentAmount st1) (adjValue adj)\<rparr>
             else st1)
      in st2\<lparr>as_logs := as_logs st2 @ [logEntry]\<rparr>)"

fun applyAdjustmentRules ::
  "env \<Rightarrow> string \<Rightarrow> adjustmentRule list \<Rightarrow> jsval \<Rightarrow> adjState \<Rightarrow> adjState" where
  "applyAdjustmentRules e agentId [] record st = st"
| "applyAdjustmentRules e agentId (rule # rules) record st =
     (case env_fieldMap e (cond_field (arule_condition rule)) of
        None \<Rightarrow> applyAdjustmentRules e agentId rules record st
      | Some conditionFieldInfo \<Rightarrow>
          if fi_sourceFile conditionFieldInfo \<noteq> env_baseDataFile e
          then applyAdjustmentRules e agentId rules record st
          else if evaluateCondition
                    (safeGet record (fi_sourceField conditionFieldInfo) JUndefined)
                    (cond_operator (arule_condition rule)) (cond_value (arule_condition rule))
                    (fi_dataType conditionFieldInfo)
               then applyAdjustmentRules e agentId rules record
                      (applyAdjustment agentId record rule st)
               else applyAdjustmentRules e agentId rules record st)"

text \<open>
  The callback of \<open>agentRecords.map\<close>. It appends to the agent's rule logs and to
  \<open>rawRecordLevelData\<close> and adds to the agent's total; \<open>processRecord\<close> gives what one
  record contributes and \<open>recordStep\<close> applies it to the state of the agent. The
  Decimal constructor on the amount of the record is outside any \<open>try\<close>.
\<close>

record recordOutcome =
  ro_processed :: processedRecord
  ro_logs :: "ruleLogEntry list"
  ro_isExcluded :: bool
  ro_adjustedAmount :: decimal

definition processRecord :: "env \<Rightarrow> string \<Rightarrow> jsval \<Rightarrow> error + recordOutcome" where
  "processRecord e agentId record =
     (case newDecimal (safeGet record (env_amountField e) (JNum 0)) of
        None \<Rightarrow> Inl DecimalError
      | Some originalAmount \<Rightarrow>
          (let excludedBy = applyExclusionRules e (exclusionRules (env_scheme e)) record;
               isExcluded = (excludedBy \<noteq> None);
               exclusionLogs =
                 (case excludedBy of
                    None \<Rightarrow> []
                  | Some rule \<Rightarrow>
                      [\<lparr>log_ruleType = Exclusion, log_ruleId = rule_id rule,
                        log_recordId = jsGetProp record ''_recordId'', log_agentId = agentId,
                        log_managerId = None\<rparr>]);
               st0 = \<lparr>as_currentAmount = originalAmount, as_rateMultiplier = DFin 1,
                      as_adjustmentApplied = None, as_logs = exclusionLogs\<rparr>;
               st = (if \<not> isExcluded
                     then applyAdjustmentRules e agentId (adjustmentRules (env_scheme e))
                            record st0
                     else st0);
               customRuleApplied = (\<not> isExcluded \<and> customRules (env_scheme e) \<noteq> []);
               adjustedAmount =
                 (if isExcluded then DFin 0
                  else decimalTimes (as_currentAmount st) (as_rateMultiplier st))
           in Inr \<lparr>ro_processed =
                     \<lparr>pr_record = record,
                      pr_status =
                        \<lparr>ps_originalAmount = formatDecimal originalAmount 2,
                         ps_rateMultiplier = formatDecimal (as_rateMultiplier st) 4,
                         ps_adjustedAmount = formatDecimal adjustedAmount 2,
                         ps_isExcluded = isExcluded,
                         ps_exclusionReason = map_option rule_id excludedBy,
                         ps_adjustmentApplied = as_adjustmentApplied st,
                         ps_customRuleApplied = customRuleApplied\<rparr>\<rparr>,
                   ro_logs = as_logs st,
                   ro_isExcluded = isExcluded,
                   ro_adjustedAmount = adjustedAmount\<rparr>))"

record agentState =
  ag_totalCreditedAmount :: decimal
  ag_ruleLogs :: "ruleLogEntry list"
  ag_rawRecordLevelData :: "processedRecord list"

definition recordStep :: "recordOutcome \<Rightarrow> agentState \<Rightarrow> agentState" where
  "recordStep out st =
     \<lparr>ag_totalCreditedAmount =
        (if \<not> ro_isExcluded out
         then decimalPlus (ag_totalCreditedAmount st) (ro_adjustedAmount out)
         else ag_totalCreditedAmount st),
      ag_ruleLogs = ag_ruleLogs st @ ro_logs out,
      ag_rawRecordLevelData = ag_rawRecordLevelData st @ [ro_processed out]\<rparr>"

fun processRecords :: "env \<Rightarrow> string \<Rightarrow> jsval list \<Rightarrow> agentState \<Rightarrow> error + agentState" where
  "processRecords e agentId [] st = Inr st"
| "processRecords e agentId (record # records) st =
     (case processRecord e agentId record of
        Inl err \<Rightarrow> Inl err
      | Inr out \<Rightarrow> processRecords e agentId records (recordStep out st))"

subsection \<open>Agent qualification\<close>

definition isAgentLevelRule :: "env \<Rightarrow> schemeRule \<Rightarrow> bool" where
  "isAgentLevelRule e rule =
     (case env_fieldMap e (rule_field rule) of
        None \<Rightarrow> False
      | Some fieldInfo \<Rightarrow> fi_evaluationLevel fieldInfo = ''Agent'')"

definition agentLevelQualRules :: "env \<Rightarrow> schemeRule list" where
  "agentLevelQualRules e = filter (isAgentLevelRule e) (qualificationRules (env_scheme e))"

text \<open>
  The loop over the agent-level rules: the log entry of the first rule that fails, if
  any. The total is a Decimal; it passes the null checks of \<open>evaluateCondition\<close> and the
  Decimal constructor returns it, as for a number.
\<close>

fun checkAgentRules ::
  "env \<Rightarrow> string \<Rightarrow> decimal \<Rightarrow> schemeRule list \<Rightarrow> ruleLogEntry option" where
  "checkAgentRules e agentId totalAmount [] = None"
| "checkAgentRules e agentId totalAmount (rule # rules) =
     (case env_fieldMap e (rule_field rule) of
        None \<Rightarrow> checkAgentRules e agentId totalAmount rules
      | Some fieldInfo \<Rightarrow>
          if fi_sourceField fieldInfo = env_amountField e \<and> fi_aggregation fieldInfo = ''Sum''
          then (if \<not> evaluateCondition (JDec totalAmount) (rule_operator rule)
                       (rule_value rule) ''Number''
                then Some \<lparr>log_ruleType = Qualification, log_ruleId = rule_id rule,
                           log_recordId = JUndefined, log_agentId = agentId,
                           log_managerId = None\<rparr>
                else checkAgentRules e agentId totalAmount rules)
          else checkAgentRules e agentId totalAmount rules)"

definition failedQualification :: "env \<Rightarrow> string \<Rightarrow> decimal \<Rightarrow> ruleLogEntry option" where
  "failedQualification e agentId totalAmount =
     checkAgentRules e agentId totalAmount (agentLevelQualRules e)"

definition agentQualified :: "env \<Rightarrow> string \<Rightarrow> decimal \<Rightarrow> bool" where
  "agentQualified e agentId totalAmount =
     (if decimalLte totalAmount (DFin 0) then False
      else failedQualification e agentId totalAmount = None)"

definition qualificationLogs :: "env \<Rightarrow> string \<Rightarrow> decimal \<Rightarrow> ruleLogEntry list" where
  "qualificationLogs e agentId totalAmount =
     (if decimalLte totalAmount (DFin 0) then []
      else (case failedQualification e agentId totalAmount of
              None \<Rightarrow> []
            | Some entry \<Rightarrow> [entry]))"

subsection \<open>Credit splits\<close>

record splitState =
  ss_creditDistributions :: "string \<rightharpoonup> creditDistributionEntry list"
  ss_logs :: "ruleLogEntry list"

definition splitPercentage :: "creditSplit \<Rightarrow> decimal" where
  "splitPercentage split = DFin (case split_percentage split of None \<Rightarrow> 0 | Some p \<Rightarrow> p)"

definition pushDistribution ::
  "(string \<rightharpoonup> creditDistributionEntry list) \<Rightarrow> string \<Rightarrow> creditDistributionEntry
     \<Rightarrow> (string \<rightharpoonup> creditDistributionEntry list)" where
  "pushDistribution m managerId entry =
     m(managerId \<mapsto> (case m managerId of None \<Rightarrow> [] | Some entries \<Rightarrow> entries) @ [entry])"

fun applyCreditSplits ::
  "env \<Rightarrow> string \<Rightarrow> decimal \<Rightarrow> jsval list \<Rightarrow> creditSplit list \<Rightarrow> splitState
     \<Rightarrow> error + splitState" where
  "applyCreditSplits e agentId basePayout hierarchyRows [] st = Inr st"
| "applyCreditSplits e agentId basePayout hierarchyRows (split # splits) st =
     (let role = split_role split;
          percentage = splitPercentage split
      in if role = '''' \<or> decimalLte percentage (DFin 0)
         then applyCreditSplits e agentId basePayout hierarchyRows splits st
         else
           (case findManager agentId role hierarchyRows (Some (env_schemeStart e))
                   (Some (env_runDate e)) of
              Some managerId \<Rightarrow>
                (let splitAmount =
                       decimalDividedBy (decimalTimes basePayout percentage) (DFin 100)
                 in if decimalGt splitAmount (DFin 0) then
                      (if managerId \<in> set objectPrototypeMembers then Inl TypeError
                       else applyCreditSplits e agentId basePayout hierarchyRows splits
                              \<lparr>ss_creditDistributions =
                                 pushDistribution (ss_creditDistributions st) managerId
                                   \<lparr>cd_fromAgent = agentId, cd_role = role,
                                    cd_amount = formatDecimal splitAmount 2,
                                    cd_splitRuleId = split_id split,
                                    cd_basePayoutFromAgent = formatDecimal basePayout 2,
                                    cd_percentageApplied = formatDecimal percentage 4\<rparr>,
                               ss_logs = ss_logs st @
                                 [\<lparr>log_ruleType = CreditSplit, log_ruleId = split_id split,
                                   log_recordId = JUndefined, log_agentId = agentId,
                                   log_managerId = Some managerId\<rparr>]\<rparr>)
                    else applyCreditSplits e agentId basePayout hierarchyRows splits st)
            | None \<Rightarrow>
                applyCreditSplits e agentId basePayout hierarchyRows splits
                  (st\<lparr>ss_logs := ss_logs st @
                        [\<lparr>log_ruleType = CreditSplit, log_ruleId = split_id split,
                          log_recordId = JUndefined, log_agentId = agentId,
                          log_managerId = None\<rparr>]\<rparr>)))"

subsection \<open>One agent, all agents\<close>

definition hierarchyRows :: "jsval \<Rightarrow> jsval list" where
  "hierarchyRows hierarchyData = (case hierarchyData of JArr rows \<Rightarrow> rows | _ \<Rightarrow> [])"

definition storeAgentLogs ::
  "(string \<rightharpoonup> ruleLogEntry list) \<Rightarrow> string \<Rightarrow> ruleLogEntry list \<Rightarrow> (string \<rightharpoonup> ruleLogEntry list)" where
  "storeAgentLogs logs agentId agentRuleLogs =
     (if length agentRuleLogs > 0
      then logs(agentId \<mapsto>
             (case logs agentId of None \<Rightarrow> [] | Some entries \<Rightarrow> entries) @ agentRuleLogs)
      else logs)"

text \<open>
  The body of the loop over the agents; on success it returns the result so far and
  \<open>agentRuleLogs\<close>: the logs of the records, then of the qualification, then of the
  splits. The payout step is outside any \<open>try\<close>: when it throws, the run throws.
\<close>

definition processAgent ::
  "env \<Rightarrow> string \<Rightarrow> jsval list \<Rightarrow> runResult \<Rightarrow> error + (runResult \<times> ruleLogEntry list)" where
  "processAgent e agentId agentRecords res =
     (case processRecords e agentId agentRecords
             \<lparr>ag_totalCreditedAmount = DFin 0, ag_ruleLogs = [],
              ag_rawRecordLevelData = rawRecordLevelData res\<rparr> of
        Inl err \<Rightarrow> Inl err
      | Inr ag \<Rightarrow>
          (let totalAmount = ag_totalCreditedAmount ag;
               logs1 = ag_ruleLogs ag @ qualificationLogs e agentId totalAmount
           in case (if agentQualified e agentId totalAmount
                    then calculateMarginalTieredPayout totalAmount
                           (case payoutTiers (env_scheme e) of None \<Rightarrow> [] | Some tiers \<Rightarrow> tiers)
                    else Inr (DFin 0)) of
                Inl err \<Rightarrow> Inl err
              | Inr basePayout \<Rightarrow>
                  (let payouts = (agentPayouts res)(agentId \<mapsto> formatDecimal basePayout 2);
                       hasSplits = (creditSplits (env_scheme e) \<noteq> []);
                       rows = hierarchyRows (env_hierarchyData e);
                       hasHierarchy = (rows \<noteq> [])
                   in case (if decimalGt basePayout (DFin 0) \<and> hasSplits \<and> hasHierarchy
                            then applyCreditSplits e agentId basePayout rows
                                   (creditSplits (env_scheme e))
                                   \<lparr>ss_creditDistributions = creditDistributions res,
                                    ss_logs = logs1\<rparr>
                            else if decimalGt basePayout (DFin 0) \<and> hasSplits \<and> \<not> hasHierarchy
                            then Inr \<lparr>ss_creditDistributions = creditDistributions res,
                                      ss_logs = logs1 @
                                        [\<lparr>log_ruleType = CreditSplit, log_ruleId = ''N/A'',
                                          log_recordId = JUndefined, log_agentId = agentId,
                                          log_managerId = None\<rparr>]\<rparr>
                            else Inr \<lparr>ss_creditDistributions = creditDistributions res,
                                      ss_logs = logs1\<rparr>) of
                        Inl err \<Rightarrow> Inl err
                      | Inr ss \<Rightarrow>
                          Inr (\<lparr>agentPayouts = payouts,
                                ruleHitLogs =
                                  storeAgentLogs (ruleHitLogs res) agentId (ss_logs ss),
                                creditDistributions = ss_creditDistributions ss,
                                rawRecordLevelData = ag_rawRecordLevelData ag\<rparr>,
                               ss_logs ss))))"

definition recordsOfAgent :: "(string \<times> jsval list) list \<Rightarrow> string \<Rightarrow> jsval list" where
  "recordsOfAgent recordsByAgent agentId =
     (case map_of recordsByAgent agentId of None \<Rightarrow> [] | Some records \<Rightarrow> records)"

fun processAgents ::
  "env \<Rightarrow> (string \<times> jsval list) list \<Rightarrow> string list \<Rightarrow> runResult \<Rightarrow> error + runResult" where
  "processAgents e recordsByAgent [] res = Inr res"
| "processAgents e recordsByAgent (agentId # agentIds) res =
     (if agentId = ''UNKNOWN_AGENT'' then processAgents e recordsByAgent agentIds res
      else (case processAgent e agentId (recordsOfAgent recordsByAgent agentId) res of
              Inl err \<Rightarrow> Inl err
            | Inr (res', agentRuleLogs) \<Rightarrow> processAgents e recordsByAgent agentIds res'))"

subsection \<open>runScheme\<close>

text \<open>
  The objects the caller hands in and can look at after the call. \<open>runScheme\<close> returns
  them as they are when it returns or throws, next to the result or the error.
\<close>

record store =
  st_scheme :: "schemeDefinition option"
  st_uploadedFiles :: jsval

definition emptyResult :: runResult where
  "emptyResult =
     \<lparr>agentPayouts = Map.empty, ruleHitLogs = Map.empty, creditDistributions = Map.empty,
      rawRecordLevelData = []\<rparr>"

definition isObject :: "jsval \<Rightarrow> bool" where
  "isObject v =
     (case v of JObj kvs \<Rightarrow> True | JArr xs \<Rightarrow> True | JDec d \<Rightarrow> True | _ \<Rightarrow> False)"

definition isNonEmptyString :: "jsval \<Rightarrow> bool" where
  "isNonEmptyString v = (case v of JStr s \<Rightarrow> s \<noteq> '''' | _ \<Rightarrow> False)"

definition baseMappingComplete :: "baseMapping \<Rightarrow> bool" where
  "baseMappingComplete bm =
     (bm_sourceFile bm \<noteq> '''' \<and> bm_agentField bm \<noteq> '''' \<and> bm_amountField bm \<noteq> ''''
      \<and> bm_transactionDateField bm \<noteq> '''')"

definition mkEnv ::
  "schemeDefinition \<Rightarrow> baseMapping \<Rightarrow> jsval \<Rightarrow> jsdate \<Rightarrow> jsdate \<Rightarrow> env" where
  "mkEnv scheme bm uploadedFiles schemeStart runDate =
     \<lparr>env_scheme = scheme,
      env_fieldMap = buildFieldMap scheme bm,
      env_baseDataFile = bm_sourceFile bm,
      env_agentIdField = bm_agentField bm,
      env_amountField = bm_amountField bm,
      env_transactionDateField = bm_transactionDateField bm,
      env_hierarchyData =
        (if creditHierarchyFile scheme \<noteq> ''''
         then safeGet uploadedFiles (creditHierarchyFile scheme) (JArr [])
         else JArr []),
      env_schemeStart = schemeStart,
      env_runDate = runDate\<rparr>"

definition runBody :: "env \<Rightarrow> jsval list \<Rightarrow> error + runResult" where
  "runBody e baseData =
     (case groupByAgent e (qualifiedRecords e baseData) [] of
        Inl err \<Rightarrow> Inl err
      | Inr recordsByAgent \<Rightarrow>
          processAgents e recordsByAgent (forInKeys recordsByAgent) emptyResult)"

definition runScheme :: "store \<Rightarrow> jsval \<Rightarrow> store \<times> (error + runResult)" where
  "runScheme st runAsOfDate =
     (case st_scheme st of
        None \<Rightarrow> (st, Inl InvalidScheme)
      | Some scheme \<Rightarrow>
          if \<not> truthy (st_uploadedFiles st) \<or> \<not> isObject (st_uploadedFiles st)
          then (st, Inl InvalidUploadedFiles)
          else if \<not> isNonEmptyString runAsOfDate then (st, Inl InvalidRunAsOfDate)
          else
            (case parseDate runAsOfDate of
               None \<Rightarrow> (st, Inl InvalidRunAsOfDateFormat)
             | Some runDate \<Rightarrow>
                 (case parseDate (effectiveFrom scheme) of
                    None \<Rightarrow> (st, Inl InvalidEffectiveFrom)
                  | Some schemeStart \<Rightarrow>
                      (case baseMapping scheme of
                         None \<Rightarrow> (st, Inl BaseMappingMissingFields)
                       | Some bm \<Rightarrow>
                           if \<not> baseMappingComplete bm then (st, Inl BaseMappingMissingFields)
                           else
                             (let scheme' =
                                    (if payoutTiers scheme = None
                                     then scheme\<lparr>payoutTiers := Some []\<rparr> else scheme);
                                  st' = st\<lparr>st_scheme := Some scheme'\<rparr>
                              in case safeGet (st_uploadedFiles st) (bm_sourceFile bm)
                                        JUndefined of
                                   JArr baseData \<Rightarrow>
                                     (st', runBody
                                        (mkEnv scheme' bm (st_uploadedFiles st) schemeStart
                                           runDate)
                                        baseData)
                                 | _ \<Rightarrow> (st', Inl BaseDataNotFound))))))"

section \<open>The contract of record processing, in the words of the spec\<close>

text \<open>
  A rule applies to a record of the base dataset when its field is mapped to the base
  dataset; its condition is then evaluated on the value of the mapped source field.
\<close>

definition conditionTrue :: "env \<Rightarrow> jsval \<Rightarrow> string \<Rightarrow> string \<Rightarrow> jsval \<Rightarrow> bool" where
  "conditionTrue e record field operator ruleValue =
     (case env_fieldMap e field of
        None \<Rightarrow> False
      | Some fieldInfo \<Rightarrow>
          fi_sourceFile fieldInfo = env_baseDataFile e
          \<and> evaluateCondition (safeGet record (fi_sourceField fieldInfo) JUndefined) operator
                ruleValue (fi_dataType fieldInfo))"

definition exclusionFires :: "env \<Rightarrow> jsval \<Rightarrow> schemeRule \<Rightarrow> bool" where
  "exclusionFires e record rule =
     conditionTrue e record (rule_field rule) (rule_operator rule) (rule_value rule)"

definition adjustmentFires :: "env \<Rightarrow> jsval \<Rightarrow> adjustmentRule \<Rightarrow> bool" where
  "adjustmentFires e record rule =
     conditionTrue e record (cond_field (arule_condition rule))
       (cond_operator (arule_condition rule)) (cond_value (arule_condition rule))"

text \<open>
  The effect of one adjustment on the pair (running amount, running rate multiplier),
  and of a sequence of adjustments, one after the other. The arithmetic is the
  library's, each operation rounded to 20 significant digits.
\<close>

definition adjustmentEffect_spec ::
  "adjustment \<Rightarrow> decimal \<times> decimal \<Rightarrow> decimal \<times> decimal" where
  "adjustmentEffect_spec adj running =
     (let amount = fst running; multiplier = snd running; v = adjValue adj
      in if adj_target adj = ''Rate'' \<and> adj_type adj = ''percentage''
           then (amount, decimalTimes multiplier (decimalDividedBy v (DFin 100)))
         else if adj_target adj = ''Amount'' \<and> adj_type adj = ''percentage''
           then (decimalPlus amount (decimalDividedBy (decimalTimes amount v) (DFin 100)),
                 multiplier)
         else if adj_target adj = ''Amount'' \<and> adj_type adj = ''fixed''
           then (decimalPlus amount v, multiplier)
         else (amount, multiplier))"

definition runningAdjustment_spec ::
  "adjustment list \<Rightarrow> decimal \<times> decimal \<Rightarrow> decimal \<times> decimal" where
  "runningAdjustment_spec adjs running = foldl (\<lambda>r adj. adjustmentEffect_spec adj r) running adjs"

definition firedAdjustments :: "env \<Rightarrow> jsval \<Rightarrow> adjustmentRule list" where
  "firedAdjustments e record =
     filter (adjustmentFires e record) (adjustmentRules (env_scheme e))"

definition originalAmountOf :: "env \<Rightarrow> jsval \<Rightarrow> decimal option" where
  "originalAmountOf e record = newDecimal (safeGet record (env_amountField e) (JNum 0))"

definition exclusionLog :: "string \<Rightarrow> jsval \<Rightarrow> schemeRule \<Rightarrow> ruleLogEntry" where
  "exclusionLog agentId record rule =
     \<lparr>log_ruleType = Exclusion, log_ruleId = rule_id rule,
      log_recordId = jsGetProp record ''_recordId'', log_agentId = agentId,
      log_managerId = None\<rparr>"

definition adjustmentLog :: "string \<Rightarrow> jsval \<Rightarrow> adjustmentRule \<Rightarrow> ruleLogEntry" where
  "adjustmentLog agentId record rule =
     \<lparr>log_ruleType = Adjustment, log_ruleId = arule_id rule,
      log_recordId = jsGetProp record ''_recordId'', log_agentId = agentId,
      log_managerId = None\<rparr>"

text \<open>The running amount and the running rate multiplier of the adjustment loop.\<close>

definition numeric :: "adjState \<Rightarrow> decimal \<times> decimal" where
  "numeric st = (as_currentAmount st, as_rateMultiplier st)"

text \<open>
  What a record adds to the total credited amount of its agent; \<open>None\<close> when nothing is
  added.
\<close>

definition creditedAmount :: "env \<Rightarrow> string \<Rightarrow> jsval \<Rightarrow> decimal option" where
  "creditedAmount e agentId record =
     (case processRecord e agentId record of
        Inl err \<Rightarrow> None
      | Inr out \<Rightarrow> if ro_isExcluded out then None else Some (ro_adjustedAmount out))"

text \<open>
  The rule log entries emitted during the loop over the agents: for each agent the body
  of the loop ran for, the entries it collected in \<open>agentRuleLogs\<close>.
\<close>

fun emittedLogs ::
  "env \<Rightarrow> (string \<times> jsval list) list \<Rightarrow> string list \<Rightarrow> runResult
     \<Rightarrow> (string \<times> ruleLogEntry list) list" where
  "emittedLogs e recordsByAgent [] res = []"
| "emittedLogs e recordsByAgent (agentId # agentIds) res =
     (if agentId = ''UNKNOWN_AGENT'' then emittedLogs e recordsByAgent agentIds res
      else (case processAgent e agentId (recordsOfAgent recordsByAgent agentId) res of
              Inl err \<Rightarrow> []
            | Inr (res', agentRuleLogs) \<Rightarrow>
                (agentId, agentRuleLogs) # emittedLogs e recordsByAgent agentIds res'))"

definition runEmittedLogs :: "env \<Rightarrow> jsval list \<Rightarrow> ruleLogEntry list" where
  "runEmittedLogs e baseData =
     (case groupByAgent e (qualifiedRecords e baseData) [] of
        Inl err \<Rightarrow> []
      | Inr recordsByAgent \<Rightarrow>
          concat (map snd (emittedLogs e recordsByAgent (forInKeys recordsByAgent) emptyResult)))"

text \<open>
  \<open>ruleHitLogs[agentId].push(...agentRuleLogs)\<close> as seen at one key: nothing changes when
  there is nothing to push.
\<close>

definition appendLogs :: "ruleLogEntry list option \<Rightarrow> ruleLogEntry list \<Rightarrow> ruleLogEntry list option" where
  "appendLogs m ls =
     (if ls = [] then m else Some ((case m of None \<Rightarrow> [] | Some l \<Rightarrow> l) @ ls))"

definition logsOfAgent :: "string \<Rightarrow> (string \<times> ruleLogEntry list) list \<Rightarrow> ruleLogEntry list" where
  "logsOfAgent agentId emitted = concat (map snd (filter (\<lambda>p. fst p = agentId) emitted))"
section \<open>An example run\<close>

text \<open>
  The example at the end of the source file, with its tier table, fewer rows, and
  dataset names without a dot (\<open>safeGet\<close> splits a name at its dots). No total of the
  example gets to the last tier, the one without \<open>to\<close>.
\<close>

definition sourceExampleTiers :: "tier list" where
  "sourceExampleTiers =
     [\<lparr>tier_from = Some 0, tier_to = Some 25000, tier_rate = Some 3,
       tier_isPercentage = Some True\<rparr>,
      \<lparr>tier_from = Some 25001, tier_to = Some 125000, tier_rate = Some 7,
       tier_isPercentage = Some True\<rparr>,
      \<lparr>tier_from = Some 125001, tier_to = Some 225000, tier_rate = Some 10,
       tier_isPercentage = Some True\<rparr>,
      \<lparr>tier_from = Some 225001, tier_to = None, tier_rate = Some 15,
       tier_isPercentage = Some True\<rparr>]"

definition exKpi :: "string \<Rightarrow> string \<Rightarrow> string \<Rightarrow> string \<Rightarrow> string \<Rightarrow> kpiField" where
  "exKpi name sourceField dataType evaluationLevel aggregation =
     \<lparr>kpi_name = name, kpi_sourceField = sourceField, kpi_dataType = dataType,
      kpi_evaluationLevel = evaluationLevel, kpi_aggregation = aggregation,
      kpi_sourceFile = ''SCH1''\<rparr>"

definition exBaseMapping :: baseMapping where
  "exBaseMapping =
     \<lparr>bm_sourceFile = ''SCH1'', bm_agentField = ''Sales Employee'',
      bm_amountField = ''Net Value'', bm_transactionDateField = ''Document Date''\<rparr>"

definition exScheme :: schemeDefinition where
  "exScheme =
     \<lparr>scheme_name = ''NA_SO_DEC_24V3_Example'',
      effectiveFrom = JStr ''2024-12-01'',
      baseMapping = Some exBaseMapping,
      qualificationRules =
        [\<lparr>rule_id = ''q1'', rule_field = ''SalesOrg'', rule_operator = ''='',
          rule_value = JStr ''1810''\<rparr>,
         \<lparr>rule_id = ''q2'', rule_field = ''MinSales'', rule_operator = ''>='',
          rule_value = JStr ''70000''\<rparr>],
      exclusionRules =
        [\<lparr>rule_id = ''e1'', rule_field = ''Payer'', rule_operator = ''='',
          rule_value = JStr ''17100002''\<rparr>],
      adjustmentRules =
        [\<lparr>arule_id = ''a1'',
          arule_condition = \<lparr>cond_field = ''DeliveryStat'', cond_operator = ''CONTAINS'',
                              cond_value = JStr ''Fully''\<rparr>,
          arule_adjustment = \<lparr>adj_target = ''Rate'', adj_type = ''percentage'',
                               adj_value = Some 200\<rparr>\<rparr>],
      customRules = [],
      creditSplits =
        [\<lparr>split_id = ''cs1'', split_role = ''L1'', split_percentage = Some 90\<rparr>,
         \<lparr>split_id = ''cs2'', split_role = ''L2'', split_percentage = Some 10\<rparr>],
      creditHierarchyFile = ''MH'',
      payoutTiers = Some sourceExampleTiers,
      kpiConfig =
        \<lparr>kpi_baseData = [],
         kpi_qualificationFields =
           [exKpi ''SalesOrg'' ''Sales Organization'' ''String'' ''Per Record'' '''',
            exKpi ''MinSales'' ''Net Value'' ''Number'' ''Agent'' ''Sum''],
         kpi_adjustmentFields =
           [exKpi ''DeliveryStat'' ''Delivery Status'' ''String'' ''Per Record'' ''''],
         kpi_exclusionFields = [exKpi ''Payer'' ''Payer'' ''String'' ''Per Record'' ''''],
         kpi_creditFields = []\<rparr>\<rparr>"

definition exRecord :: "jsval \<Rightarrow> jsval \<Rightarrow> string \<Rightarrow> string \<Rightarrow> string \<Rightarrow> string \<Rightarrow> jsval" where
  "exRecord agent amount date salesOrg payer delivery =
     JObj [(''Sales Employee'', agent), (''Net Value'', amount), (''Document Date'', JStr date),
           (''Sales Organization'', JStr salesOrg), (''Payer'', JStr payer),
           (''Delivery Status'', JStr delivery)]"

definition exBaseData :: "jsval list" where
  "exBaseData =
     [exRecord (JStr ''101'') (JNum 50000) ''2024-12-05'' ''1810'' ''CUST001'' ''Fully Delivered'',
      exRecord (JStr ''101'') (JNum 30000) ''2024-12-15'' ''1810'' ''CUST003'' ''Partially'',
      exRecord (JStr ''102'') (JNum 90000) ''2024-12-31'' ''1810'' ''17100002'' ''Fully Delivered'',
      exRecord (JStr ''104'') (JNum 80000) ''2024-12-22'' ''1910'' ''CUST005'' ''Fully Delivered'',
      exRecord (JStr ''101'') (JNum 10000) ''2025-01-01'' ''1810'' ''CUST007'' ''Partially'']"

definition exHierarchy :: "jsval list" where
  "exHierarchy =
     [exRowA, hierarchyRow ''101'' ''L2'' ''MGR_B'' ''2024-01-01'' ''2024-12-31'', exRowOld]"

definition exFiles :: jsval where
  "exFiles = JObj [(''SCH1'', JArr exBaseData), (''MH'', JArr exHierarchy)]"

definition exStore :: store where
  "exStore = \<lparr>st_scheme = Some exScheme, st_uploadedFiles = exFiles\<rparr>"

definition exEnv :: env where
  "exEnv = mkEnv exScheme exBaseMapping exFiles exSchemeStart exRunDate"

text \<open>The augmented rows of the example, and rows that abort a run.\<close>

definition exRow :: "nat \<Rightarrow> jsval" where
  "exRow i = augmentRecord ''SCH1'' i (exBaseData ! i)"

definition exNoAgentFiles :: jsval where
  "exNoAgentFiles =
     JObj [(''SCH1'',
            JArr [JObj [(''Net Value'', JNum 50000), (''Document Date'', JStr ''2024-12-05''),
                        (''Sales Organization'', JStr ''1810'')]])]"

definition exBadAmountFiles :: jsval where
  "exBadAmountFiles =
     JObj [(''SCH1'',
            JArr [exRecord (JStr ''101'') (JStr ''12,5'') ''2024-12-05'' ''1810'' ''CUST001''
                    ''Partially''])]"

text \<open>
  The words of the selection contract: the date a record's transaction-date field parses
  to, and a record passing a qualification rule.
\<close>

definition recordDate :: "env \<Rightarrow> jsval \<Rightarrow> jsdate option" where
  "recordDate e record =
     (let v = safeGet record (env_transactionDateField e) JUndefined
      in if isEmptyVal v then None else parseDate (JStr (jsToString v)))"

definition passesRule :: "env \<Rightarrow> jsval \<Rightarrow> schemeRule \<Rightarrow> bool" where
  "passesRule e record rule =
     (case env_fieldMap e (rule_field rule) of
        None \<Rightarrow> False
      | Some fieldInfo \<Rightarrow>
          evaluateCondition (safeGet record (fi_sourceField fieldInfo) JUndefined)
            (rule_operator rule) (rule_value rule) (fi_dataType fieldInfo))"

text \<open>
  The checks of \<open>runScheme\<close> that come before the assignment to \<open>scheme.payoutTiers\<close>:
  the uploaded files are an object, the run date is a non-empty string that parses, the
  scheme's \<open>effectiveFrom\<close> parses, and \<open>baseMapping\<close> has its four fields.
\<close>

definition passesConfigChecks :: "schemeDefinition \<Rightarrow> jsval \<Rightarrow> jsval \<Rightarrow> bool" where
  "passesConfigChecks scheme uploadedFiles runAsOfDate =
     (truthy uploadedFiles \<and> isObject uploadedFiles \<and> isNonEmptyString runAsOfDate
      \<and> parseDate runAsOfDate \<noteq> None \<and> parseDate (effectiveFrom scheme) \<noteq> None
      \<and> (case baseMapping scheme of None \<Rightarrow> False | Some bm \<Rightarrow> baseMappingComplete bm))"

section \<open>Typed values\<close>

text \<open>
  A value is accepted for a data type when the parser that \<open>evaluateCondition\<close> applies
  for the type takes it: the Decimal constructor for \<open>Number\<close>, \<open>parseDate\<close> on the
  string form for \<open>Date\<close>; every value has a string form. It is well typed when it is
  accepted and, for \<open>Number\<close>, is a number: the constructor also accepts \<open>NaN\<close>.
\<close>

definition accepted :: "string \<Rightarrow> jsval \<Rightarrow> bool" where
  "accepted dataType v =
     (if dataType = ''Number'' then newDecimal v \<noteq> None
      else if dataType = ''Date'' then parseDate (JStr (jsToString v)) \<noteq> None
      else True)"

definition wellTyped :: "string \<Rightarrow> jsval \<Rightarrow> bool" where
  "wellTyped dataType v =
     (accepted dataType v \<and> \<not> (dataType = ''Number'' \<and> newDecimal v = Some DNaN))"


text \<open>
  The example scheme without \<open>payoutTiers\<close>, uploaded files whose base dataset has no
  row, and the run date of the example.
\<close>

definition exNoTiersScheme :: schemeDefinition where
  "exNoTiersScheme = exScheme\<lparr>payoutTiers := None\<rparr>"

definition exEmptyFiles :: jsval where
  "exEmptyFiles = JObj [(''SCH1'', JArr [])]"

definition exRunAsOfDate :: jsval where
  "exRunAsOfDate = JStr ''2024-12-31''"

section \<open>Properties\<close>

lemma showNat_small: "n < 10 \<Longrightarrow> showNat n = [showDigit n]"
  by (simp add: showNat.simps)

lemma showNat_big: "10 \<le> n \<Longrightarrow> showNat n = showNat (n div 10) @ [showDigit n]"
  by (subst showNat.simps) simp



lemma decimalCmp_refl: "x \<noteq> DNaN \<Longrightarrow> decimalCmp x x = Some 0"
  by (cases x) simp_all

lemma decimalPlus_zero_zero: "decimalPlus (DFin 0) (DFin 0) = DFin 0"
  by code_simp

subsection \<open>Tiered payout\<close>

lemma pow10_pos: "0 < pow10 k"
  by (simp add: pow10_def)

lemma roundSignificant_nonpos: "x \<le> 0 \<Longrightarrow> roundSignificant sd x \<le> 0"
proof -
  assume x: "x \<le> 0"
  show ?thesis
  proof (cases "x = 0")
    case True
    then show ?thesis by (simp add: roundSignificant_def)
  next
    case False
    then have neg: "x < 0" using x by simp
    let ?unit = "pow10 (exponent10 x - int sd + 1)"
    have "0 \<le> \<bar>x\<bar> / ?unit + 1 / 2" using pow10_pos [of "exponent10 x - int sd + 1"] by simp
    then have "0 \<le> \<lfloor>\<bar>x\<bar> / ?unit + 1 / 2\<rfloor>" by simp
    then have "0 \<le> (of_int \<lfloor>\<bar>x\<bar> / ?unit + 1 / 2\<rfloor> :: rat) * ?unit"
      using pow10_pos [of "exponent10 x - int sd + 1"] by simp
    then show ?thesis using neg False by (simp add: roundSignificant_def Let_def)
  qed
qed

lemma finalise_nonpos: "x \<le> 0 \<Longrightarrow> \<not> decimalGt (finalise x) (DFin 0)"
  using roundSignificant_nonpos [of x 20]
  by (auto simp: finalise_def limitExponent_def decimalGt_def)

lemma finalise_cmp_pos: "decimalCmp (finalise x) (DFin 0) = Some 1 \<Longrightarrow> 0 < x"
  using finalise_nonpos [of x] by (auto simp: decimalGt_def not_le [symmetric])

lemma slice_nonpos_done:
  "decimalLte amount ap \<Longrightarrow>
     \<not> decimalGt (decimalMinus (decimalMin e amount) (decimalMax (DFin f) ap)) (DFin 0)"
  by (cases amount; cases ap; cases e)
    (auto simp: decimalLte_def decimalGt_def decimalMin_def decimalMax_def
      dest!: finalise_cmp_pos split: if_splits)

lemma slice_nonpos_below:
  "decimalLte amount (DFin f') \<Longrightarrow> f' \<le> f \<Longrightarrow>
     \<not> decimalGt (decimalMinus (decimalMin e amount) (decimalMax (DFin f) ap)) (DFin 0)"
  by (cases amount; cases ap; cases e)
    (auto simp: decimalLte_def decimalGt_def decimalMin_def decimalMax_def
      dest!: finalise_cmp_pos split: if_splits)

lemma creditSlices_done:
  "decimalLte amount ap \<Longrightarrow> creditSlices amount ts tp ap = tp"
  by (induction ts arbitrary: tp) (simp_all add: Let_def slice_nonpos_done)

lemma creditSlices_below:
  "decimalLte amount (DFin f) \<Longrightarrow> \<forall>t \<in> set ts. f \<le> tierFrom t
     \<Longrightarrow> creditSlices amount ts tp ap = tp"
  by (induction ts arbitrary: tp) (simp_all add: Let_def slice_nonpos_below)

lemma decimalGte_Lte: "decimalGte x y = decimalLte y x"
  by (cases x; cases y) (auto simp: decimalGte_def decimalLte_def)

lemma tierLoop_creditSlices:
  "sorted (map tierFrom ts) \<Longrightarrow> \<forall>t \<in> set ts. tier_to t \<noteq> None
     \<Longrightarrow> tierLoop amount ts tp ap = Inr (creditSlices amount ts tp ap)"
proof (induction ts arbitrary: tp ap)
  case Nil
  then show ?case by simp
next
  case (Cons t ts)
  have srt: "sorted (map tierFrom ts)" using Cons.prems by simp
  have bnd: "\<forall>u \<in> set ts. tier_to u \<noteq> None" using Cons.prems by simp
  have ge: "\<forall>u \<in> set (t # ts). tierFrom t \<le> tierFrom u" using Cons.prems by simp
  obtain tierTo where to: "tier_to t = Some tierTo" using Cons.prems by auto
  show ?case
  proof (cases "decimalLte amount (DFin (tierFrom t)) \<or> decimalLte amount ap")
    case True
    then have "creditSlices amount (t # ts) tp ap = tp"
      using creditSlices_below [OF _ ge] creditSlices_done by blast
    with True show ?thesis by (simp add: Let_def)
  next
    case False
    let ?end = "decimalMin (DFin tierTo) amount"
    let ?slice = "decimalMinus ?end (decimalMax (DFin (tierFrom t)) ap)"
    show ?thesis
    proof (cases "decimalGt ?slice (DFin 0)")
      case True
      show ?thesis
      proof (cases "decimalGte ?end amount")
        case g: True
        then have "creditSlices amount ts tp' ?end = tp'" for tp'
          using creditSlices_done by (simp add: decimalGte_Lte)
        then show ?thesis using False True g to
          by (simp add: Let_def tierEnd_spec_def slicePayout_spec_def)
      next
        case g: False
        then show ?thesis using False True to Cons.IH [OF srt bnd]
          by (simp add: Let_def tierEnd_spec_def slicePayout_spec_def)
      qed
    next
      case s: False
      have "\<not> decimalGte ap amount" using False by (simp add: decimalGte_Lte)
      then show ?thesis using False s to Cons.IH [OF srt bnd]
        by (simp add: Let_def tierEnd_spec_def)
    qed
  qed
qed

lemma payout_refines_spec:
  "\<forall>t \<in> set tiers. tier_to t \<noteq> None \<Longrightarrow>
     calculateMarginalTieredPayout amount tiers = Inr (computeMarginalPayout_spec amount tiers)"
  using tierLoop_creditSlices [of "sort_key tierFrom tiers" amount "DFin 0" "DFin 0"]
  by (auto simp: calculateMarginalTieredPayout_def computeMarginalPayout_spec_def)

lemma tierLoop_unbounded:
  assumes "tier_to t = None"
    and "\<not> decimalLte amount (DFin (tierFrom t))" and "\<not> decimalLte amount amountProcessed"
  shows "tierLoop amount (t # rest) totalPayout amountProcessed = Inl DecimalError"
  using assms by (simp add: Let_def)

lemma exampleTiers_throws:
  "calculateMarginalTieredPayout (DFin 200000) exampleTiers = Inl DecimalError"
  by code_simp

lemma exampleTiers_spec: "computeMarginalPayout_spec (DFin 200000) exampleTiers = DFin 15250"
  by code_simp

lemma boundedExampleTiers_payout:
  "calculateMarginalTieredPayout (DFin 200000) boundedExampleTiers = Inr (DFin 15250)"
  by code_simp

lemma format_15250: "formatDecimal (DFin 15250) 2 = ''15250.00''"
  by code_simp

text \<open>
  Claim C1. The code diverges from the claim on a tier without \<open>to\<close>. When every tier
  of the table has a \<open>to\<close>, \<open>calculateMarginalTieredPayout\<close> returns what the contract
  says, for every amount: the tiers are taken in ascending order of \<open>from\<close> (a stable
  sort of the table), and each tier credits the slice from \<open>max(from, processed)\<close> to
  \<open>min(to, amount)\<close>, when it is positive, at the tier's rate. When the loop gets to a
  tier without \<open>to\<close> (the amount is above its \<open>from\<close> and above what was processed), the
  call throws. On the table and the amount of the claim's example the call throws, where
  the contract gives 15250; with a bound on the last tier the call returns 15250, which
  prints as \<open>15250.00\<close>.
\<close>

theorem calculateMarginalTieredPayout_unbounded_tier_throws:
  "((\<forall>t \<in> set tiers. tier_to t \<noteq> None) \<longrightarrow>
      calculateMarginalTieredPayout amount tiers
        = Inr (computeMarginalPayout_spec amount tiers))
   \<and> sorted (map tierFrom (sort_key tierFrom tiers))
   \<and> mset (sort_key tierFrom tiers) = mset tiers
   \<and> (tier_to t = None \<and> \<not> decimalLte amount (DFin (tierFrom t))
        \<and> \<not> decimalLte amount amountProcessed \<longrightarrow>
          tierLoop amount (t # rest) totalPayout amountProcessed = Inl DecimalError)
   \<and> calculateMarginalTieredPayout (DFin 200000) exampleTiers = Inl DecimalError
   \<and> computeMarginalPayout_spec (DFin 200000) exampleTiers = DFin 15250
   \<and> calculateMarginalTieredPayout (DFin 200000) boundedExampleTiers = Inr (DFin 15250)
   \<and> formatDecimal (DFin 15250) 2 = ''15250.00''"
  using payout_refines_spec [of tiers amount]
    tierLoop_unbounded [of t amount amountProcessed rest totalPayout]
    exampleTiers_throws exampleTiers_spec boundedExampleTiers_payout format_15250
  by simp

theorem calculateMarginalTieredPayout_unbounded_tier_throws_witness:
  "list_all (\<lambda>t. tier_to t \<noteq> None) boundedExampleTiers
   \<and> calculateMarginalTieredPayout (DFin 125000) boundedExampleTiers
        = Inr (computeMarginalPayout_spec (DFin 125000) boundedExampleTiers)
   \<and> computeMarginalPayout_spec (DFin 125000) boundedExampleTiers = DFin 7750
   \<and> tier_to (last exampleTiers) = None
   \<and> decimalLte (DFin 200000) (DFin (tierFrom (last exampleTiers))) = False
   \<and> decimalLte (DFin 200000) (DFin 125000) = False
   \<and> tierLoop (DFin 200000) [last exampleTiers] (DFin 7750) (DFin 125000) = Inl DecimalError"
proof -
  have b: "list_all (\<lambda>t. tier_to t \<noteq> None) boundedExampleTiers" by code_simp
  have s: "computeMarginalPayout_spec (DFin 125000) boundedExampleTiers = DFin 7750"
    by code_simp
  have u: "tier_to (last exampleTiers) = None"
    "decimalLte (DFin 200000) (DFin (tierFrom (last exampleTiers))) = False"
    "decimalLte (DFin 200000) (DFin 125000) = False"
    by code_simp+
  show ?thesis
    using b s u
      calculateMarginalTieredPayout_unbounded_tier_throws
        [of boundedExampleTiers "DFin 125000" "last exampleTiers" "DFin 125000" "[]" "DFin 7750"]
    by (simp add: list_all_iff)
qed

subsection \<open>Condition evaluation\<close>

text \<open>
  Claim C5. Whatever the operator and the data type: on a record value that is \<open>null\<close>,
  \<open>undefined\<close> or the empty string, \<open>evaluateCondition\<close> is true exactly when the
  operator is \<open>=\<close> and the rule value is empty as well; on a non-empty record value and
  an empty rule value it is true exactly when the operator is \<open>!=\<close>.
\<close>

theorem evaluateCondition_null_policy:
  "(isEmptyVal recordValue \<longrightarrow>
      evaluateCondition recordValue operator ruleValue dataType
        = (operator = ''='' \<and> isEmptyVal ruleValue))
   \<and> (\<not> isEmptyVal recordValue \<and> isEmptyVal ruleValue \<longrightarrow>
      evaluateCondition recordValue operator ruleValue dataType = (operator = ''!=''))"
  by (simp add: evaluateCondition_def)

theorem evaluateCondition_null_policy_witness:
  "isEmptyVal (JStr '''') \<and> isEmptyVal JNull
   \<and> evaluateCondition (JStr '''') ''='' JNull ''Number''
   \<and> \<not> evaluateCondition JUndefined ''!='' JNull ''String''
   \<and> \<not> isEmptyVal (JNum 0) \<and> isEmptyVal JUndefined
   \<and> evaluateCondition (JNum 0) ''!='' JUndefined ''Date''
   \<and> \<not> evaluateCondition (JNum 0) ''='' JUndefined ''Date''"
  using evaluateCondition_null_policy [of "JStr ''''" "''=''" JNull "''Number''"]
    evaluateCondition_null_policy [of JUndefined "''!=''" JNull "''String''"]
    evaluateCondition_null_policy [of "JNum 0" "''!=''" JUndefined "''Date''"]
    evaluateCondition_null_policy [of "JNum 0" "''=''" JUndefined "''Date''"]
  by (simp add: isEmptyVal_def)

lemma compareDates_refl: "compareDates d d = 0"
  by (simp add: compareDates_def)

lemma evaluateCondition_eq_refl:
  assumes "isEmptyVal v \<or> wellTyped dataType v"
  shows "evaluateCondition v ''='' v dataType"
proof (cases "isEmptyVal v")
  case True
  then show ?thesis by (simp add: evaluateCondition_def)
next
  case False
  then have w: "wellTyped dataType v" using assms by simp
  consider (num) "dataType = ''Number''" | (date) "dataType = ''Date''"
    | (str) "dataType \<noteq> ''Number''" "dataType \<noteq> ''Date''"
    by blast
  then show ?thesis
  proof cases
    case num
    then obtain x where "newDecimal v = Some x" "x \<noteq> DNaN"
      using w by (auto simp: wellTyped_def accepted_def)
    then show ?thesis using False num
      by (simp add: evaluateCondition_def decimalEquals_def decimalCmp_refl)
  next
    case date
    then obtain d where "parseDate (JStr (jsToString v)) = Some d"
      using w by (auto simp: wellTyped_def accepted_def)
    then show ?thesis using False date
      by (simp add: evaluateCondition_def compareDates_refl)
  next
    case str
    then show ?thesis using False by (simp add: evaluateCondition_def)
  qed
qed

lemma evaluateCondition_neq_negation:
  assumes "\<not> isEmptyVal a" "\<not> isEmptyVal b" "accepted dataType a" "accepted dataType b"
  shows "evaluateCondition a ''!='' b dataType = (\<not> evaluateCondition a ''='' b dataType)"
proof -
  consider (num) "dataType = ''Number''" | (date) "dataType = ''Date''"
    | (str) "dataType \<noteq> ''Number''" "dataType \<noteq> ''Date''"
    by blast
  then show ?thesis
  proof cases
    case num
    then obtain x y where "newDecimal a = Some x" "newDecimal b = Some y"
      using assms by (auto simp: accepted_def)
    then show ?thesis using assms(1,2) num by (simp add: evaluateCondition_def)
  next
    case date
    then obtain d e where "parseDate (JStr (jsToString a)) = Some d"
      "parseDate (JStr (jsToString b)) = Some e"
      using assms by (auto simp: accepted_def)
    then show ?thesis using assms(1,2) date by (simp add: evaluateCondition_def)
  next
    case str
    then show ?thesis using assms(1,2) by (simp add: evaluateCondition_def)
  qed
qed

lemma evaluateCondition_not_accepted:
  assumes "\<not> isEmptyVal a" "\<not> isEmptyVal b" "\<not> accepted dataType a \<or> \<not> accepted dataType b"
  shows "\<not> evaluateCondition a operator b dataType"
proof -
  consider (num) "dataType = ''Number''" | (date) "dataType = ''Date''"
    | (str) "dataType \<noteq> ''Number''" "dataType \<noteq> ''Date''"
    by blast
  then show ?thesis
  proof cases
    case num
    show ?thesis
    proof (cases "newDecimal a")
      case None
      then show ?thesis using assms(1,2) num by (simp add: evaluateCondition_def)
    next
      case (Some x)
      then have "newDecimal b = None" using assms(3) num by (simp add: accepted_def)
      then show ?thesis using Some assms(1,2) num by (simp add: evaluateCondition_def)
    qed
  next
    case date
    show ?thesis
    proof (cases "parseDate (JStr (jsToString a))")
      case None
      then show ?thesis using assms(1,2) date by (simp add: evaluateCondition_def)
    next
      case (Some d)
      then have "parseDate (JStr (jsToString b)) = None"
        using assms(3) date by (simp add: accepted_def)
      then show ?thesis using Some assms(1,2) date by (simp add: evaluateCondition_def)
    qed
  next
    case str
    then show ?thesis using assms(3) by (simp add: accepted_def)
  qed
qed

text \<open>
  Claim C9, as amended. For every data type, \<open>=\<close> holds between a value and itself when
  the value is empty (\<open>null\<close>, \<open>undefined\<close> or the empty string) or well typed for the
  data type: accepted by the parser of the type (the Decimal constructor for \<open>Number\<close>,
  \<open>parseDate\<close> for \<open>Date\<close>, any value for \<open>String\<close>) and, for \<open>Number\<close>, not \<open>NaN\<close>.
  For two non-empty values that the parser of the data type both accepts, \<open>!=\<close> is the
  negation of \<open>=\<close>. For two non-empty values of which the parser rejects at least one,
  \<open>=\<close> and \<open>!=\<close> are both false.
\<close>

theorem evaluateCondition_eq_refl_neq_negation:
  "(isEmptyVal v \<or> wellTyped dataType v \<longrightarrow> evaluateCondition v ''='' v dataType)
   \<and> (\<not> isEmptyVal a \<and> \<not> isEmptyVal b \<and> accepted dataType a \<and> accepted dataType b \<longrightarrow>
        evaluateCondition a ''!='' b dataType = (\<not> evaluateCondition a ''='' b dataType))
   \<and> (\<not> isEmptyVal a \<and> \<not> isEmptyVal b \<and> (\<not> accepted dataType a \<or> \<not> accepted dataType b) \<longrightarrow>
        \<not> evaluateCondition a ''='' b dataType \<and> \<not> evaluateCondition a ''!='' b dataType)"
  using evaluateCondition_eq_refl [of v dataType]
    evaluateCondition_neq_negation [of a b dataType]
    evaluateCondition_not_accepted [of a b dataType]
  by blast

theorem evaluateCondition_eq_refl_neq_negation_witness:
  "wellTyped ''Number'' (JStr ''12.50'')
   \<and> evaluateCondition (JStr ''12.50'') ''='' (JStr ''12.50'') ''Number''
   \<and> evaluateCondition JNull ''='' JNull ''Date''
   \<and> \<not> isEmptyVal (JStr ''12.50'') \<and> \<not> isEmptyVal (JStr ''NaN'')
   \<and> accepted ''Number'' (JStr ''12.50'') \<and> accepted ''Number'' (JStr ''NaN'')
   \<and> evaluateCondition (JStr ''NaN'') ''!='' (JStr ''12.50'') ''Number''
   \<and> \<not> evaluateCondition (JStr ''NaN'') ''='' (JStr ''12.50'') ''Number''
   \<and> \<not> isEmptyVal (JStr ''2024-13-01'') \<and> \<not> isEmptyVal (JStr ''2024-12-01'')
   \<and> \<not> accepted ''Date'' (JStr ''2024-13-01'')
   \<and> \<not> evaluateCondition (JStr ''2024-13-01'') ''='' (JStr ''2024-12-01'') ''Date''
   \<and> \<not> evaluateCondition (JStr ''2024-13-01'') ''!='' (JStr ''2024-12-01'') ''Date''"
proof -
  have w: "wellTyped ''Number'' (JStr ''12.50'')" by code_simp
  have n: "\<not> isEmptyVal (JStr ''12.50'')" "\<not> isEmptyVal (JStr ''NaN'')"
    "\<not> isEmptyVal (JStr ''2024-13-01'')" "\<not> isEmptyVal (JStr ''2024-12-01'')"
    "isEmptyVal JNull"
    by (simp_all add: isEmptyVal_def)
  have a: "accepted ''Number'' (JStr ''12.50'')" "accepted ''Number'' (JStr ''NaN'')"
    "\<not> accepted ''Date'' (JStr ''2024-13-01'')"
    by code_simp+
  have e: "\<not> evaluateCondition (JStr ''NaN'') ''='' (JStr ''12.50'') ''Number''"
    by code_simp
  show ?thesis
    using w n a e
      evaluateCondition_eq_refl_neq_negation
        [of "JStr ''12.50''" "''Number''" "JStr ''NaN''" "JStr ''12.50''"]
      evaluateCondition_eq_refl_neq_negation
        [of JNull "''Date''" "JStr ''2024-13-01''" "JStr ''2024-12-01''"]
    by blast
qed

text \<open>
  Claim C9 as stated fails. On the non-empty values \<open>abc\<close> and \<open>1\<close> with the data type
  \<open>Number\<close> the Decimal constructor raises, the error is caught, and both \<open>=\<close> and
  \<open>!=\<close> answer false. And \<open>=\<close> is false between the value \<open>NaN\<close>, which the constructor
  accepts, and itself.
\<close>

theorem evaluateCondition_neq_not_negation_counterexample:
  "\<not> isEmptyVal (JStr ''abc'') \<and> \<not> isEmptyVal (JStr ''1'')
   \<and> evaluateCondition (JStr ''abc'') ''!='' (JStr ''1'') ''Number''
        \<noteq> (\<not> evaluateCondition (JStr ''abc'') ''='' (JStr ''1'') ''Number'')
   \<and> accepted ''Number'' (JStr ''NaN'')
   \<and> evaluateCondition (JStr ''NaN'') ''='' (JStr ''NaN'') ''Number'' = False"
  by code_simp

subsection \<open>Hierarchy lookup\<close>

lemma compareDates_le_0: "compareDates a b \<le> 0 \<longleftrightarrow> dateLe a b"
  by (auto simp: compareDates_def dateLe_def)

lemma compareDates_ge_0: "compareDates a b \<ge> 0 \<longleftrightarrow> dateLe b a"
  by (auto simp: compareDates_def dateLe_def)

lemma findManagerLoop_Cons:
  "findManagerLoop agentId (toUpperCase role) (row # rows) schemeStart runAsOf
     = (if validCandidate agentId role schemeStart runAsOf row then rowManager row
        else findManagerLoop agentId (toUpperCase role) rows schemeStart runAsOf)"
proof (cases "parseDate (safeGet row ''ReportsFrom'' JUndefined)")
  case None
  then show ?thesis
    by (simp add: validCandidate_def windowOverlaps_def Let_def)
next
  case f: (Some reportsFrom)
  show ?thesis
  proof (cases "parseDate (safeGet row ''ReportsToEnd'' JUndefined)")
    case None
    then show ?thesis using f
      by (simp add: validCandidate_def windowOverlaps_def Let_def)
  next
    case (Some reportsToEnd)
    then show ?thesis using f
      by (simp add: validCandidate_def windowOverlaps_def rowMatches_def rowManager_def
          Let_def compareDates_le_0 compareDates_ge_0)
  qed
qed

lemma findManagerLoop_find:
  "findManagerLoop agentId (toUpperCase role) rows schemeStart runAsOf
     = (case find (validCandidate agentId role schemeStart runAsOf) rows of
          None \<Rightarrow> None
        | Some row \<Rightarrow> rowManager row)"
proof (induction rows)
  case Nil
  then show ?case by simp
next
  case (Cons row rows)
  then show ?case by (simp only: findManagerLoop_Cons find.simps split: if_splits) simp
qed

lemma find_None_iff_no: "find P xs = None \<longleftrightarrow> (\<forall>x \<in> set xs. \<not> P x)"
  by (induction xs) auto

lemma find_Some_holds: "find P xs = Some x \<Longrightarrow> P x \<and> x \<in> set xs"
  by (induction xs) (auto split: if_splits)

lemma findManager_guard:
  "agentId = '''' \<or> role = '''' \<Longrightarrow> findManager agentId role rows schemeStart runAsOf = None"
  by (auto simp: findManager_def)

lemma findManager_find:
  assumes "agentId \<noteq> ''''" and "role \<noteq> ''''"
  shows "findManager agentId role rows (Some schemeStart) (Some runAsOf)
           = (case find (validCandidate agentId role schemeStart runAsOf) rows of
                None \<Rightarrow> None
              | Some row \<Rightarrow> rowManager row)"
  using assms by (simp add: findManager_def findManagerLoop_find)

lemma findManager_none:
  assumes "agentId \<noteq> ''''" and "role \<noteq> ''''"
    and "\<forall>row \<in> set rows. \<not> windowOverlaps schemeStart runAsOf row"
  shows "findManager agentId role rows (Some schemeStart) (Some runAsOf) = None"
proof -
  have "\<forall>row \<in> set rows. \<not> validCandidate agentId role schemeStart runAsOf row"
    using assms(3) by (simp add: validCandidate_def)
  then have "find (validCandidate agentId role schemeStart runAsOf) rows = None"
    by (simp add: find_None_iff_no)
  then show ?thesis using findManager_find [OF assms(1,2)] by simp
qed

lemma findManager_some:
  assumes "agentId \<noteq> ''''" and "role \<noteq> ''''"
    and "\<exists>row \<in> set rows. validCandidate agentId role schemeStart runAsOf row"
  shows "findManager agentId role rows (Some schemeStart) (Some runAsOf) \<noteq> None"
proof -
  let ?P = "validCandidate agentId role schemeStart runAsOf"
  from assms(3) have "find ?P rows \<noteq> None" by (simp add: find_None_iff_no)
  then obtain row where f: "find ?P rows = Some row" by auto
  then have "?P row" using find_Some_holds by fastforce
  then have "rowManager row \<noteq> None" by (simp add: validCandidate_def)
  then show ?thesis using findManager_find [OF assms(1,2), of rows schemeStart runAsOf] f
    by simp
qed

text \<open>
  Claim C6, as amended. For an empty agent id or an empty role \<open>findManager\<close> returns
  none, whatever the hierarchy and the dates. For a non-empty agent id and a non-empty
  role it returns the trimmed manager id of the first row, in input order, that matches
  the agent (the trimmed \<open>AgentID\<close> is the agent id) and the role (the trimmed \<open>Level\<close>,
  case-insensitively), whose window satisfies \<open>reportsFrom \<le> runAsOf\<close> and
  \<open>reportsToEnd \<ge> schemeStart\<close>, and whose manager id is not empty; it returns none
  when no row's window overlaps the run window, and it returns a manager whenever some
  matching row with a non-empty manager id has an overlapping window.
\<close>

theorem findManager_first_valid:
  "(agentId = '''' \<or> role = '''' \<longrightarrow>
      findManager agentId role rows schemeEffectiveFrom runAsDate = None)
   \<and> (agentId \<noteq> '''' \<and> role \<noteq> '''' \<longrightarrow>
        findManager agentId role rows (Some schemeStart) (Some runAsOf)
          = (case find (validCandidate agentId role schemeStart runAsOf) rows of
               None \<Rightarrow> None
             | Some row \<Rightarrow> rowManager row)
        \<and> ((\<forall>row \<in> set rows. \<not> windowOverlaps schemeStart runAsOf row) \<longrightarrow>
             findManager agentId role rows (Some schemeStart) (Some runAsOf) = None)
        \<and> ((\<exists>row \<in> set rows. validCandidate agentId role schemeStart runAsOf row) \<longrightarrow>
             findManager agentId role rows (Some schemeStart) (Some runAsOf) \<noteq> None))"
  using findManager_guard [of agentId role rows schemeEffectiveFrom runAsDate]
    findManager_find [of agentId role rows schemeStart runAsOf]
    findManager_none [of agentId role rows schemeStart runAsOf]
    findManager_some [of agentId role rows schemeStart runAsOf]
  by blast

theorem findManager_first_valid_witness:
  "validCandidate ''101'' ''l1'' exSchemeStart exRunDate exRowA
   \<and> findManager ''101'' ''l1'' [exRowOld, exRowA] (Some exSchemeStart) (Some exRunDate)
        = Some ''MGR_A''
   \<and> \<not> windowOverlaps exSchemeStart exRunDate exRowOld
   \<and> findManager ''101'' ''l1'' [exRowOld] (Some exSchemeStart) (Some exRunDate) = None
   \<and> findManager '''' ''L1'' [exRowNoAgent] (Some exSchemeStart) (Some exRunDate) = None
   \<and> findManager ''101'' '''' [exRowA] (Some exSchemeStart) (Some exRunDate) = None"
proof -
  have ne: "''101'' \<noteq> '''' \<and> ''l1'' \<noteq> ''''" by simp
  have v: "validCandidate ''101'' ''l1'' exSchemeStart exRunDate exRowA" by code_simp
  have o: "\<not> windowOverlaps exSchemeStart exRunDate exRowOld" by code_simp
  have f: "find (validCandidate ''101'' ''l1'' exSchemeStart exRunDate) [exRowOld, exRowA]
             = Some exRowA"
    using v o by (simp add: validCandidate_def)
  have m: "rowManager exRowA = Some ''MGR_A''" by code_simp
  have a: "findManager ''101'' ''l1'' [exRowOld, exRowA] (Some exSchemeStart) (Some exRunDate)
             = Some ''MGR_A''"
    using findManager_first_valid
      [of "''101''" "''l1''" "[exRowOld, exRowA]" None None exSchemeStart exRunDate] ne f m
    by simp
  have "\<forall>row \<in> set [exRowOld]. \<not> windowOverlaps exSchemeStart exRunDate row"
    using o by simp
  then have b: "findManager ''101'' ''l1'' [exRowOld] (Some exSchemeStart) (Some exRunDate) = None"
    using findManager_first_valid
      [of "''101''" "''l1''" "[exRowOld]" None None exSchemeStart exRunDate] ne
    by blast
  have c: "findManager '''' ''L1'' [exRowNoAgent] (Some exSchemeStart) (Some exRunDate) = None"
    using findManager_first_valid
      [of "''''" "''L1''" "[exRowNoAgent]" "Some exSchemeStart" "Some exRunDate"]
    by simp
  have d: "findManager ''101'' '''' [exRowA] (Some exSchemeStart) (Some exRunDate) = None"
    using findManager_first_valid
      [of "''101''" "''''" "[exRowA]" "Some exSchemeStart" "Some exRunDate"]
    by simp
  show ?thesis using v o a b c d by simp
qed

text \<open>
  Claim C6 as stated fails in two places. A row that matches the agent and the role and
  whose window overlaps the run window, but whose manager id is empty, gives no manager;
  and for the empty agent id the guard at the head of \<open>findManager\<close> returns none even
  though a row with an empty \<open>AgentID\<close>, an overlapping window and a manager matches.
\<close>

theorem findManager_overlap_no_manager_counterexample:
  "rowMatches ''101'' ''L1'' exRowNoManager
   \<and> windowOverlaps exSchemeStart exRunDate exRowNoManager
   \<and> findManager ''101'' ''L1'' [exRowNoManager] (Some exSchemeStart) (Some exRunDate) = None
   \<and> validCandidate '''' ''L1'' exSchemeStart exRunDate exRowNoAgent
   \<and> findManager '''' ''L1'' [exRowNoAgent] (Some exSchemeStart) (Some exRunDate) = None"
  by code_simp

subsection \<open>Record processing\<close>

lemma applyExclusionRules_find:
  "applyExclusionRules e rules record = find (exclusionFires e record) rules"
  by (induction rules)
    (auto simp: exclusionFires_def conditionTrue_def split: option.splits)

lemma applyAdjustment_numeric:
  "numeric (applyAdjustment agentId record rule st)
     = adjustmentEffect_spec (arule_adjustment rule) (numeric st)"
  by (simp add: numeric_def applyAdjustment_def adjustmentEffect_spec_def Let_def)

lemma applyAdjustment_logs:
  "as_logs (applyAdjustment agentId record rule st)
     = as_logs st @ [adjustmentLog agentId record rule]"
  by (simp add: applyAdjustment_def adjustmentLog_def Let_def)

lemma applyAdjustment_applied:
  "as_adjustmentApplied (applyAdjustment agentId record rule st) = Some (arule_id rule)"
  by (simp add: applyAdjustment_def Let_def)

lemma applyAdjustmentRules_Cons:
  "applyAdjustmentRules e agentId (rule # rules) record st
     = applyAdjustmentRules e agentId rules record
         (if adjustmentFires e record rule then applyAdjustment agentId record rule st else st)"
  by (simp add: adjustmentFires_def conditionTrue_def split: option.splits)

lemma applyAdjustmentRules_numeric:
  "numeric (applyAdjustmentRules e agentId rules record st)
     = runningAdjustment_spec
         (map arule_adjustment (filter (adjustmentFires e record) rules)) (numeric st)"
proof (induction rules arbitrary: st)
  case Nil
  then show ?case by (simp add: runningAdjustment_spec_def)
next
  case (Cons rule rules)
  show ?case
    unfolding applyAdjustmentRules_Cons Cons.IH
    by (simp add: runningAdjustment_spec_def applyAdjustment_numeric)
qed

lemma applyAdjustmentRules_logs:
  "as_logs (applyAdjustmentRules e agentId rules record st)
     = as_logs st @ map (adjustmentLog agentId record) (filter (adjustmentFires e record) rules)"
proof (induction rules arbitrary: st)
  case Nil
  then show ?case by simp
next
  case (Cons rule rules)
  show ?case
    unfolding applyAdjustmentRules_Cons Cons.IH
    by (simp add: applyAdjustment_logs)
qed

lemma applyAdjustmentRules_applied:
  "as_adjustmentApplied (applyAdjustmentRules e agentId rules record st)
     = (if filter (adjustmentFires e record) rules = [] then as_adjustmentApplied st
        else Some (arule_id (last (filter (adjustmentFires e record) rules))))"
proof (induction rules arbitrary: st)
  case Nil
  then show ?case by simp
next
  case (Cons rule rules)
  show ?case
    unfolding applyAdjustmentRules_Cons Cons.IH
    by (simp add: applyAdjustment_applied)
qed

lemma applyAdjustmentRules_none:
  "filter (adjustmentFires e record) rules = []
     \<Longrightarrow> applyAdjustmentRules e agentId rules record st = st"
proof (induction rules arbitrary: st)
  case Nil
  then show ?case by simp
next
  case (Cons rule rules)
  then show ?case
    unfolding applyAdjustmentRules_Cons by (simp split: if_splits)
qed

lemma processRecord_error:
  "originalAmountOf e record = None \<Longrightarrow> processRecord e agentId record = Inl DecimalError"
  by (simp add: processRecord_def originalAmountOf_def)

lemma processRecord_excluded:
  assumes "originalAmountOf e record = Some originalAmount"
    and "find (exclusionFires e record) (exclusionRules (env_scheme e)) = Some rule"
  shows "processRecord e agentId record =
     Inr \<lparr>ro_processed =
            \<lparr>pr_record = record,
             pr_status =
               \<lparr>ps_originalAmount = formatDecimal originalAmount 2,
                ps_rateMultiplier = formatDecimal (DFin 1) 4,
                ps_adjustedAmount = formatDecimal (DFin 0) 2,
                ps_isExcluded = True,
                ps_exclusionReason = Some (rule_id rule),
                ps_adjustmentApplied = None,
                ps_customRuleApplied = False\<rparr>\<rparr>,
          ro_logs = [exclusionLog agentId record rule],
          ro_isExcluded = True,
          ro_adjustedAmount = DFin 0\<rparr>"
  using assms
  by (simp add: processRecord_def originalAmountOf_def applyExclusionRules_find Let_def
      exclusionLog_def)

lemma processRecord_not_excluded:
  assumes "originalAmountOf e record = Some originalAmount"
    and "find (exclusionFires e record) (exclusionRules (env_scheme e)) = None"
  shows "\<exists>out. processRecord e agentId record = Inr out
     \<and> \<not> ro_isExcluded out
     \<and> ro_adjustedAmount out
         = decimalTimes
             (fst (runningAdjustment_spec (map arule_adjustment (firedAdjustments e record))
                     (originalAmount, DFin 1)))
             (snd (runningAdjustment_spec (map arule_adjustment (firedAdjustments e record))
                     (originalAmount, DFin 1)))
     \<and> ro_logs out = map (adjustmentLog agentId record) (firedAdjustments e record)
     \<and> ps_isExcluded (pr_status (ro_processed out)) = False
     \<and> ps_adjustedAmount (pr_status (ro_processed out))
         = formatDecimal (ro_adjustedAmount out) 2
     \<and> ps_rateMultiplier (pr_status (ro_processed out))
         = formatDecimal
             (snd (runningAdjustment_spec (map arule_adjustment (firedAdjustments e record))
                     (originalAmount, DFin 1))) 4
     \<and> ps_adjustmentApplied (pr_status (ro_processed out))
         = (if firedAdjustments e record = [] then None
            else Some (arule_id (last (firedAdjustments e record))))"
proof -
  let ?st0 = "\<lparr>as_currentAmount = originalAmount, as_rateMultiplier = DFin 1,
               as_adjustmentApplied = None, as_logs = []\<rparr>"
  let ?st = "applyAdjustmentRules e agentId (adjustmentRules (env_scheme e)) record ?st0"
  have n: "numeric ?st
     = runningAdjustment_spec (map arule_adjustment (firedAdjustments e record))
         (originalAmount, DFin 1)"
    by (simp add: applyAdjustmentRules_numeric firedAdjustments_def) (simp add: numeric_def)
  have l: "as_logs ?st = map (adjustmentLog agentId record) (firedAdjustments e record)"
    by (simp add: applyAdjustmentRules_logs firedAdjustments_def)
  have a: "as_currentAmount ?st = fst (numeric ?st)" "as_rateMultiplier ?st = snd (numeric ?st)"
    by (simp_all add: numeric_def)
  have ap: "as_adjustmentApplied ?st
     = (if firedAdjustments e record = [] then None
        else Some (arule_id (last (firedAdjustments e record))))"
    by (simp add: applyAdjustmentRules_applied firedAdjustments_def)
  show ?thesis
    using assms l ap a [unfolded n]
    by (simp add: processRecord_def originalAmountOf_def applyExclusionRules_find Let_def)
qed

lemma find_cases: "find P xs = None \<or> (\<exists>x. find P xs = Some x)"
  by (cases "find P xs") auto

subsection \<open>The loops over records and agents\<close>


lemma processRecords_raw:
  "processRecords e agentId records st = Inr st'
     \<Longrightarrow> \<exists>outs. list_all2 (\<lambda>r out. processRecord e agentId r = Inr out) records outs
            \<and> ag_rawRecordLevelData st' = ag_rawRecordLevelData st @ map ro_processed outs
            \<and> ag_ruleLogs st' = ag_ruleLogs st @ concat (map ro_logs outs)"
proof (induction records arbitrary: st)
  case Nil
  then show ?case by simp
next
  case (Cons r records)
  then obtain out where o: "processRecord e agentId r = Inr out"
    and rest: "processRecords e agentId records (recordStep out st) = Inr st'"
    by (auto split: sum.splits)
  from Cons.IH [OF rest] obtain outs where
    a: "list_all2 (\<lambda>r out. processRecord e agentId r = Inr out) records outs"
    and b: "ag_rawRecordLevelData st'
              = ag_rawRecordLevelData (recordStep out st) @ map ro_processed outs"
    and c: "ag_ruleLogs st' = ag_ruleLogs (recordStep out st) @ concat (map ro_logs outs)"
    by blast
  have "list_all2 (\<lambda>r out. processRecord e agentId r = Inr out) (r # records) (out # outs)"
    using o a by simp
  moreover have "ag_rawRecordLevelData st'
      = ag_rawRecordLevelData st @ map ro_processed (out # outs)"
    using b by (simp add: recordStep_def)
  moreover have "ag_ruleLogs st' = ag_ruleLogs st @ concat (map ro_logs (out # outs))"
    using c by (simp add: recordStep_def)
  ultimately show ?case by blast
qed

lemma applyCreditSplits_logs:
  "applyCreditSplits e agentId basePayout rows splits st = Inr st'
     \<Longrightarrow> \<exists>extra. ss_logs st' = ss_logs st @ extra
            \<and> (\<forall>x \<in> set extra. log_recordId x = JUndefined \<and> log_agentId x = agentId
                  \<and> log_ruleType x = CreditSplit)"
proof (induction splits arbitrary: st)
  case Nil
  then show ?case by simp
next
  case (Cons split splits)
  show ?case
  proof (cases "split_role split = '''' \<or> decimalLte (splitPercentage split) (DFin 0)")
    case True
    then show ?thesis using Cons by (simp add: Let_def)
  next
    case False
    show ?thesis
    proof (cases "findManager agentId (split_role split) rows (Some (env_schemeStart e))
                    (Some (env_runDate e))")
      case None
      let ?st1 = "st\<lparr>ss_logs := ss_logs st @
                        [\<lparr>log_ruleType = CreditSplit, log_ruleId = split_id split,
                          log_recordId = JUndefined, log_agentId = agentId,
                          log_managerId = None\<rparr>]\<rparr>"
      have "applyCreditSplits e agentId basePayout rows splits ?st1 = Inr st'"
        using Cons.prems False None by (simp add: Let_def)
      from Cons.IH [OF this] show ?thesis by auto
    next
      case (Some managerId)
      let ?amt = "decimalDividedBy (decimalTimes basePayout (splitPercentage split)) (DFin 100)"
      show ?thesis
      proof (cases "decimalGt ?amt (DFin 0)")
        case True
        let ?st1 = "\<lparr>ss_creditDistributions =
                        pushDistribution (ss_creditDistributions st) managerId
                          \<lparr>cd_fromAgent = agentId, cd_role = split_role split,
                           cd_amount = formatDecimal ?amt 2,
                           cd_splitRuleId = split_id split,
                           cd_basePayoutFromAgent = formatDecimal basePayout 2,
                           cd_percentageApplied = formatDecimal (splitPercentage split) 4\<rparr>,
                      ss_logs = ss_logs st @
                        [\<lparr>log_ruleType = CreditSplit, log_ruleId = split_id split,
                          log_recordId = JUndefined, log_agentId = agentId,
                          log_managerId = Some managerId\<rparr>]\<rparr>"
        have "applyCreditSplits e agentId basePayout rows splits ?st1 = Inr st'"
          using Cons.prems False Some True by (simp add: Let_def split: if_splits)
        from Cons.IH [OF this] show ?thesis by auto
      next
        case no: False
        have "applyCreditSplits e agentId basePayout rows splits st = Inr st'"
          using Cons.prems False Some no by (simp add: Let_def)
        from Cons.IH [OF this] show ?thesis .
      qed
    qed
  qed
qed

lemma qualificationLogs_entries:
  "x \<in> set (qualificationLogs e agentId totalAmount)
     \<Longrightarrow> log_recordId x = JUndefined \<and> log_agentId x = agentId
         \<and> log_ruleType x = Qualification"
proof -
  have "checkAgentRules e agentId totalAmount rules = Some x
          \<Longrightarrow> log_recordId x = JUndefined \<and> log_agentId x = agentId
              \<and> log_ruleType x = Qualification" for rules
    by (induction rules) (auto split: option.splits if_splits)
  then show "x \<in> set (qualificationLogs e agentId totalAmount)
     \<Longrightarrow> log_recordId x = JUndefined \<and> log_agentId x = agentId
         \<and> log_ruleType x = Qualification"
    by (auto simp: qualificationLogs_def failedQualification_def split: if_splits option.splits)
qed

text \<open>What one pass of the loop over the agents does to the four collections.\<close>

lemma processAgent_result:
  assumes "processAgent e agentId records res = Inr (res', agentRuleLogs)"
  shows "\<exists>outs extra.
           list_all2 (\<lambda>r out. processRecord e agentId r = Inr out) records outs
         \<and> rawRecordLevelData res' = rawRecordLevelData res @ map ro_processed outs
         \<and> agentRuleLogs = concat (map ro_logs outs) @ extra
         \<and> (\<forall>x \<in> set extra. log_recordId x = JUndefined \<and> log_agentId x = agentId)
         \<and> ruleHitLogs res' = storeAgentLogs (ruleHitLogs res) agentId agentRuleLogs"
proof -
  let ?st0 = "\<lparr>ag_totalCreditedAmount = DFin 0, ag_ruleLogs = [],
               ag_rawRecordLevelData = rawRecordLevelData res\<rparr>"
  from assms obtain ag where ag: "processRecords e agentId records ?st0 = Inr ag"
    by (auto simp: processAgent_def split: sum.splits)
  from processRecords_raw [OF ag] obtain outs where
    o1: "list_all2 (\<lambda>r out. processRecord e agentId r = Inr out) records outs"
    and o2: "ag_rawRecordLevelData ag = rawRecordLevelData res @ map ro_processed outs"
    and o3: "ag_ruleLogs ag = concat (map ro_logs outs)"
    by auto
  let ?total = "ag_totalCreditedAmount ag"
  let ?logs1 = "ag_ruleLogs ag @ qualificationLogs e agentId ?total"
  let ?payout = "if agentQualified e agentId ?total
             then calculateMarginalTieredPayout ?total
                    (case payoutTiers (env_scheme e) of None \<Rightarrow> [] | Some tiers \<Rightarrow> tiers)
             else Inr (DFin 0)"
  from assms ag obtain bp where bp: "?payout = Inr bp"
    by (cases ?payout) (auto simp: processAgent_def Let_def)
  let ?rows = "hierarchyRows (env_hierarchyData e)"
  let ?s0 = "\<lparr>ss_creditDistributions = creditDistributions res, ss_logs = ?logs1\<rparr>"
  let ?na = "\<lparr>log_ruleType = CreditSplit, log_ruleId = ''N/A'', log_recordId = JUndefined,
              log_agentId = agentId, log_managerId = None\<rparr>"
  let ?split = "if decimalGt bp (DFin 0) \<and> creditSplits (env_scheme e) \<noteq> [] \<and> ?rows \<noteq> []
                then applyCreditSplits e agentId bp ?rows (creditSplits (env_scheme e)) ?s0
                else if decimalGt bp (DFin 0) \<and> creditSplits (env_scheme e) \<noteq> []
                        \<and> \<not> ?rows \<noteq> []
                then Inr \<lparr>ss_creditDistributions = creditDistributions res,
                          ss_logs = ?logs1 @ [?na]\<rparr>
                else Inr ?s0"
  have pa: "processAgent e agentId records res
      = (case ?split of
           Inl err \<Rightarrow> Inl err
         | Inr ss \<Rightarrow>
             Inr (\<lparr>agentPayouts = (agentPayouts res)(agentId \<mapsto> formatDecimal bp 2),
                   ruleHitLogs = storeAgentLogs (ruleHitLogs res) agentId (ss_logs ss),
                   creditDistributions = ss_creditDistributions ss,
                   rawRecordLevelData = ag_rawRecordLevelData ag\<rparr>,
                  ss_logs ss))"
    unfolding processAgent_def ag Let_def sum.case bp by simp
  from assms obtain ss where ss: "?split = Inr ss"
    and r1: "rawRecordLevelData res' = ag_rawRecordLevelData ag"
    and r2: "agentRuleLogs = ss_logs ss"
    and r3: "ruleHitLogs res' = storeAgentLogs (ruleHitLogs res) agentId (ss_logs ss)"
    unfolding pa by (cases ?split) auto
  have "\<exists>extra. ss_logs ss = ?logs1 @ extra
          \<and> (\<forall>x \<in> set extra. log_recordId x = JUndefined \<and> log_agentId x = agentId)"
  proof (cases "decimalGt bp (DFin 0) \<and> creditSplits (env_scheme e) \<noteq> [] \<and> ?rows \<noteq> []")
    case True
    then have "applyCreditSplits e agentId bp ?rows (creditSplits (env_scheme e)) ?s0 = Inr ss"
      using ss by simp
    from applyCreditSplits_logs [OF this] show ?thesis by auto
  next
    case False
    then show ?thesis using ss by (auto split: if_splits)
  qed
  then obtain extra where e1: "ss_logs ss = ?logs1 @ extra"
    and e2: "\<forall>x \<in> set extra. log_recordId x = JUndefined \<and> log_agentId x = agentId"
    by blast
  let ?extra = "qualificationLogs e agentId ?total @ extra"
  have A: "agentRuleLogs = concat (map ro_logs outs) @ ?extra"
    using r2 e1 o3 by simp
  have B: "\<forall>x \<in> set ?extra. log_recordId x = JUndefined \<and> log_agentId x = agentId"
    using e2 qualificationLogs_entries by auto
  have C: "rawRecordLevelData res' = rawRecordLevelData res @ map ro_processed outs"
    using r1 o2 by simp
  have D: "ruleHitLogs res' = storeAgentLogs (ruleHitLogs res) agentId agentRuleLogs"
    using r2 r3 by simp
  show ?thesis
    by (rule exI [of _ outs], rule exI [of _ ?extra]) (use o1 A B C D in blast)
qed

lemma list_all2_rightD:
  "list_all2 P xs ys \<Longrightarrow> y \<in> set ys \<Longrightarrow> \<exists>x \<in> set xs. P x y"
  by (induction rule: list_all2_induct) auto

lemma processRecord_logs:
  assumes "processRecord e agentId r = Inr out" and "x \<in> set (ro_logs out)"
  shows "log_agentId x = agentId \<and> log_recordId x = jsGetProp r ''_recordId''"
proof (cases "originalAmountOf e r")
  case None
  then show ?thesis using assms processRecord_error by fastforce
next
  case (Some originalAmount)
  show ?thesis
  proof (cases "find (exclusionFires e r) (exclusionRules (env_scheme e))")
    case None
    from processRecord_not_excluded [OF Some None, of agentId] assms
    have "ro_logs out = map (adjustmentLog agentId r) (firedAdjustments e r)" by auto
    then show ?thesis using assms(2) by (auto simp: adjustmentLog_def)
  next
    case (Some rule)
    from processRecord_excluded [OF \<open>originalAmountOf e r = Some originalAmount\<close> Some,
        of agentId] assms
    have "ro_logs out = [exclusionLog agentId r rule]" by auto
    then show ?thesis using assms(2) by (auto simp: exclusionLog_def)
  qed
qed

lemma storeAgentLogs_apply:
  "storeAgentLogs logs agentId ls a
     = (if a = agentId then appendLogs (logs a) ls else logs a)"
  by (simp add: storeAgentLogs_def appendLogs_def)

lemma appendLogs_append: "appendLogs (appendLogs m xs) ys = appendLogs m (xs @ ys)"
  by (simp add: appendLogs_def split: option.splits)

lemma appendLogs_Nil: "appendLogs m [] = m"
  by (simp add: appendLogs_def)

lemma processAgents_ruleHitLogs:
  "processAgents e g keys res0 = Inr res
     \<Longrightarrow> ruleHitLogs res a
           = appendLogs (ruleHitLogs res0 a) (logsOfAgent a (emittedLogs e g keys res0))"
proof (induction keys arbitrary: res0)
  case Nil
  then show ?case by (simp add: logsOfAgent_def appendLogs_Nil)
next
  case (Cons k keys)
  show ?case
  proof (cases "k = ''UNKNOWN_AGENT''")
    case True
    then show ?thesis using Cons by simp
  next
    case False
    then obtain res1 ls where
      p: "processAgent e k (recordsOfAgent g k) res0 = Inr (res1, ls)"
      and rest: "processAgents e g keys res1 = Inr res"
      using Cons.prems by (auto split: sum.splits)
    from processAgent_result [OF p]
    have s: "ruleHitLogs res1 = storeAgentLogs (ruleHitLogs res0) k ls" by blast
    have em: "emittedLogs e g (k # keys) res0 = (k, ls) # emittedLogs e g keys res1"
      using False p by simp
    show ?thesis
      unfolding Cons.IH [OF rest] em s storeAgentLogs_apply
      by (simp add: logsOfAgent_def appendLogs_append appendLogs_Nil)
  qed
qed

lemma emittedLogs_entries:
  assumes "(a, ls) \<in> set (emittedLogs e g keys res0)" and "x \<in> set ls"
  shows "log_agentId x = a
         \<and> (log_recordId x = JUndefined
             \<or> (\<exists>r \<in> set (recordsOfAgent g a). log_recordId x = jsGetProp r ''_recordId''))"
  using assms
proof (induction keys arbitrary: res0)
  case Nil
  then show ?case by simp
next
  case (Cons k keys)
  show ?case
  proof (cases "k = ''UNKNOWN_AGENT''")
    case True
    then show ?thesis using Cons by simp
  next
    case False
    show ?thesis
    proof (cases "processAgent e k (recordsOfAgent g k) res0")
      case (Inl err)
      then show ?thesis using Cons.prems False by simp
    next
      case (Inr pr)
      obtain res1 kls where pr: "pr = (res1, kls)" by (cases pr)
      have em: "emittedLogs e g (k # keys) res0 = (k, kls) # emittedLogs e g keys res1"
        using False Inr pr by simp
      from Cons.prems(1) [unfolded em]
      consider (here) "a = k" "ls = kls" | (later) "(a, ls) \<in> set (emittedLogs e g keys res1)"
        by auto
      then show ?thesis
      proof cases
        case here
        from processAgent_result [OF Inr [unfolded pr]] obtain outs extra where
          o: "list_all2 (\<lambda>r out. processRecord e k r = Inr out) (recordsOfAgent g k) outs"
          and l: "kls = concat (map ro_logs outs) @ extra"
          and x: "\<forall>x \<in> set extra. log_recordId x = JUndefined \<and> log_agentId x = k"
          by blast
        from Cons.prems(2) here l
        consider (rec) "x \<in> set (concat (map ro_logs outs))" | (ext) "x \<in> set extra" by auto
        then show ?thesis
        proof cases
          case rec
          then obtain out where oo: "out \<in> set outs" and xo: "x \<in> set (ro_logs out)" by auto
          from list_all2_rightD [OF o oo] obtain r where "r \<in> set (recordsOfAgent g k)"
            and "processRecord e k r = Inr out"
            by blast
          then show ?thesis using processRecord_logs xo here by blast
        next
          case ext
          then show ?thesis using x here by simp
        qed
      next
        case later
        then show ?thesis using Cons.IH Cons.prems(2) by simp
      qed
    qed
  qed
qed

lemma processAgents_raw:
  assumes "processAgents e g keys res0 = Inr res"
    and "p \<in> set (rawRecordLevelData res)"
  shows "p \<in> set (rawRecordLevelData res0)
         \<or> (\<exists>a r out. a \<in> set keys \<and> r \<in> set (recordsOfAgent g a)
               \<and> processRecord e a r = Inr out \<and> p = ro_processed out)"
  using assms
proof (induction keys arbitrary: res0)
  case Nil
  then show ?case by simp
next
  case (Cons k keys)
  show ?case
  proof (cases "k = ''UNKNOWN_AGENT''")
    case True
    then show ?thesis using Cons by auto
  next
    case False
    then obtain res1 ls where
      pa: "processAgent e k (recordsOfAgent g k) res0 = Inr (res1, ls)"
      and rest: "processAgents e g keys res1 = Inr res"
      using Cons.prems by (auto split: sum.splits)
    from processAgent_result [OF pa] obtain outs where
      o: "list_all2 (\<lambda>r out. processRecord e k r = Inr out) (recordsOfAgent g k) outs"
      and raw: "rawRecordLevelData res1 = rawRecordLevelData res0 @ map ro_processed outs"
      by blast
    from Cons.IH [OF rest Cons.prems(2)]
    consider (old) "p \<in> set (rawRecordLevelData res1)"
      | (new) "\<exists>a r out. a \<in> set keys \<and> r \<in> set (recordsOfAgent g a)
                 \<and> processRecord e a r = Inr out \<and> p = ro_processed out"
      by blast
    then show ?thesis
    proof cases
      case old
      then consider "p \<in> set (rawRecordLevelData res0)" | "p \<in> ro_processed ` set outs"
        using raw by auto
      then show ?thesis
      proof cases
        case 1
        then show ?thesis by simp
      next
        case 2
        then obtain out where oo: "out \<in> set outs" and pp: "p = ro_processed out" by auto
        from list_all2_rightD [OF o oo] obtain r where "r \<in> set (recordsOfAgent g k)"
          and "processRecord e k r = Inr out"
          by blast
        then show ?thesis using pp by auto
      qed
    next
      case new
      then show ?thesis by auto
    qed
  qed
qed

subsection \<open>Record identities\<close>

lemma digitVal_showDigit: "digitVal (showDigit n) = n mod 10"
proof -
  have "n mod 10 < 10" by simp
  then consider "n mod 10 = 0" | "n mod 10 = 1" | "n mod 10 = 2" | "n mod 10 = 3"
    | "n mod 10 = 4" | "n mod 10 = 5" | "n mod 10 = 6" | "n mod 10 = 7" | "n mod 10 = 8"
    | "n mod 10 = 9"
    by atomize_elim arith
  then show ?thesis
    by cases (simp_all add: digitVal_def showDigit_def)
qed

lemma parseDigits_snoc: "parseDigits (s @ [c]) = 10 * parseDigits s + digitVal c"
  by (simp add: parseDigits_def)

lemma parseDigits_showNat: "parseDigits (showNat n) = n"
proof (induction n rule: showNat.induct)
  case (1 n)
  show ?case
  proof (cases "n < 10")
    case True
    then show ?thesis
      by (simp add: showNat_small parseDigits_def digitVal_showDigit)
  next
    case False
    then have "parseDigits (showNat n) = 10 * parseDigits (showNat (n div 10)) + n mod 10"
      by (simp add: showNat_big parseDigits_snoc digitVal_showDigit)
    then show ?thesis using 1 False by simp
  qed
qed

lemma showNat_inj: "showNat m = showNat n \<Longrightarrow> m = n"
  by (metis parseDigits_showNat)

lemma recordIdOf_inj: "recordIdOf f i = recordIdOf f j \<Longrightarrow> i = j"
  by (simp add: recordIdOf_def showNat_inj)

lemma map_of_objSet:
  "map_of (objSet kvs k v) k' = (if k' = k then Some v else map_of kvs k')"
  by (induction kvs) auto

lemma recordId_augmentRecord:
  "jsGetProp (augmentRecord f i record) ''_recordId'' = JStr (recordIdOf f i)"
  by (simp add: augmentRecord_def map_of_objSet)

lemma in_indexedRecords:
  "r \<in> set (indexedRecords f xs) \<longleftrightarrow> (\<exists>i < length xs. r = augmentRecord f i (xs ! i))"
proof -
  have "set (enumerate 0 xs) = {(i, xs ! i) | i. i < length xs}"
    by (auto simp: in_set_enumerate_eq)
  then show ?thesis by (auto simp: indexedRecords_def)
qed

subsection \<open>The field map\<close>

lemma addKpiField_sourceField:
  assumes "\<forall>name fi. m name = Some fi \<longrightarrow> fi_sourceField fi \<noteq> ''''"
  shows "\<forall>name fi. addKpiField m f name = Some fi \<longrightarrow> fi_sourceField fi \<noteq> ''''"
  using assms by (auto simp: addKpiField_def)

lemma foldl_addKpiField_sourceField:
  "\<forall>name fi. m name = Some fi \<longrightarrow> fi_sourceField fi \<noteq> ''''
     \<Longrightarrow> \<forall>name fi. foldl addKpiField m fs name = Some fi \<longrightarrow> fi_sourceField fi \<noteq> ''''"
proof (induction fs arbitrary: m)
  case Nil
  then show ?case by simp
next
  case (Cons f fs)
  show ?case
    unfolding foldl_Cons
    by (rule Cons.IH) (rule addKpiField_sourceField [OF Cons.prems])
qed

lemma withDefault_sourceField:
  assumes "\<forall>name fi. m name = Some fi \<longrightarrow> fi_sourceField fi \<noteq> ''''"
    and "fi_sourceField info \<noteq> ''''"
  shows "\<forall>name fi. withDefault n info m name = Some fi \<longrightarrow> fi_sourceField fi \<noteq> ''''"
  using assms by (auto simp: withDefault_def)

lemma buildFieldMap_sourceField:
  assumes "baseMappingComplete bm" and "buildFieldMap scheme bm name = Some fi"
  shows "fi_sourceField fi \<noteq> ''''"
proof -
  let ?m0 = "foldl addKpiField Map.empty (allKpiFields (kpiConfig scheme))"
  have m0: "\<forall>name fi. ?m0 name = Some fi \<longrightarrow> fi_sourceField fi \<noteq> ''''"
    by (rule foldl_addKpiField_sourceField) simp
  have d: "fi_sourceField (defaultField (bm_agentField bm) ''String'' (bm_sourceFile bm)) \<noteq> ''''"
    "fi_sourceField (defaultField (bm_amountField bm) ''Number'' (bm_sourceFile bm)) \<noteq> ''''"
    "fi_sourceField (defaultField (bm_transactionDateField bm) ''Date'' (bm_sourceFile bm))
       \<noteq> ''''"
    using assms(1) by (simp_all add: baseMappingComplete_def defaultField_def)
  note m1 = withDefault_sourceField [OF m0 d(1), of "''Agent''"]
  note m2 = withDefault_sourceField [OF m1 d(2), of "''Amount''"]
  note m3 = withDefault_sourceField [OF m2 d(3), of "''TransactionDate''"]
  show ?thesis using m3 assms(2) unfolding buildFieldMap_def by blast
qed

subsection \<open>Selection\<close>

lemma inDateRange_iff:
  "inDateRange e record
     \<longleftrightarrow> (\<exists>d. recordDate e record = Some d \<and> dateLe (env_schemeStart e) d
               \<and> dateLe d (env_runDate e))"
  by (auto simp: inDateRange_def recordDate_def isEmptyVal_def Let_def compareDates_le_0
      compareDates_ge_0 split: option.splits)

lemma passesRules_iff:
  assumes "\<forall>name fi. env_fieldMap e name = Some fi \<longrightarrow> fi_sourceField fi \<noteq> ''''"
    and "\<forall>rule \<in> set rules. env_fieldMap e (rule_field rule) \<noteq> None"
  shows "passesRules e rules record \<longleftrightarrow> (\<forall>rule \<in> set rules. passesRule e record rule)"
  using assms(2)
proof (induction rules)
  case Nil
  then show ?case by simp
next
  case (Cons rule rules)
  then obtain fi where fi: "env_fieldMap e (rule_field rule) = Some fi" by auto
  then have "fi_sourceField fi \<noteq> ''''" using assms(1) by blast
  then show ?case using Cons fi by (simp add: passesRule_def)
qed

lemma qualifiedRecords_iff:
  assumes "\<forall>name fi. env_fieldMap e name = Some fi \<longrightarrow> fi_sourceField fi \<noteq> ''''"
  shows "record \<in> set (qualifiedRecords e baseData) \<longleftrightarrow>
           record \<in> set (indexedRecords (env_baseDataFile e) baseData)
           \<and> (\<exists>d. recordDate e record = Some d \<and> dateLe (env_schemeStart e) d
                  \<and> dateLe d (env_runDate e))
           \<and> (\<forall>rule \<in> set (qualificationRules (env_scheme e)).
                  isRecordLevelRule e rule \<longrightarrow> passesRule e record rule)"
proof -
  have "\<forall>rule \<in> set (recordLevelQualRules e). env_fieldMap e (rule_field rule) \<noteq> None"
    by (auto simp: recordLevelQualRules_def isRecordLevelRule_def split: option.splits)
  from passesRules_iff [OF assms this]
  have "passesRules e (recordLevelQualRules e) record
          \<longleftrightarrow> (\<forall>rule \<in> set (recordLevelQualRules e). passesRule e record rule)" .
  then show ?thesis
    by (auto simp: qualifiedRecords_def dateFilteredRecords_def inDateRange_iff
        recordLevelQualRules_def)
qed

subsection \<open>Grouping\<close>

lemma recordsOfAgent_pushRecord:
  "recordsOfAgent (pushRecord acc k r) a
     = (if a = k then recordsOfAgent acc a @ [r] else recordsOfAgent acc a)"
  by (induction acc) (auto simp: recordsOfAgent_def)

lemma groupByAgent_records:
  "groupByAgent e records acc = Inr g \<Longrightarrow> r \<in> set (recordsOfAgent g a)
     \<Longrightarrow> r \<in> set records \<or> r \<in> set (recordsOfAgent acc a)"
proof (induction records arbitrary: acc)
  case Nil
  then show ?case by simp
next
  case (Cons x records)
  let ?k = "recordAgentId e x"
  from Cons.prems(1) have g: "groupByAgent e records (pushRecord acc ?k x) = Inr g"
    by (simp add: Let_def split: if_splits)
  from Cons.IH [OF g Cons.prems(2)] show ?case
    by (auto simp: recordsOfAgent_pushRecord split: if_splits)
qed

subsection \<open>The example run\<close>

text \<open>What the example run returns, evaluated once.\<close>

lemma exRun_facts:
  "case runBody exEnv exBaseData of
     Inl err \<Rightarrow> False
   | Inr res \<Rightarrow>
       map (ps_adjustedAmount \<circ> pr_status) (rawRecordLevelData res)
         = [''100000.00'', ''30000.00'', ''0.00'']
       \<and> map (ps_isExcluded \<circ> pr_status) (rawRecordLevelData res) = [False, False, True]
       \<and> map (\<lambda>p. jsGetProp (pr_record p) ''_recordId'') (rawRecordLevelData res)
           = [JStr ''SCH1-0'', JStr ''SCH1-1'', JStr ''SCH1-2'']
       \<and> map (agentPayouts res) [''101'', ''102'', ''104'']
           = [Some ''8249.83'', Some ''0.00'', None]
       \<and> map (map_option (map log_ruleId) \<circ> ruleHitLogs res) [''101'', ''102'', ''104'']
           = [Some [''a1'', ''cs1'', ''cs2''], Some [''e1''], None]"
  by code_simp

lemma exRun_returns: "\<exists>res. runBody exEnv exBaseData = Inr res"
  using exRun_facts by (cases "runBody exEnv exBaseData") auto

lemma exRunScheme: "snd (runScheme exStore exRunAsOfDate) = runBody exEnv exBaseData"
proof -
  have 1: "parseDate exRunAsOfDate = Some exRunDate" by code_simp
  have 2: "parseDate (effectiveFrom exScheme) = Some exSchemeStart" by code_simp
  have 3: "baseMapping exScheme = Some exBaseMapping" by (simp add: exScheme_def)
  have 4: "baseMappingComplete exBaseMapping" by code_simp
  have 5: "truthy exFiles" "isObject exFiles" "isNonEmptyString exRunAsOfDate" by code_simp+
  have 6: "payoutTiers exScheme = Some sourceExampleTiers" by (simp add: exScheme_def)
  have 7: "safeGet exFiles (bm_sourceFile exBaseMapping) JUndefined = JArr exBaseData"
    by code_simp
  show ?thesis
    by (simp add: runScheme_def exStore_def 1 2 3 4 5 6 7 exEnv_def)
qed

subsection \<open>Exclusion\<close>







subsection \<open>Adjustments\<close>

lemma processRecord_not_excluded_facts:
  assumes "processRecord e agentId record = Inr out" and "\<not> ro_isExcluded out"
  shows "\<exists>originalAmount.
           originalAmountOf e record = Some originalAmount
         \<and> ro_adjustedAmount out
             = decimalTimes
                 (fst (runningAdjustment_spec
                         (map arule_adjustment (firedAdjustments e record))
                         (originalAmount, DFin 1)))
                 (snd (runningAdjustment_spec
                         (map arule_adjustment (firedAdjustments e record))
                         (originalAmount, DFin 1)))
         \<and> ps_adjustedAmount (pr_status (ro_processed out))
             = formatDecimal (ro_adjustedAmount out) 2
         \<and> ps_rateMultiplier (pr_status (ro_processed out))
             = formatDecimal
                 (snd (runningAdjustment_spec
                         (map arule_adjustment (firedAdjustments e record))
                         (originalAmount, DFin 1))) 4
         \<and> ro_logs out = map (adjustmentLog agentId record) (firedAdjustments e record)
         \<and> ag_totalCreditedAmount (recordStep out st)
             = decimalPlus (ag_totalCreditedAmount st) (ro_adjustedAmount out)
         \<and> creditedAmount e agentId record = Some (ro_adjustedAmount out)"
proof (cases "originalAmountOf e record")
  case None
  then show ?thesis using assms(1) processRecord_error by fastforce
next
  case (Some originalAmount)
  show ?thesis
  proof (cases "find (exclusionFires e record) (exclusionRules (env_scheme e))")
    case None
    from processRecord_not_excluded [OF Some None, of agentId] assms
    show ?thesis using Some by (auto simp: recordStep_def creditedAmount_def)
  next
    case (Some rule)
    from processRecord_excluded [OF \<open>originalAmountOf e record = Some originalAmount\<close> Some,
        of agentId] assms
    show ?thesis by auto
  qed
qed

lemma adjustmentEffect_cases:
  "adjustmentEffect_spec
     \<lparr>adj_target = ''Rate'', adj_type = ''percentage'', adj_value = Some v\<rparr>
     (amount, multiplier)
     = (amount, decimalTimes multiplier (decimalDividedBy (DFin v) (DFin 100)))"
  "adjustmentEffect_spec
     \<lparr>adj_target = ''Amount'', adj_type = ''percentage'', adj_value = Some v\<rparr>
     (amount, multiplier)
     = (decimalPlus amount (decimalDividedBy (decimalTimes amount (DFin v)) (DFin 100)),
        multiplier)"
  "adjustmentEffect_spec
     \<lparr>adj_target = ''Amount'', adj_type = ''fixed'', adj_value = Some v\<rparr>
     (amount, multiplier) = (decimalPlus amount (DFin v), multiplier)"
  by (simp_all add: adjustmentEffect_spec_def adjValue_def)

lemma adjustmentEffect_unknown:
  assumes "\<not> (adj_target adj = ''Rate'' \<and> adj_type adj = ''percentage'')"
    and "\<not> (adj_target adj = ''Amount'' \<and> adj_type adj = ''percentage'')"
    and "\<not> (adj_target adj = ''Amount'' \<and> adj_type adj = ''fixed'')"
  shows "adjustmentEffect_spec adj running = running"
  using assms by (auto simp: adjustmentEffect_spec_def Let_def)

text \<open>
  Claim C4. For every record that is processed and not excluded, the adjustment loop
  applies every adjustment rule whose condition is true of the record (its field is
  mapped to the base dataset and \<open>evaluateCondition\<close> holds), in declaration order and
  without stopping at the first: one Adjustment log entry is emitted per such rule, and
  the running amount (first the record's amount) and the running rate multiplier (first
  1) are what the effects of these rules give one after the other. A Rate/percentage
  rule multiplies the multiplier by value/100, an Amount/percentage rule adds the
  running amount times value/100, an Amount/fixed rule adds the value, any other
  combination changes neither. The adjusted amount is the running amount times the
  running multiplier, and this is what the record adds to the total of its agent. The
  products, quotients and sums are those of the decimal library under the precision the
  run sets.
\<close>

theorem adjustments_compound:
  "(processRecord e agentId record = Inr out \<and> \<not> ro_isExcluded out \<longrightarrow>
      (\<exists>originalAmount.
           originalAmountOf e record = Some originalAmount
         \<and> ro_adjustedAmount out
             = decimalTimes
                 (fst (runningAdjustment_spec
                         (map arule_adjustment (firedAdjustments e record))
                         (originalAmount, DFin 1)))
                 (snd (runningAdjustment_spec
                         (map arule_adjustment (firedAdjustments e record))
                         (originalAmount, DFin 1)))
         \<and> ps_adjustedAmount (pr_status (ro_processed out))
             = formatDecimal (ro_adjustedAmount out) 2
         \<and> ps_rateMultiplier (pr_status (ro_processed out))
             = formatDecimal
                 (snd (runningAdjustment_spec
                         (map arule_adjustment (firedAdjustments e record))
                         (originalAmount, DFin 1))) 4
         \<and> ro_logs out = map (adjustmentLog agentId record) (firedAdjustments e record)
         \<and> ag_totalCreditedAmount (recordStep out st)
             = decimalPlus (ag_totalCreditedAmount st) (ro_adjustedAmount out)
         \<and> creditedAmount e agentId record = Some (ro_adjustedAmount out)))
   \<and> firedAdjustments e record
        = filter (adjustmentFires e record) (adjustmentRules (env_scheme e))
   \<and> runningAdjustment_spec [] running = running
   \<and> runningAdjustment_spec (adj # adjs) running
        = runningAdjustment_spec adjs (adjustmentEffect_spec adj running)
   \<and> adjustmentEffect_spec
        \<lparr>adj_target = ''Rate'', adj_type = ''percentage'', adj_value = Some v\<rparr>
        (amount, multiplier)
        = (amount, decimalTimes multiplier (decimalDividedBy (DFin v) (DFin 100)))
   \<and> adjustmentEffect_spec
        \<lparr>adj_target = ''Amount'', adj_type = ''percentage'', adj_value = Some v\<rparr>
        (amount, multiplier)
        = (decimalPlus amount (decimalDividedBy (decimalTimes amount (DFin v)) (DFin 100)),
           multiplier)
   \<and> adjustmentEffect_spec
        \<lparr>adj_target = ''Amount'', adj_type = ''fixed'', adj_value = Some v\<rparr>
        (amount, multiplier) = (decimalPlus amount (DFin v), multiplier)
   \<and> (\<not> (adj_target adj = ''Rate'' \<and> adj_type adj = ''percentage'')
        \<and> \<not> (adj_target adj = ''Amount'' \<and> adj_type adj = ''percentage'')
        \<and> \<not> (adj_target adj = ''Amount'' \<and> adj_type adj = ''fixed'') \<longrightarrow>
          adjustmentEffect_spec adj running = running)"
proof -
  have b: "runningAdjustment_spec [] running = running"
    "runningAdjustment_spec (adj # adjs) running
       = runningAdjustment_spec adjs (adjustmentEffect_spec adj running)"
    by (simp_all add: runningAdjustment_spec_def)
  show ?thesis
    using processRecord_not_excluded_facts [of e agentId "record" out st] b
      adjustmentEffect_cases [of v amount multiplier]
      adjustmentEffect_unknown [of adj running]
    by (intro conjI impI) (simp_all add: firedAdjustments_def)
qed

theorem adjustments_compound_witness:
  "(\<exists>out. processRecord exEnv ''101'' (exRow 0) = Inr out \<and> \<not> ro_isExcluded out
       \<and> originalAmountOf exEnv (exRow 0) = Some (DFin 50000)
       \<and> map arule_adjustment (firedAdjustments exEnv (exRow 0))
           = [\<lparr>adj_target = ''Rate'', adj_type = ''percentage'', adj_value = Some 200\<rparr>]
       \<and> ro_adjustedAmount out = DFin 100000
       \<and> ps_adjustedAmount (pr_status (ro_processed out)) = ''100000.00''
       \<and> ps_rateMultiplier (pr_status (ro_processed out)) = ''2.0000''
       \<and> length (ro_logs out) = 1)
   \<and> adjustmentEffect_spec \<lparr>adj_target = ''Rate'', adj_type = ''fixed'', adj_value = Some 5\<rparr>
        (DFin 50000, DFin 1) = (DFin 50000, DFin 1)"
proof -
  let ?st0 = "\<lparr>ag_totalCreditedAmount = DFin 0, ag_ruleLogs = [], ag_rawRecordLevelData = []\<rparr>"
  let ?a1 = "\<lparr>adj_target = ''Rate'', adj_type = ''percentage'', adj_value = Some (200::rat)\<rparr>"
  let ?odd = "\<lparr>adj_target = ''Rate'', adj_type = ''fixed'', adj_value = Some (5::rat)\<rparr>"
  have ev: "case processRecord exEnv ''101'' (exRow 0) of
            Inl err \<Rightarrow> False | Inr out \<Rightarrow> \<not> ro_isExcluded out"
    by code_simp
  then obtain out where o: "processRecord exEnv ''101'' (exRow 0) = Inr out"
    by (cases "processRecord exEnv ''101'' (exRow 0)") auto
  have ne: "\<not> ro_isExcluded out" using ev o by simp
  have oa: "originalAmountOf exEnv (exRow 0) = Some (DFin 50000)" by code_simp
  have fa: "map arule_adjustment (firedAdjustments exEnv (exRow 0)) = [?a1]" by code_simp
  have run: "runningAdjustment_spec [?a1] (DFin 50000, DFin 1) = (DFin 50000, DFin 2)"
    by code_simp
  have tm: "decimalTimes (DFin 50000) (DFin 2) = DFin 100000" by code_simp
  note T = adjustments_compound [of exEnv "''101''" "exRow 0" out ?st0 "(DFin 50000, DFin 1)"
      ?odd "[]" 200 "DFin 50000" "DFin 1"]
  from T o ne oa fa have
    adj: "ro_adjustedAmount out
            = decimalTimes (fst (runningAdjustment_spec [?a1] (DFin 50000, DFin 1)))
                (snd (runningAdjustment_spec [?a1] (DFin 50000, DFin 1)))"
    and pa: "ps_adjustedAmount (pr_status (ro_processed out))
               = formatDecimal (ro_adjustedAmount out) 2"
    and pm: "ps_rateMultiplier (pr_status (ro_processed out))
               = formatDecimal (snd (runningAdjustment_spec [?a1] (DFin 50000, DFin 1))) 4"
    and lg: "ro_logs out = map (adjustmentLog ''101'' (exRow 0)) (firedAdjustments exEnv (exRow 0))"
    by auto
  have v: "ro_adjustedAmount out = DFin 100000" using adj run tm by simp
  have f1: "formatDecimal (DFin 100000) 2 = ''100000.00''" by code_simp
  have f2: "formatDecimal (DFin 2) 4 = ''2.0000''" by code_simp
  have "length (map arule_adjustment (firedAdjustments exEnv (exRow 0))) = 1"
    unfolding fa by simp
  then have len: "length (ro_logs out) = 1" using lg by simp
  have u: "adjustmentEffect_spec ?odd (DFin 50000, DFin 1) = (DFin 50000, DFin 1)"
    using T by simp
  show ?thesis using o ne oa fa v pa pm run f1 f2 len u by auto
qed

subsection \<open>Record selection\<close>

lemma processRecord_record:
  "processRecord e a r = Inr out \<Longrightarrow> pr_record (ro_processed out) = r"
  by (auto simp: processRecord_def Let_def split: option.splits)

lemma indexedRecords_recordId_inj:
  assumes "r1 \<in> set (indexedRecords f xs)" and "r2 \<in> set (indexedRecords f xs)"
    and "jsGetProp r1 ''_recordId'' = jsGetProp r2 ''_recordId''"
  shows "r1 = r2"
proof -
  from assms(1,2) obtain i j where r1: "r1 = augmentRecord f i (xs ! i)"
    and r2: "r2 = augmentRecord f j (xs ! j)"
    by (auto simp: in_indexedRecords)
  from assms(3) have "recordIdOf f i = recordIdOf f j"
    by (simp add: r1 r2 recordId_augmentRecord)
  then have "i = j" by (rule recordIdOf_inj)
  then show ?thesis using r1 r2 by simp
qed

lemma indexedRecords_recordId:
  "r \<in> set (indexedRecords f xs) \<Longrightarrow> jsGetProp r ''_recordId'' \<noteq> JUndefined"
  by (auto simp: in_indexedRecords recordId_augmentRecord)

lemma qualifiedRecords_indexed:
  "r \<in> set (qualifiedRecords e baseData)
     \<Longrightarrow> r \<in> set (indexedRecords (env_baseDataFile e) baseData)"
  by (simp add: qualifiedRecords_def dateFilteredRecords_def)

lemma runBody_log_records:
  assumes "runBody e baseData = Inr res" and "ruleHitLogs res a = Some logs"
    and "x \<in> set logs"
  shows "log_recordId x = JUndefined
         \<or> (\<exists>r \<in> set (qualifiedRecords e baseData). log_recordId x = jsGetProp r ''_recordId'')"
proof -
  from assms(1) obtain g where g: "groupByAgent e (qualifiedRecords e baseData) [] = Inr g"
    and pa: "processAgents e g (forInKeys g) emptyResult = Inr res"
    by (auto simp: runBody_def split: sum.splits)
  have "ruleHitLogs res a
          = appendLogs None (logsOfAgent a (emittedLogs e g (forInKeys g) emptyResult))"
    using processAgents_ruleHitLogs [OF pa, of a] by (simp add: emptyResult_def)
  then have "x \<in> set (logsOfAgent a (emittedLogs e g (forInKeys g) emptyResult))"
    using assms(2,3) by (auto simp: appendLogs_def split: if_splits)
  then obtain ls where m: "(a, ls) \<in> set (emittedLogs e g (forInKeys g) emptyResult)"
    and x: "x \<in> set ls"
    by (auto simp: logsOfAgent_def)
  from emittedLogs_entries [OF m x]
  consider "log_recordId x = JUndefined"
    | r where "r \<in> set (recordsOfAgent g a)" "log_recordId x = jsGetProp r ''_recordId''"
    by blast
  then show ?thesis
  proof cases
    case 1
    then show ?thesis by simp
  next
    case 2
    from groupByAgent_records [OF g 2(1)] have "r \<in> set (qualifiedRecords e baseData)"
      by (simp add: recordsOfAgent_def)
    then show ?thesis using 2(2) by blast
  qed
qed

lemma runBody_raw_records:
  assumes "runBody e baseData = Inr res" and "p \<in> set (rawRecordLevelData res)"
  shows "pr_record p \<in> set (qualifiedRecords e baseData)"
proof -
  from assms(1) obtain g where g: "groupByAgent e (qualifiedRecords e baseData) [] = Inr g"
    and pa: "processAgents e g (forInKeys g) emptyResult = Inr res"
    by (auto simp: runBody_def split: sum.splits)
  from processAgents_raw [OF pa assms(2)] obtain a r out where
    r: "r \<in> set (recordsOfAgent g a)" and o: "processRecord e a r = Inr out"
    and p: "p = ro_processed out"
    by (auto simp: emptyResult_def)
  from groupByAgent_records [OF g r] have "r \<in> set (qualifiedRecords e baseData)"
    by (simp add: recordsOfAgent_def)
  then show ?thesis using processRecord_record [OF o] p by simp
qed

lemma dropped_record_silent:
  assumes "runBody e baseData = Inr res"
    and "record \<in> set (indexedRecords (env_baseDataFile e) baseData)"
    and "record \<notin> set (qualifiedRecords e baseData)"
  shows "(\<forall>a logs. ruleHitLogs res a = Some logs \<longrightarrow>
            (\<forall>x \<in> set logs. log_recordId x \<noteq> jsGetProp record ''_recordId''))
         \<and> (\<forall>p \<in> set (rawRecordLevelData res). pr_record p \<noteq> record)"
proof (intro conjI allI impI ballI)
  fix a logs x
  assume l: "ruleHitLogs res a = Some logs" and x: "x \<in> set logs"
  show "log_recordId x \<noteq> jsGetProp record ''_recordId''"
  proof
    assume eq: "log_recordId x = jsGetProp record ''_recordId''"
    then have "log_recordId x \<noteq> JUndefined"
      using indexedRecords_recordId [OF assms(2)] by simp
    with runBody_log_records [OF assms(1) l x] obtain r where
      r: "r \<in> set (qualifiedRecords e baseData)" and id: "log_recordId x = jsGetProp r ''_recordId''"
      by blast
    have "r = record"
      using indexedRecords_recordId_inj [OF qualifiedRecords_indexed [OF r] assms(2)] id eq
      by simp
    then show False using r assms(3) by simp
  qed
next
  fix p
  assume "p \<in> set (rawRecordLevelData res)"
  from runBody_raw_records [OF assms(1) this] show "pr_record p \<noteq> record"
    using assms(3) by auto
qed

lemma mkEnv_selection:
  assumes "e = mkEnv scheme bm uploadedFiles schemeStart runDate" and "baseMappingComplete bm"
  shows "record \<in> set (qualifiedRecords e baseData) \<longleftrightarrow>
           record \<in> set (indexedRecords (bm_sourceFile bm) baseData)
           \<and> (\<exists>d. recordDate e record = Some d \<and> dateLe schemeStart d \<and> dateLe d runDate)
           \<and> (\<forall>rule \<in> set (qualificationRules scheme).
                  isRecordLevelRule e rule \<longrightarrow> passesRule e record rule)"
proof -
  have "\<forall>name fi. env_fieldMap e name = Some fi \<longrightarrow> fi_sourceField fi \<noteq> ''''"
    using buildFieldMap_sourceField [OF assms(2)] by (auto simp: assms(1) mkEnv_def)
  from qualifiedRecords_iff [OF this, of "record" baseData] show ?thesis
    by (simp add: assms(1) mkEnv_def)
qed

lemma date_examples:
  "parseDate (JStr ''2024-12-31'') = Some exRunDate"
  "dateLe exRunDate exRunDate"
  "case parseDate (JStr ''2025-01-01'') of None \<Rightarrow> False | Some d \<Rightarrow> \<not> dateLe d exRunDate"
  by code_simp+

text \<open>
  Claim C2. In a run whose configuration passed validation, a record of the base
  dataset (with its index and record id added) is selected exactly when the string form
  of its transaction-date field parses as a date that lies between the scheme's start
  and the run date, both included, dates being compared by year, month and day, and the
  record passes every qualification rule whose field is mapped with the evaluation level
  \<open>Per Record\<close> to the base dataset. Run as of 2024-12-31, a record dated 2024-12-31 is
  in the window and one dated 2025-01-01 is not. When the run returns, a record that was
  not selected has no rule log entry and no entry in \<open>rawRecordLevelData\<close>.
\<close>

theorem record_selection:
  "(e = mkEnv scheme bm uploadedFiles schemeStart runDate \<and> baseMappingComplete bm \<longrightarrow>
      (record \<in> set (qualifiedRecords e baseData) \<longleftrightarrow>
         record \<in> set (indexedRecords (bm_sourceFile bm) baseData)
         \<and> (\<exists>d. recordDate e record = Some d \<and> dateLe schemeStart d \<and> dateLe d runDate)
         \<and> (\<forall>rule \<in> set (qualificationRules scheme).
                isRecordLevelRule e rule \<longrightarrow> passesRule e record rule)))
   \<and> (runBody e baseData = Inr res
        \<and> record \<in> set (indexedRecords (env_baseDataFile e) baseData)
        \<and> record \<notin> set (qualifiedRecords e baseData) \<longrightarrow>
          (\<forall>a logs. ruleHitLogs res a = Some logs \<longrightarrow>
              (\<forall>x \<in> set logs. log_recordId x \<noteq> jsGetProp record ''_recordId''))
          \<and> (\<forall>p \<in> set (rawRecordLevelData res). pr_record p \<noteq> record))
   \<and> parseDate (JStr ''2024-12-31'') = Some exRunDate
   \<and> dateLe exRunDate exRunDate
   \<and> (\<exists>d. parseDate (JStr ''2025-01-01'') = Some d \<and> \<not> dateLe d exRunDate)"
proof -
  have "\<exists>d. parseDate (JStr ''2025-01-01'') = Some d \<and> \<not> dateLe d exRunDate"
    using date_examples(3) by (cases "parseDate (JStr ''2025-01-01'')") auto
  then show ?thesis
    using mkEnv_selection [of e scheme bm uploadedFiles schemeStart runDate "record" baseData]
      dropped_record_silent [of e baseData res "record"] date_examples(1,2)
    by blast
qed

theorem record_selection_witness:
  "exEnv = mkEnv exScheme exBaseMapping exFiles exSchemeStart exRunDate
   \<and> baseMappingComplete exBaseMapping
   \<and> exRow 0 \<in> set (qualifiedRecords exEnv exBaseData)
   \<and> (\<exists>d. recordDate exEnv (exRow 0) = Some d \<and> dateLe exSchemeStart d
          \<and> dateLe d exRunDate)
   \<and> exRow 3 \<in> set (indexedRecords (env_baseDataFile exEnv) exBaseData)
   \<and> exRow 3 \<notin> set (qualifiedRecords exEnv exBaseData)
   \<and> (\<exists>res logs. runBody exEnv exBaseData = Inr res
          \<and> ruleHitLogs res ''101'' = Some logs
          \<and> list_all (\<lambda>x. log_recordId x \<noteq> jsGetProp (exRow 3) ''_recordId'') logs
          \<and> list_all (\<lambda>p. pr_record p \<noteq> exRow 3) (rawRecordLevelData res))"
proof -
  have e: "exEnv = mkEnv exScheme exBaseMapping exFiles exSchemeStart exRunDate"
    by (simp add: exEnv_def)
  have b: "baseMappingComplete exBaseMapping" by code_simp
  have q0: "exRow 0 \<in> set (qualifiedRecords exEnv exBaseData)" by code_simp
  have i3: "exRow 3 \<in> set (indexedRecords (env_baseDataFile exEnv) exBaseData)" by code_simp
  have n3: "exRow 3 \<notin> set (qualifiedRecords exEnv exBaseData)" by code_simp
  obtain res where r: "runBody exEnv exBaseData = Inr res" using exRun_returns by blast
  have "ruleHitLogs res ''101'' \<noteq> None" using exRun_facts r by auto
  then obtain logs where l: "ruleHitLogs res ''101'' = Some logs" by auto
  have d: "\<exists>d. recordDate exEnv (exRow 0) = Some d \<and> dateLe exSchemeStart d
             \<and> dateLe d exRunDate"
    using record_selection [of exEnv exScheme exBaseMapping exFiles exSchemeStart exRunDate
        "exRow 0" exBaseData res] e b q0
    by blast
  have s: "(\<forall>x \<in> set logs. log_recordId x \<noteq> jsGetProp (exRow 3) ''_recordId'')
           \<and> (\<forall>p \<in> set (rawRecordLevelData res). pr_record p \<noteq> exRow 3)"
    using record_selection [of exEnv exScheme exBaseMapping exFiles exSchemeStart exRunDate
        "exRow 3" exBaseData res] r i3 n3 l
    by blast
  show ?thesis using e b q0 d i3 n3 r l s by (auto simp: list_all_iff)
qed

subsection \<open>Records that abort a run\<close>

lemma groupByAgent_no_agent:
  "\<exists>r \<in> set records. recordAgentId e r = '''' \<or> recordAgentId e r = ''UNKNOWN_AGENT''
     \<Longrightarrow> isl (groupByAgent e records acc)"
proof (induction records arbitrary: acc)
  case Nil
  then show ?case by simp
next
  case (Cons x records)
  show ?case
  proof (cases "recordAgentId e x = '''' \<or> recordAgentId e x = ''UNKNOWN_AGENT''")
    case True
    then show ?thesis by (auto simp: Let_def)
  next
    case False
    then have "\<exists>r \<in> set records. recordAgentId e r = '''' \<or> recordAgentId e r = ''UNKNOWN_AGENT''"
      using Cons.prems by auto
    from Cons.IH [OF this] show ?thesis by (simp add: Let_def)
  qed
qed

lemma groupByAgent_keeps:
  "groupByAgent e records acc = Inr g \<Longrightarrow> r \<in> set (recordsOfAgent acc a)
     \<Longrightarrow> r \<in> set (recordsOfAgent g a)"
proof (induction records arbitrary: acc)
  case Nil
  then show ?case by simp
next
  case (Cons x records)
  let ?k = "recordAgentId e x"
  from Cons.prems(1) have g: "groupByAgent e records (pushRecord acc ?k x) = Inr g"
    by (simp add: Let_def split: if_splits)
  have "r \<in> set (recordsOfAgent (pushRecord acc ?k x) a)"
    using Cons.prems(2) by (auto simp: recordsOfAgent_pushRecord)
  from Cons.IH [OF g this] show ?case .
qed

lemma groupByAgent_complete:
  "groupByAgent e records acc = Inr g \<Longrightarrow> r \<in> set records
     \<Longrightarrow> r \<in> set (recordsOfAgent g (recordAgentId e r))"
proof (induction records arbitrary: acc)
  case Nil
  then show ?case by simp
next
  case (Cons x records)
  let ?k = "recordAgentId e x"
  from Cons.prems(1) have g: "groupByAgent e records (pushRecord acc ?k x) = Inr g"
    by (simp add: Let_def split: if_splits)
  show ?case
  proof (cases "r = x")
    case True
    have "x \<in> set (recordsOfAgent (pushRecord acc ?k x) ?k)"
      by (simp add: recordsOfAgent_pushRecord)
    from groupByAgent_keeps [OF g this] show ?thesis using True by simp
  next
    case False
    then have "r \<in> set records" using Cons.prems(2) by simp
    from Cons.IH [OF g this] show ?thesis .
  qed
qed

lemma recordsOfAgent_key:
  "r \<in> set (recordsOfAgent g a) \<Longrightarrow> a \<in> set (forInKeys g)"
proof -
  assume "r \<in> set (recordsOfAgent g a)"
  then obtain rs where "map_of g a = Some rs"
    by (cases "map_of g a") (auto simp: recordsOfAgent_def)
  then have "(a, rs) \<in> set g" by (rule map_of_SomeD)
  then have "a \<in> fst ` set g" by force
  then show ?thesis by (auto simp: forInKeys_def)
qed

lemma processRecords_bad_amount:
  "\<exists>r \<in> set records. originalAmountOf e r = None
     \<Longrightarrow> isl (processRecords e agentId records st)"
proof (induction records arbitrary: st)
  case Nil
  then show ?case by simp
next
  case (Cons x records)
  show ?case
  proof (cases "processRecord e agentId x")
    case (Inl err)
    then show ?thesis by simp
  next
    case (Inr out)
    then have "originalAmountOf e x \<noteq> None"
      using processRecord_error [of e x agentId] by auto
    then have "\<exists>r \<in> set records. originalAmountOf e r = None" using Cons.prems by auto
    from Cons.IH [OF this] show ?thesis using Inr by simp
  qed
qed

lemma processAgent_bad_amount:
  "\<exists>r \<in> set records. originalAmountOf e r = None \<Longrightarrow> isl (processAgent e agentId records res)"
proof -
  assume bad: "\<exists>r \<in> set records. originalAmountOf e r = None"
  let ?st0 = "\<lparr>ag_totalCreditedAmount = DFin 0, ag_ruleLogs = [],
               ag_rawRecordLevelData = rawRecordLevelData res\<rparr>"
  have "isl (processRecords e agentId records ?st0)"
    by (rule processRecords_bad_amount [OF bad])
  then obtain err where "processRecords e agentId records ?st0 = Inl err"
    by (cases "processRecords e agentId records ?st0") auto
  then show ?thesis by (simp add: processAgent_def)
qed

lemma processAgents_bad_amount:
  "a \<in> set keys \<Longrightarrow> a \<noteq> ''UNKNOWN_AGENT'' \<Longrightarrow> r \<in> set (recordsOfAgent g a)
     \<Longrightarrow> originalAmountOf e r = None \<Longrightarrow> isl (processAgents e g keys res)"
proof (induction keys arbitrary: res)
  case Nil
  then show ?case by simp
next
  case (Cons k keys)
  show ?case
  proof (cases "k = ''UNKNOWN_AGENT''")
    case True
    then have "a \<in> set keys" using Cons.prems by auto
    from Cons.IH [OF this Cons.prems(2,3,4)] show ?thesis using True by simp
  next
    case False
    show ?thesis
    proof (cases "processAgent e k (recordsOfAgent g k) res")
      case (Inl err)
      then show ?thesis using False by simp
    next
      case (Inr pr)
      have "a \<noteq> k"
      proof
        assume "a = k"
        then have "\<exists>r \<in> set (recordsOfAgent g k). originalAmountOf e r = None"
          using Cons.prems(3,4) by auto
        from processAgent_bad_amount [OF this, of k res] show False using Inr by simp
      qed
      then have "a \<in> set keys" using Cons.prems(1) by simp
      from Cons.IH [OF this Cons.prems(2,3,4)] show ?thesis
        using False Inr by (simp split: prod.splits)
    qed
  qed
qed

lemma runBody_aborts:
  assumes "r \<in> set (qualifiedRecords e baseData)"
    and "recordAgentId e r = '''' \<or> recordAgentId e r = ''UNKNOWN_AGENT''
         \<or> originalAmountOf e r = None"
  shows "isl (runBody e baseData)"
proof (cases "groupByAgent e (qualifiedRecords e baseData) []")
  case (Inl err)
  then show ?thesis by (simp add: runBody_def)
next
  case (Inr g)
  have na: "\<not> (recordAgentId e r = '''' \<or> recordAgentId e r = ''UNKNOWN_AGENT'')"
    using groupByAgent_no_agent [of "qualifiedRecords e baseData" e "[]"] assms(1) Inr
    by auto
  then have bad: "originalAmountOf e r = None" using assms(2) by simp
  let ?a = "recordAgentId e r"
  have mem: "r \<in> set (recordsOfAgent g ?a)"
    using groupByAgent_complete [OF Inr assms(1)] .
  have key: "?a \<in> set (forInKeys g)" using mem by (rule recordsOfAgent_key)
  have "isl (processAgents e g (forInKeys g) emptyResult)"
    using processAgents_bad_amount [OF key _ mem bad] na by simp
  then show ?thesis using Inr by (simp add: runBody_def)
qed

lemma exNoAgent_run:
  "case snd (runScheme (exStore\<lparr>st_uploadedFiles := exNoAgentFiles\<rparr>) exRunAsOfDate) of
     Inl err \<Rightarrow> err = ReferenceError
   | Inr res \<Rightarrow> False"
  by code_simp

lemma exBadAmount_run:
  "case snd (runScheme (exStore\<lparr>st_uploadedFiles := exBadAmountFiles\<rparr>) exRunAsOfDate) of
     Inl err \<Rightarrow> err = DecimalError
   | Inr res \<Rightarrow> False"
  by code_simp

lemma exAbort_checks:
  "passesConfigChecks exScheme exNoAgentFiles exRunAsOfDate"
  "passesConfigChecks exScheme exBadAmountFiles exRunAsOfDate"
  "length (qualifiedRecords (mkEnv exScheme exBaseMapping exNoAgentFiles exSchemeStart exRunDate)
             (case safeGet exNoAgentFiles ''SCH1'' JUndefined of JArr rows \<Rightarrow> rows | _ \<Rightarrow> []))
     = 1"
  "length (qualifiedRecords (mkEnv exScheme exBaseMapping exBadAmountFiles exSchemeStart exRunDate)
             (case safeGet exBadAmountFiles ''SCH1'' JUndefined of JArr rows \<Rightarrow> rows | _ \<Rightarrow> []))
     = 1"
  by code_simp+

text \<open>
  Claim C7. The code diverges from the claim. Whenever a record that was selected has no
  agent id (the field is absent, \<open>null\<close>, or blank) the grouping step raises a
  \<open>ReferenceError\<close>: the warning it builds reads a variable that is not declared. And
  whenever the Decimal constructor rejects the amount of a selected record the run
  raises the constructor's error, which nothing catches. In both cases the run returns
  no result. The two example inputs pass the validation of the configuration, hold one
  selected record each, and abort with these errors.
\<close>

theorem malformed_record_aborts_run:
  "(r \<in> set (qualifiedRecords e baseData)
      \<and> (recordAgentId e r = '''' \<or> recordAgentId e r = ''UNKNOWN_AGENT''
           \<or> originalAmountOf e r = None) \<longrightarrow>
        isl (runBody e baseData))
   \<and> ((\<exists>r \<in> set records.
          recordAgentId e r = '''' \<or> recordAgentId e r = ''UNKNOWN_AGENT'') \<longrightarrow>
        isl (groupByAgent e records acc))
   \<and> (originalAmountOf e r = None \<longrightarrow> processRecord e agentId r = Inl DecimalError)
   \<and> passesConfigChecks exScheme exNoAgentFiles exRunAsOfDate
   \<and> snd (runScheme (exStore\<lparr>st_uploadedFiles := exNoAgentFiles\<rparr>) exRunAsOfDate)
        = Inl ReferenceError
   \<and> passesConfigChecks exScheme exBadAmountFiles exRunAsOfDate
   \<and> snd (runScheme (exStore\<lparr>st_uploadedFiles := exBadAmountFiles\<rparr>) exRunAsOfDate)
        = Inl DecimalError"
proof -
  have a: "snd (runScheme (exStore\<lparr>st_uploadedFiles := exNoAgentFiles\<rparr>) exRunAsOfDate)
             = Inl ReferenceError"
    using exNoAgent_run
    by (cases "snd (runScheme (exStore\<lparr>st_uploadedFiles := exNoAgentFiles\<rparr>) exRunAsOfDate)")
      simp_all
  have b: "snd (runScheme (exStore\<lparr>st_uploadedFiles := exBadAmountFiles\<rparr>) exRunAsOfDate)
             = Inl DecimalError"
    using exBadAmount_run
    by (cases "snd (runScheme (exStore\<lparr>st_uploadedFiles := exBadAmountFiles\<rparr>) exRunAsOfDate)")
      simp_all
  show ?thesis
    using runBody_aborts [of r e baseData] groupByAgent_no_agent [of records e acc]
      processRecord_error [of e r agentId] exAbort_checks(1,2) a b
    by blast
qed

theorem malformed_record_aborts_run_witness:
  "(let e = mkEnv exScheme exBaseMapping exBadAmountFiles exSchemeStart exRunDate;
        r = augmentRecord ''SCH1'' 0
              (exRecord (JStr ''101'') (JStr ''12,5'') ''2024-12-05'' ''1810'' ''CUST001''
                 ''Partially'');
        baseData = [exRecord (JStr ''101'') (JStr ''12,5'') ''2024-12-05'' ''1810'' ''CUST001''
                      ''Partially'']
    in qualifiedRecords e baseData = [r] \<and> originalAmountOf e r = None
       \<and> isl (runBody e baseData) \<and> processRecord e ''101'' r = Inl DecimalError)
   \<and> (let e = mkEnv exScheme exBaseMapping exNoAgentFiles exSchemeStart exRunDate;
           r = augmentRecord ''SCH1'' 0
                 (JObj [(''Net Value'', JNum 50000), (''Document Date'', JStr ''2024-12-05''),
                        (''Sales Organization'', JStr ''1810'')])
       in recordAgentId e r = ''UNKNOWN_AGENT'' \<and> isl (groupByAgent e [r] []))"
proof -
  let ?e = "mkEnv exScheme exBaseMapping exBadAmountFiles exSchemeStart exRunDate"
  let ?raw = "exRecord (JStr ''101'') (JStr ''12,5'') ''2024-12-05'' ''1810'' ''CUST001''
                 ''Partially''"
  let ?r = "augmentRecord ''SCH1'' 0 ?raw"
  let ?e2 = "mkEnv exScheme exBaseMapping exNoAgentFiles exSchemeStart exRunDate"
  let ?r2 = "augmentRecord ''SCH1'' 0
                 (JObj [(''Net Value'', JNum 50000), (''Document Date'', JStr ''2024-12-05''),
                        (''Sales Organization'', JStr ''1810'')])"
  have q: "qualifiedRecords ?e [?raw] = [?r]" by code_simp
  have o: "originalAmountOf ?e ?r = None" by code_simp
  have u: "recordAgentId ?e2 ?r2 = ''UNKNOWN_AGENT''" by code_simp
  have m: "?r \<in> set (qualifiedRecords ?e [?raw])" using q by simp
  note T = malformed_record_aborts_run [of ?r ?e "[?raw]" "[?r]" "[]" "''101''"]
  have 1: "isl (runBody ?e [?raw])" using T m o by blast
  have 2: "processRecord ?e ''101'' ?r = Inl DecimalError" using T o by blast
  have "\<exists>r \<in> set [?r2]. recordAgentId ?e2 r = '''' \<or> recordAgentId ?e2 r = ''UNKNOWN_AGENT''"
    using u by simp
  then have 3: "isl (groupByAgent ?e2 [?r2] [])"
    using malformed_record_aborts_run [of ?r2 ?e2 "[]" "[?r2]" "[]" "''101''"] by blast
  show ?thesis unfolding Let_def using q o 1 2 u 3 by blast
qed

subsection \<open>What a run changes\<close>

lemma runScheme_uploadedFiles:
  "st_uploadedFiles (fst (runScheme st runAsOfDate)) = st_uploadedFiles st"
  by (simp add: runScheme_def Let_def split: option.splits jsval.splits)

lemma runScheme_no_scheme:
  "st_scheme st = None \<Longrightarrow> fst (runScheme st runAsOfDate) = st"
  by (simp add: runScheme_def)

lemma runScheme_scheme:
  assumes "st_scheme st = Some scheme"
  shows "st_scheme (fst (runScheme st runAsOfDate))
           = Some (if payoutTiers scheme = None
                      \<and> passesConfigChecks scheme (st_uploadedFiles st) runAsOfDate
                   then scheme\<lparr>payoutTiers := Some []\<rparr> else scheme)"
proof (cases "passesConfigChecks scheme (st_uploadedFiles st) runAsOfDate")
  case True
  then obtain runDate schemeStart bm where
    "parseDate runAsOfDate = Some runDate" "parseDate (effectiveFrom scheme) = Some schemeStart"
    "baseMapping scheme = Some bm" "baseMappingComplete bm"
    "truthy (st_uploadedFiles st)" "isObject (st_uploadedFiles st)"
    "isNonEmptyString runAsOfDate"
    by (auto simp: passesConfigChecks_def split: option.splits)
  then show ?thesis using assms True
    by (simp add: runScheme_def Let_def split: jsval.splits)
next
  case False
  then show ?thesis using assms
    by (auto simp: runScheme_def passesConfigChecks_def Let_def split: option.splits)
qed

text \<open>
  Claim C8, as amended. A run leaves the uploaded files, and with them the hierarchy
  dataset, as they were. It leaves the scheme definition as it was but for one case:
  when the scheme has no \<open>payoutTiers\<close> and the run gets past the validation of the
  configuration, the scheme's \<open>payoutTiers\<close> is the empty list afterwards, every other
  field being as it was. This holds whether the run returns or throws.
\<close>

theorem runScheme_frame:
  "st_uploadedFiles (fst (runScheme st runAsOfDate)) = st_uploadedFiles st
   \<and> (st_scheme st = None \<longrightarrow> st_scheme (fst (runScheme st runAsOfDate)) = None)
   \<and> (st_scheme st = Some scheme \<longrightarrow>
        st_scheme (fst (runScheme st runAsOfDate))
          = Some (if payoutTiers scheme = None
                     \<and> passesConfigChecks scheme (st_uploadedFiles st) runAsOfDate
                  then scheme\<lparr>payoutTiers := Some []\<rparr> else scheme))"
  using runScheme_uploadedFiles [of st runAsOfDate] runScheme_no_scheme [of st runAsOfDate]
    runScheme_scheme [of st scheme runAsOfDate]
  by simp

theorem runScheme_frame_witness:
  "st_scheme \<lparr>st_scheme = Some exNoTiersScheme, st_uploadedFiles = exEmptyFiles\<rparr>
     = Some exNoTiersScheme
   \<and> payoutTiers exNoTiersScheme = None
   \<and> passesConfigChecks exNoTiersScheme exEmptyFiles exRunAsOfDate
   \<and> st_scheme (fst (runScheme \<lparr>st_scheme = Some exNoTiersScheme,
                                  st_uploadedFiles = exEmptyFiles\<rparr> exRunAsOfDate))
        = Some (exNoTiersScheme\<lparr>payoutTiers := Some []\<rparr>)
   \<and> st_uploadedFiles (fst (runScheme \<lparr>st_scheme = Some exNoTiersScheme,
                                        st_uploadedFiles = exEmptyFiles\<rparr> exRunAsOfDate))
        = exEmptyFiles
   \<and> payoutTiers exScheme = Some sourceExampleTiers
   \<and> st_scheme (fst (runScheme \<lparr>st_scheme = Some exScheme,
                                  st_uploadedFiles = exEmptyFiles\<rparr> exRunAsOfDate))
        = Some exScheme
   \<and> st_scheme (fst (runScheme \<lparr>st_scheme = None, st_uploadedFiles = exEmptyFiles\<rparr>
                         exRunAsOfDate))
        = None"
proof -
  have p: "payoutTiers exNoTiersScheme = None" by (simp add: exNoTiersScheme_def)
  have q: "payoutTiers exScheme = Some sourceExampleTiers" by (simp add: exScheme_def)
  have c: "passesConfigChecks exNoTiersScheme exEmptyFiles exRunAsOfDate" by code_simp
  show ?thesis
    using p q c
      runScheme_frame [of "\<lparr>st_scheme = Some exNoTiersScheme, st_uploadedFiles = exEmptyFiles\<rparr>"
        exRunAsOfDate exNoTiersScheme]
      runScheme_frame [of "\<lparr>st_scheme = Some exScheme, st_uploadedFiles = exEmptyFiles\<rparr>"
        exRunAsOfDate exScheme]
      runScheme_frame [of "\<lparr>st_scheme = None, st_uploadedFiles = exEmptyFiles\<rparr>"
        exRunAsOfDate exScheme]
    by simp
qed

text \<open>
  Claim C8 as stated fails: after a run on a scheme without \<open>payoutTiers\<close> the scheme
  has \<open>payoutTiers\<close>, the empty list.
\<close>

theorem runScheme_sets_payoutTiers_counterexample:
  "payoutTiers exNoTiersScheme = None
   \<and> map_option payoutTiers
        (st_scheme (fst (runScheme \<lparr>st_scheme = Some exNoTiersScheme,
                                     st_uploadedFiles = exEmptyFiles\<rparr> exRunAsOfDate)))
        = Some (Some [])
   \<and> st_scheme (fst (runScheme \<lparr>st_scheme = Some exNoTiersScheme,
                                  st_uploadedFiles = exEmptyFiles\<rparr> exRunAsOfDate))
        \<noteq> Some exNoTiersScheme"
  by code_simp

subsection \<open>Rule hit logs\<close>

lemma logsOfAgent_nonempty:
  "logsOfAgent a (emittedLogs e g keys res0) \<noteq> []
     \<longleftrightarrow> (\<exists>x \<in> set (concat (map snd (emittedLogs e g keys res0))). log_agentId x = a)"
proof
  assume "logsOfAgent a (emittedLogs e g keys res0) \<noteq> []"
  then obtain x where "x \<in> set (logsOfAgent a (emittedLogs e g keys res0))"
    by (cases "logsOfAgent a (emittedLogs e g keys res0)") auto
  then obtain ls where m: "(a, ls) \<in> set (emittedLogs e g keys res0)" and x: "x \<in> set ls"
    by (auto simp: logsOfAgent_def)
  then have "log_agentId x = a" using emittedLogs_entries by blast
  moreover have "x \<in> set (concat (map snd (emittedLogs e g keys res0)))"
    using m x by force
  ultimately show "\<exists>x \<in> set (concat (map snd (emittedLogs e g keys res0))). log_agentId x = a"
    by blast
next
  assume "\<exists>x \<in> set (concat (map snd (emittedLogs e g keys res0))). log_agentId x = a"
  then obtain x k ls where m: "(k, ls) \<in> set (emittedLogs e g keys res0)" and x: "x \<in> set ls"
    and a: "log_agentId x = a"
    by auto
  then have "k = a" using emittedLogs_entries by blast
  then have "x \<in> set (logsOfAgent a (emittedLogs e g keys res0))"
    using m x by (force simp: logsOfAgent_def)
  then show "logsOfAgent a (emittedLogs e g keys res0) \<noteq> []" by auto
qed

lemma logsOfAgent_filter:
  "logsOfAgent a (emittedLogs e g keys res0)
     = filter (\<lambda>x. log_agentId x = a) (concat (map snd (emittedLogs e g keys res0)))"
proof -
  have "\<forall>p \<in> set em. \<forall>x \<in> set (snd p). log_agentId x = fst p
          \<Longrightarrow> concat (map snd (filter (\<lambda>p. fst p = a) em))
              = filter (\<lambda>x. log_agentId x = a) (concat (map snd em))" for em
  proof (induction em)
    case Nil
    then show ?case by simp
  next
    case (Cons p em)
    then have all: "\<forall>x \<in> set (snd p). log_agentId x = fst p" by simp
    have "filter (\<lambda>x. log_agentId x = a) (snd p) = (if fst p = a then snd p else [])"
      using all by (auto simp: filter_empty_conv intro: filter_True)
    then show ?case using Cons by simp
  qed
  moreover have "\<forall>p \<in> set (emittedLogs e g keys res0). \<forall>x \<in> set (snd p). log_agentId x = fst p"
    using emittedLogs_entries by (metis prod.collapse)
  ultimately show ?thesis by (simp add: logsOfAgent_def)
qed

lemma runBody_ruleHitLogs:
  assumes "runBody e baseData = Inr res"
  shows "ruleHitLogs res a
           = (if filter (\<lambda>x. log_agentId x = a) (runEmittedLogs e baseData) = [] then None
              else Some (filter (\<lambda>x. log_agentId x = a) (runEmittedLogs e baseData)))"
proof -
  from assms obtain g where g: "groupByAgent e (qualifiedRecords e baseData) [] = Inr g"
    and pa: "processAgents e g (forInKeys g) emptyResult = Inr res"
    by (auto simp: runBody_def split: sum.splits)
  have em: "runEmittedLogs e baseData
              = concat (map snd (emittedLogs e g (forInKeys g) emptyResult))"
    using g by (simp add: runEmittedLogs_def)
  show ?thesis
    using processAgents_ruleHitLogs [OF pa, of a]
    by (simp add: em logsOfAgent_filter appendLogs_def emptyResult_def)
qed

lemma runScheme_runBody:
  "snd (runScheme st runAsOfDate) = Inr res \<Longrightarrow> \<exists>e baseData. runBody e baseData = Inr res"
  by (auto simp: runScheme_def Let_def split: option.splits if_splits jsval.splits)

text \<open>
  Claim C10. In the result of every run that returns, \<open>ruleHitLogs\<close> binds no key to the
  empty sequence; an agent id is a key of \<open>ruleHitLogs\<close> exactly when at least one rule
  log entry was emitted for that agent during the run; and the sequence bound to the key
  holds the entries emitted for the agent, in the order of emission. The result of
  \<open>runScheme\<close>, when it returns, is the result of the body of the run.
\<close>

theorem ruleHitLogs_no_empty_key:
  "(runBody e baseData = Inr res \<longrightarrow>
      ruleHitLogs res a \<noteq> Some []
      \<and> ((ruleHitLogs res a \<noteq> None)
           = (\<exists>x \<in> set (runEmittedLogs e baseData). log_agentId x = a))
      \<and> (ruleHitLogs res a \<noteq> None \<longrightarrow>
           ruleHitLogs res a
             = Some (filter (\<lambda>x. log_agentId x = a) (runEmittedLogs e baseData))))
   \<and> (snd (runScheme st runAsOfDate) = Inr res \<longrightarrow>
        (\<exists>e baseData. runBody e baseData = Inr res))"
proof -
  have "ruleHitLogs res a \<noteq> Some []
      \<and> ((ruleHitLogs res a \<noteq> None)
           = (\<exists>x \<in> set (runEmittedLogs e baseData). log_agentId x = a))
      \<and> (ruleHitLogs res a \<noteq> None \<longrightarrow>
           ruleHitLogs res a
             = Some (filter (\<lambda>x. log_agentId x = a) (runEmittedLogs e baseData)))"
    if "runBody e baseData = Inr res"
    unfolding runBody_ruleHitLogs [OF that, of a]
    by (auto simp: filter_empty_conv)
  then show ?thesis using runScheme_runBody [of st runAsOfDate res] by blast
qed

theorem ruleHitLogs_no_empty_key_witness:
  "(\<exists>res. runBody exEnv exBaseData = Inr res
      \<and> snd (runScheme exStore exRunAsOfDate) = Inr res
      \<and> ruleHitLogs res ''102'' \<noteq> None \<and> ruleHitLogs res ''102'' \<noteq> Some []
      \<and> (\<exists>x \<in> set (runEmittedLogs exEnv exBaseData). log_agentId x = ''102'')
      \<and> ruleHitLogs res ''102''
           = Some (filter (\<lambda>x. log_agentId x = ''102'') (runEmittedLogs exEnv exBaseData))
      \<and> ruleHitLogs res ''104'' = None
      \<and> list_all (\<lambda>x. log_agentId x \<noteq> ''104'') (runEmittedLogs exEnv exBaseData))"
proof -
  obtain res where r: "runBody exEnv exBaseData = Inr res" using exRun_returns by blast
  have s: "snd (runScheme exStore exRunAsOfDate) = Inr res" using exRunScheme r by simp
  have a: "ruleHitLogs res ''102'' \<noteq> None" "ruleHitLogs res ''104'' = None"
    using exRun_facts r by auto
  note T2 = ruleHitLogs_no_empty_key [of exEnv exBaseData res "''102''" exStore exRunAsOfDate]
  note T4 = ruleHitLogs_no_empty_key [of exEnv exBaseData res "''104''" exStore exRunAsOfDate]
  have b: "ruleHitLogs res ''102'' \<noteq> Some []"
    "\<exists>x \<in> set (runEmittedLogs exEnv exBaseData). log_agentId x = ''102''"
    "ruleHitLogs res ''102''
       = Some (filter (\<lambda>x. log_agentId x = ''102'') (runEmittedLogs exEnv exBaseData))"
    using T2 r a(1) by blast+
  have c: "\<not> (\<exists>x \<in> set (runEmittedLogs exEnv exBaseData). log_agentId x = ''104'')"
    using T4 r a(2) by blast
  then have c': "list_all (\<lambda>x. log_agentId x \<noteq> ''104'') (runEmittedLogs exEnv exBaseData)"
    by (simp add: list_all_iff)
  show ?thesis using r s a b c' by blast
qed

end
